(* ===== verification/Harvester_Prelude.thy ===== *)
theory Harvester_Prelude
  imports Main "HOL-Library.AList" "HOL-Library.State_Monad" "HOL-Library.Multiset"
    "HOL-Library.List_Lexorder" "HOL-Library.Char_ord"
begin

text \<open>
  Shared vocabulary of the development.

  \<^item> Go errors (\<open>go_error\<close>): API status errors, errors of a named type, formatted errors with and without \<open>%w\<close>
    wrapping, and run-time panics; \<open>is_not_found\<close>, \<open>is_conflict\<close> and \<open>errors_is\<close> follow the
    wrapping chain as \<^verbatim>\<open>apierrors.IsNotFound\<close> and \<^verbatim>\<open>errors.Is\<close> do.
  \<^item> Go string maps (\<open>smap\<close>): \<open>None\<close> is the nil map, \<open>Some\<close> an association list; a read of the
    nil map gives the zero value, a write to it panics.
  \<^item> Controller actions (\<open>act\<close>): a handler runs in the state monad over the history of the
    requests it has sent so far. The answer to a request is supplied by an environment that
    may depend on the whole history, so the API server, the clock and every other client stay
    arbitrary. \<open>emits\<close> states that every request an action sends satisfies a predicate on the
    history before it and the request.
  \<^item> \<open>retry_on_conflict\<close> of client-go, the locale \<open>reconciler\<close> that lifts a per-run policy of
    a handler to any sequence of reconciles, and the locale \<open>marker\<close> of the maps that components
    keep on foreign objects.
\<close>

named_theorems emit_intros \<open>introduction rules for emits\<close>
named_theorems key_defs \<open>definitions of label and annotation keys\<close>

section \<open>Go errors\<close>

datatype status_reason = NotFound | Conflict | AlreadyExists | OtherReason string

datatype go_error =
    ApiStatus status_reason string
  | NoKindMatch string
  | ErrorString string
  | TypedError string string
  | WrapError string go_error string
  | Panic string

type_synonym 'a result = "go_error + 'a"

fun err_text :: "go_error \<Rightarrow> string" where
  "err_text (ApiStatus r m) = m"
| "err_text (NoKindMatch m) = m"
| "err_text (ErrorString m) = m"
| "err_text (TypedError t m) = m"
| "err_text (WrapError pre e post) = pre @ err_text e @ post"
| "err_text (Panic m) = m"

fun reason_for_error :: "go_error \<Rightarrow> status_reason option" where
  "reason_for_error (ApiStatus r m) = Some r"
| "reason_for_error (WrapError pre e post) = reason_for_error e"
| "reason_for_error _ = None"

definition is_not_found :: "go_error \<Rightarrow> bool" where
  "is_not_found e \<longleftrightarrow> reason_for_error e = Some NotFound"

definition is_conflict :: "go_error \<Rightarrow> bool" where
  "is_conflict e \<longleftrightarrow> reason_for_error e = Some Conflict"

definition is_already_exists :: "go_error \<Rightarrow> bool" where
  "is_already_exists e \<longleftrightarrow> reason_for_error e = Some AlreadyExists"

fun errors_is :: "go_error \<Rightarrow> go_error \<Rightarrow> bool" where
  "errors_is (WrapError pre e post) t = (WrapError pre e post = t \<or> errors_is e t)"
| "errors_is e t = (e = t)"

fun is_panic :: "go_error \<Rightarrow> bool" where
  "is_panic (Panic m) = True"
| "is_panic _ = False"

text \<open>
  \<open>errorf_w s e\<close> is \<^verbatim>\<open>fmt.Errorf("s%w", e)\<close>, \<open>errorf_v s e\<close> is \<^verbatim>\<open>fmt.Errorf("s%v", e)\<close>: the
  second keeps only the text of \<open>e\<close>. A panic unwinds the stack and is not wrapped.
\<close>

definition errorf_w :: "string \<Rightarrow> go_error \<Rightarrow> go_error" where
  "errorf_w s e = (if is_panic e then e else WrapError s e [])"

definition errorf_v :: "string \<Rightarrow> go_error \<Rightarrow> go_error" where
  "errorf_v s e = (if is_panic e then e else ErrorString (s @ err_text e))"

lemma is_not_found_simps [simp]:
  "is_not_found (ApiStatus r m) \<longleftrightarrow> r = NotFound"
  "\<not> is_not_found (NoKindMatch m)"
  "\<not> is_not_found (ErrorString m)"
  "\<not> is_not_found (TypedError t m)"
  "\<not> is_not_found (Panic m)"
  "is_not_found (WrapError pre e post) \<longleftrightarrow> is_not_found e"
  by (simp_all add: is_not_found_def)

lemma is_conflict_simps [simp]:
  "is_conflict (ApiStatus r m) \<longleftrightarrow> r = Conflict"
  "\<not> is_conflict (NoKindMatch m)"
  "\<not> is_conflict (ErrorString m)"
  "\<not> is_conflict (TypedError t m)"
  "\<not> is_conflict (Panic m)"
  "is_conflict (WrapError pre e post) \<longleftrightarrow> is_conflict e"
  by (simp_all add: is_conflict_def)

lemma is_already_exists_simps [simp]:
  "is_already_exists (ApiStatus r m) \<longleftrightarrow> r = AlreadyExists"
  "is_already_exists (WrapError pre e post) \<longleftrightarrow> is_already_exists e"
  by (simp_all add: is_already_exists_def)

lemma reason_panic: "is_panic e \<Longrightarrow> reason_for_error e = None"
  by (cases e) auto

lemma errorf_panic [simp]: "errorf_w s (Panic m) = Panic m" "errorf_v s (Panic m) = Panic m"
  by (simp_all add: errorf_w_def errorf_v_def)

lemma is_not_found_errorf_w [simp]: "is_not_found (errorf_w s e) = is_not_found e"
  by (simp add: errorf_w_def)

lemma is_not_found_errorf_v [simp]: "\<not> is_not_found (errorf_v s e)"
  using reason_panic [of e] by (auto simp: errorf_v_def is_not_found_def)

section \<open>Go string maps\<close>

type_synonym smap = "(string \<times> string) list option"

definition sget :: "smap \<Rightarrow> string \<Rightarrow> string option" where
  "sget m k = (case m of None \<Rightarrow> None | Some l \<Rightarrow> map_of l k)"

definition sval :: "smap \<Rightarrow> string \<Rightarrow> string" where
  "sval m k = (case sget m k of None \<Rightarrow> [] | Some v \<Rightarrow> v)"

definition shas :: "smap \<Rightarrow> string \<Rightarrow> bool" where
  "shas m k \<longleftrightarrow> sget m k \<noteq> None"

text \<open>\<open>m[k] = v\<close> panics on the nil map; \<open>sset\<close> is the write after \<open>if m == nil { m = make(...) }\<close>.\<close>

definition swrite :: "smap \<Rightarrow> string \<Rightarrow> string \<Rightarrow> smap result" where
  "swrite m k v = (case m of None \<Rightarrow> Inl (Panic ''assignment to entry in nil map'')
                           | Some l \<Rightarrow> Inr (Some (AList.update k v l)))"

definition sset :: "smap \<Rightarrow> string \<Rightarrow> string \<Rightarrow> smap" where
  "sset m k v = Some (AList.update k v (case m of None \<Rightarrow> [] | Some l \<Rightarrow> l))"

definition sdel :: "smap \<Rightarrow> string \<Rightarrow> smap" where
  "sdel m k = map_option (AList.delete k) m"

definition slen :: "smap \<Rightarrow> nat" where
  "slen m = (case m of None \<Rightarrow> 0 | Some l \<Rightarrow> length l)"

definition skeys :: "smap \<Rightarrow> string list" where
  "skeys m = (case m of None \<Rightarrow> [] | Some l \<Rightarrow> map fst l)"

lemma sget_None [simp]: "sget None k = None"
  by (simp add: sget_def)

lemma sget_empty [simp]: "sget (Some []) k = None"
  by (simp add: sget_def)

lemma sval_None [simp]: "sval None k = []"
  by (simp add: sval_def)

lemma sget_sset [simp]: "sget (sset m k v) k' = (if k' = k then Some v else sget m k')"
  by (cases m) (auto simp: sget_def sset_def update_conv')

lemma sget_sdel [simp]: "sget (sdel m k) k' = (if k' = k then None else sget m k')"
  by (cases m) (auto simp: sget_def sdel_def delete_conv')

lemma sval_sset [simp]: "sval (sset m k v) k' = (if k' = k then v else sval m k')"
  by (simp add: sval_def)

lemma sval_sdel [simp]: "sval (sdel m k) k' = (if k' = k then [] else sval m k')"
  by (simp add: sval_def)

lemma shas_sset [simp]: "shas (sset m k v) k' \<longleftrightarrow> k' = k \<or> shas m k'"
  by (simp add: shas_def)

lemma shas_sdel [simp]: "shas (sdel m k) k' \<longleftrightarrow> k' \<noteq> k \<and> shas m k'"
  by (simp add: shas_def)

lemma sset_not_nil [simp]: "sset m k v \<noteq> None"
  by (simp add: sset_def)

lemma sdel_nil_iff [simp]: "sdel m k = None \<longleftrightarrow> m = None"
  by (simp add: sdel_def)

lemma sval_nonempty_shas: "sval m k \<noteq> [] \<Longrightarrow> shas m k"
  by (auto simp: sval_def shas_def split: option.splits)

lemma sget_Some_iff: "sget m k = Some v \<longleftrightarrow> shas m k \<and> sval m k = v"
  by (auto simp: sval_def shas_def split: option.splits)

lemma shas_skeys: "shas m k \<longleftrightarrow> k \<in> set (skeys m)"
  by (cases m) (auto simp: shas_def sget_def skeys_def map_of_eq_None_iff)

lemma length_delete_le: "length (AList.delete k l) \<le> length l"
  by (simp add: AList.delete_eq)

lemma length_delete_eq_iff: "length (AList.delete k l) = length l \<longleftrightarrow> k \<notin> fst ` set l"
proof (induction l)
  case Nil
  show ?case by simp
next
  case (Cons p l)
  then show ?case using length_delete_le [of k l] by (cases p) auto
qed

text \<open>A \<^verbatim>\<open>delete\<close> shortens the map exactly when the key was there.\<close>

lemma slen_sdel_le: "slen (sdel m k) \<le> slen m"
  by (cases m) (simp_all add: slen_def sdel_def length_delete_le)

lemma slen_sdel_eq_iff: "slen (sdel m k) = slen m \<longleftrightarrow> \<not> shas m k"
  by (cases m) (auto simp: slen_def sdel_def length_delete_eq_iff shas_def sget_def map_of_eq_None_iff)

lemma slen_sdel2_eq_iff: "slen (sdel (sdel m k) k') = slen m \<longleftrightarrow> \<not> shas m k \<and> \<not> shas m k'"
proof -
  have "slen (sdel (sdel m k) k') \<le> slen (sdel m k)" "slen (sdel m k) \<le> slen m"
    by (rule slen_sdel_le)+
  then have "slen (sdel (sdel m k) k') = slen m \<longleftrightarrow>
      slen (sdel (sdel m k) k') = slen (sdel m k) \<and> slen (sdel m k) = slen m"
    by linarith
  then show ?thesis by (auto simp: slen_sdel_eq_iff)
qed

section \<open>Go integers, formatting and maps\<close>

text \<open>Two's complement \<^verbatim>\<open>int64\<close> (multiplying a \<^verbatim>\<open>time.Duration\<close>) and the saturating \<^verbatim>\<open>time.Sub\<close>.\<close>

definition wrap64 :: "int \<Rightarrow> int" where
  "wrap64 x = (x + 2 ^ 63) mod 2 ^ 64 - 2 ^ 63"

definition sat64 :: "int \<Rightarrow> int" where
  "sat64 x = max (- (2 ^ 63)) (min (2 ^ 63 - 1) x)"

lemma wrap64_id [simp]: "- (2 ^ 63) \<le> x \<Longrightarrow> x < 2 ^ 63 \<Longrightarrow> wrap64 x = x"
  by (simp add: wrap64_def)

lemma wrap64_range: "- (2 ^ 63) \<le> wrap64 x" "wrap64 x < 2 ^ 63"
  unfolding wrap64_def using pos_mod_bound [of "2 ^ 64" "x + 2 ^ 63"] by auto

fun nat_digits :: "nat \<Rightarrow> string" where
  "nat_digits n = (if n < 10 then [char_of (48 + n)] else nat_digits (n div 10) @ [char_of (48 + n mod 10)])"

declare nat_digits.simps [simp del]

text \<open>\<^verbatim>\<open>%d\<close> and \<^verbatim>\<open>strings.Join\<close>.\<close>

definition int_str :: "int \<Rightarrow> string" where
  "int_str i = (if i < 0 then ''-'' @ nat_digits (nat (- i)) else nat_digits (nat i))"

fun join :: "string \<Rightarrow> string list \<Rightarrow> string" where
  "join sep [] = []"
| "join sep [x] = x"
| "join sep (x # y # ys) = x @ sep @ join sep (y # ys)"

text \<open>
  \<^verbatim>\<open>for k, v := range m\<close> visits the entries in an unspecified order: \<open>order\<close> arranges the keys.
\<close>

definition range_over :: "(string list \<Rightarrow> string list) \<Rightarrow> (string \<times> 'v) list \<Rightarrow> (string \<times> 'v) list" where
  "range_over order m = List.map_filter (\<lambda>k. map_option (Pair k) (map_of m k)) (order (map fst m))"

lemma range_over_perm:
  assumes "mset (order (map fst m)) = mset (map fst m)" and "distinct (map fst m)"
  shows "mset (range_over order m) = mset m"
proof -
  have eq: "mset (List.map_filter f xs) = image_mset (the \<circ> f) (filter_mset (\<lambda>x. f x \<noteq> None) (mset xs))"
    for f :: "string \<Rightarrow> (string \<times> 'a) option" and xs
    by (induction xs) (auto simp: List.map_filter_simps split: option.splits)
  have "mset (range_over order m) = mset (List.map_filter (\<lambda>k. map_option (Pair k) (map_of m k)) (map fst m))"
    unfolding range_over_def eq assms(1) by (rule refl)
  also have "List.map_filter (\<lambda>k. map_option (Pair k) (map_of m k)) (map fst m) = m"
    using assms(2)
  proof -
    have "List.map_filter (\<lambda>k. map_option (Pair k) (map_of m k)) (map fst m') = m'" if "set m' \<subseteq> set m" for m'
      using that
    proof (induction m')
      case (Cons p ps)
      then have "map_of m (fst p) = Some (snd p)" using assms(2) by (auto simp: map_of_eq_Some_iff)
      with Cons show ?case by (simp add: List.map_filter_simps)
    qed (simp add: List.map_filter_simps)
    then show ?thesis by blast
  qed
  finally show ?thesis .
qed

section \<open>Controller actions\<close>

type_synonym ('c, 'a) act = "('c list, 'a) state"

text \<open>Send the request \<open>c\<close>; the environment answers with \<open>resp h\<close> where \<open>h\<close> is the history before it.\<close>

definition request :: "'c \<Rightarrow> ('c list \<Rightarrow> 'a) \<Rightarrow> ('c, 'a) act" where
  "request c resp = State (\<lambda>h. (resp h, h @ [c]))"

lemma run_request [simp]: "run_state (request c resp) h = (resp h, h @ [c])"
  by (simp add: request_def)

text \<open>Read something of the environment that is not a request, such as the state of a context.\<close>

definition observe :: "('c list \<Rightarrow> 'a) \<Rightarrow> ('c, 'a) act" where
  "observe f = State (\<lambda>h. (f h, h))"

lemma run_observe [simp]: "run_state (observe f) h = (f h, h)"
  by (simp add: observe_def)

abbreviation ret :: "'a \<Rightarrow> ('c, 'a) act" where
  "ret \<equiv> State_Monad.return"

text \<open>The requests and the result of a run that starts with an empty history.\<close>

definition issued :: "('c, 'a) act \<Rightarrow> 'c list" where
  "issued m = snd (run_state m [])"

definition outcome :: "('c, 'a) act \<Rightarrow> 'a" where
  "outcome m = fst (run_state m [])"

text \<open>
  \<open>trace_ok P h cs\<close>: the requests \<open>cs\<close>, sent after the history \<open>h\<close>, each satisfy \<open>P\<close> together
  with the history before them. \<open>emits P m h\<close>: started after \<open>h\<close>, the action only appends to the
  history and every request it sends is allowed by \<open>P\<close>.
\<close>

fun trace_ok :: "('c list \<Rightarrow> 'c \<Rightarrow> bool) \<Rightarrow> 'c list \<Rightarrow> 'c list \<Rightarrow> bool" where
  "trace_ok P h [] = True"
| "trace_ok P h (c # cs) = (P h c \<and> trace_ok P (h @ [c]) cs)"

definition emits :: "('c list \<Rightarrow> 'c \<Rightarrow> bool) \<Rightarrow> ('c, 'a) act \<Rightarrow> 'c list \<Rightarrow> bool" where
  "emits P m h \<longleftrightarrow> (\<exists>cs. snd (run_state m h) = h @ cs \<and> trace_ok P h cs)"

lemma trace_ok_append: "trace_ok P h (xs @ ys) \<longleftrightarrow> trace_ok P h xs \<and> trace_ok P (h @ xs) ys"
  by (induction xs arbitrary: h) auto

lemma trace_ok_mono:
  "trace_ok P h cs \<Longrightarrow> (\<And>h c. P h c \<Longrightarrow> Q h c) \<Longrightarrow> trace_ok Q h cs"
  by (induction cs arbitrary: h) auto

lemma trace_ok_split: "trace_ok P h (pre @ c # post) \<Longrightarrow> P (h @ pre) c"
  by (simp add: trace_ok_append)

lemma trace_ok_all: "trace_ok (\<lambda>_. P) h cs \<longleftrightarrow> list_all P cs"
  by (induction cs arbitrary: h) auto

lemma emits_return [emit_intros]: "emits P (ret a) h"
  by (simp add: emits_def)

lemma emits_request [emit_intros]: "P h c \<Longrightarrow> emits P (request c r) h"
  by (simp add: emits_def)

lemma emits_observe [emit_intros]: "emits P (observe f) h"
  by (simp add: emits_def)

lemma emits_bind:
  assumes "emits P m h" and "\<And>a h'. run_state m h = (a, h') \<Longrightarrow> emits P (f a) h'"
  shows "emits P (State_Monad.bind m f) h"
proof -
  obtain a h1 where m: "run_state m h = (a, h1)" by fastforce
  from assms(1) m obtain cs where cs: "h1 = h @ cs" "trace_ok P h cs"
    by (auto simp: emits_def)
  from assms(2) [OF m] obtain cs' where "snd (run_state (f a) h1) = h1 @ cs'" "trace_ok P h1 cs'"
    by (auto simp: emits_def)
  with m cs have "snd (run_state (State_Monad.bind m f) h) = h @ (cs @ cs')" "trace_ok P h (cs @ cs')"
    by (auto simp: trace_ok_append)
  then show ?thesis unfolding emits_def by blast
qed

lemma emits_bindI [emit_intros]:
  "emits P m h \<Longrightarrow> (\<And>a h'. emits P (f a) h') \<Longrightarrow> emits P (State_Monad.bind m f) h"
  by (rule emits_bind)

text \<open>After a single request the next step knows its answer and the history it was given for.\<close>

lemma emits_request_bind:
  "P h c \<Longrightarrow> emits P (f (r h)) (h @ [c]) \<Longrightarrow> emits P (State_Monad.bind (request c r) f) h"
  by (rule emits_bind) (auto intro: emits_request)

lemma emits_if [emit_intros]:
  "(b \<Longrightarrow> emits P m h) \<Longrightarrow> (\<not> b \<Longrightarrow> emits P m' h) \<Longrightarrow> emits P (if b then m else m') h"
  by simp

lemma emits_case_sum [emit_intros]:
  "(\<And>e. r = Inl e \<Longrightarrow> emits P (f e) h) \<Longrightarrow> (\<And>x. r = Inr x \<Longrightarrow> emits P (g x) h) \<Longrightarrow>
   emits P (case r of Inl e \<Rightarrow> f e | Inr x \<Rightarrow> g x) h"
  by (cases r) auto

lemma emits_case_option [emit_intros]:
  "(r = None \<Longrightarrow> emits P m h) \<Longrightarrow> (\<And>x. r = Some x \<Longrightarrow> emits P (g x) h) \<Longrightarrow>
   emits P (case r of None \<Rightarrow> m | Some x \<Rightarrow> g x) h"
  by (cases r) auto

lemma emits_case_prod [emit_intros]:
  "(\<And>a b. p = (a, b) \<Longrightarrow> emits P (f a b) h) \<Longrightarrow> emits P (case p of (a, b) \<Rightarrow> f a b) h"
  by (cases p) auto

lemma emits_let [emit_intros]: "emits P (f x) h \<Longrightarrow> emits P (let y = x in f y) h"
  by simp

lemma emits_mono: "emits P m h \<Longrightarrow> (\<And>h c. P h c \<Longrightarrow> Q h c) \<Longrightarrow> emits Q m h"
  unfolding emits_def using trace_ok_mono by blast

text \<open>Every request is sent after a history that extends the one the action started with.\<close>

lemma emits_after:
  assumes "emits P m h"
  shows "emits (\<lambda>h' c. P h' c \<and> (\<exists>cs. h' = h @ cs)) m h"
proof -
  have "trace_ok (\<lambda>h' c. P h' c \<and> (\<exists>cs. h' = h @ cs)) (h @ pre) cs" if "trace_ok P (h @ pre) cs" for pre cs
    using that
  proof (induction cs arbitrary: pre)
    case (Cons c cs)
    then show ?case using Cons.IH [of "pre @ [c]"] by auto
  qed simp
  from this [of "[]"] assms show ?thesis unfolding emits_def by auto
qed

lemma emits_run:
  assumes "emits P m h" and "run_state m h = (a, h')"
  obtains cs where "h' = h @ cs" and "trace_ok P h cs"
  using assms by (auto simp: emits_def)

lemma emits_issued: "emits P m [] \<Longrightarrow> issued m = pre @ c # post \<Longrightarrow> P pre c"
  unfolding emits_def issued_def using trace_ok_split [of P "[]"] by auto

lemma emits_issued_all: "emits (\<lambda>_. P) m [] \<Longrightarrow> c \<in> set (issued m) \<Longrightarrow> P c"
  unfolding emits_def issued_def by (auto simp: trace_ok_all list_all_iff)

text \<open>\<open>if err != nil { return ..., err }\<close>: continue only on success.\<close>

definition andthen :: "('c, 'a result) act \<Rightarrow> ('a \<Rightarrow> ('c, 'b result) act) \<Rightarrow> ('c, 'b result) act" where
  "andthen m k = State_Monad.bind m (\<lambda>r. case r of Inl e \<Rightarrow> ret (Inl e) | Inr a \<Rightarrow> k a)"

lemma run_andthen [simp]:
  "run_state (andthen m k) h =
     (case run_state m h of (Inl e, h') \<Rightarrow> (Inl e, h') | (Inr a, h') \<Rightarrow> run_state (k a) h')"
  by (auto simp: andthen_def split: prod.splits sum.splits)

lemma emits_andthen [emit_intros]:
  "emits P m h \<Longrightarrow> (\<And>a h'. emits P (k a) h') \<Longrightarrow> emits P (andthen m k) h"
  unfolding andthen_def by (intro emit_intros)

lemma emits_request_andthen:
  "P h c \<Longrightarrow> (\<And>a. r h = Inr a \<Longrightarrow> emits P (k a) (h @ [c])) \<Longrightarrow> emits P (andthen (request c r) k) h"
  unfolding andthen_def by (rule emits_request_bind) (auto intro!: emit_intros)

lemma emits_andthen_run:
  "emits P m h \<Longrightarrow> (\<And>a h'. run_state m h = (Inr a, h') \<Longrightarrow> emits P (k a) h') \<Longrightarrow> emits P (andthen m k) h"
  unfolding andthen_def by (rule emits_bind) (auto intro!: emit_intros)

lemma emits_andthen_observe:
  "(\<And>a. f h = Inr a \<Longrightarrow> emits P (k a) h) \<Longrightarrow> emits P (andthen (observe f) k) h"
  by (rule emits_andthen_run) (auto intro: emits_observe)

lemma emits_bind_observe: "emits P (k (f h)) h \<Longrightarrow> emits P (State_Monad.bind (observe f) k) h"
  by (rule emits_bind) (auto intro: emits_observe)

text \<open>\<^verbatim>\<open>if err != nil { return ..., fmt.Errorf("msg%w", err) }\<close>.\<close>

definition wrap_error :: "string \<Rightarrow> ('c, 'a result) act \<Rightarrow> ('c, 'a result) act" where
  "wrap_error msg m = do {
     r \<leftarrow> m;
     ret (case r of Inl err \<Rightarrow> Inl (errorf_w msg err) | Inr a \<Rightarrow> Inr a) }"

lemma run_wrap_error [simp]:
  "run_state (wrap_error msg m) h = apfst (case_sum (\<lambda>err. Inl (errorf_w msg err)) Inr) (run_state m h)"
  by (auto simp: wrap_error_def split: prod.splits sum.splits)

lemma emits_wrap_error [emit_intros]: "emits P m h \<Longrightarrow> emits P (wrap_error msg m) h"
  unfolding wrap_error_def by (intro emits_bindI emits_return)

lemma andthen_wrap_error:
  "andthen (wrap_error msg m) k = State_Monad.bind m (\<lambda>r. case r of Inl err \<Rightarrow> ret (Inl (errorf_w msg err)) | Inr a \<Rightarrow> k a)"
  unfolding andthen_def wrap_error_def bind_assoc
  by (intro arg_cong [of _ _ "State_Monad.bind m"] ext) (auto split: sum.splits)

text \<open>\<^verbatim>\<open>retry.RetryOnConflict(retry.DefaultRetry, fn)\<close>: at most five attempts, i.e. four retries.\<close>

fun retry_on_conflict :: "nat \<Rightarrow> ('c, 'a result) act \<Rightarrow> ('c, 'a result) act" where
  "retry_on_conflict 0 fn = fn"
| "retry_on_conflict (Suc n) fn =
     State_Monad.bind fn (\<lambda>r. case r of
         Inl e \<Rightarrow> if is_conflict e then retry_on_conflict n fn else ret (Inl e)
       | Inr a \<Rightarrow> ret (Inr a))"

abbreviation (input) default_retries :: nat where
  "default_retries \<equiv> 4"

lemma emits_retry [emit_intros]:
  "(\<And>h. emits P fn h) \<Longrightarrow> emits P (retry_on_conflict n fn) h"
  by (induction n arbitrary: h) (auto intro!: emit_intros)

lemma retry_result:
  assumes "\<And>h a h'. run_state fn h = (Inr a, h') \<Longrightarrow> Q a" and "run_state (retry_on_conflict n fn) h = (Inr a, h')"
  shows "Q a"
  using assms(2)
proof (induction n arbitrary: h)
  case 0
  then show ?case using assms(1) by simp
next
  case (Suc n)
  then show ?case
    using assms(1) by (auto split: prod.splits sum.splits if_splits)
qed

section \<open>Loops over lists\<close>

text \<open>\<open>for _, x := range xs { if err := body(x); err != nil { return err } }\<close>\<close>

fun for_each :: "('x \<Rightarrow> ('c, unit result) act) \<Rightarrow> 'x list \<Rightarrow> ('c, unit result) act" where
  "for_each body [] = ret (Inr ())"
| "for_each body (x # xs) = andthen (body x) (\<lambda>_. for_each body xs)"

lemma emits_for_each [emit_intros]:
  "(\<And>x h. x \<in> set xs \<Longrightarrow> emits P (body x) h) \<Longrightarrow> emits P (for_each body xs) h"
  by (induction xs arbitrary: h) (auto intro!: emit_intros)

text \<open>A pure loop that stops at the first error.\<close>

fun map_result :: "('x \<Rightarrow> 'y result) \<Rightarrow> 'x list \<Rightarrow> 'y list result" where
  "map_result f [] = Inr []"
| "map_result f (x # xs) =
     (case f x of Inl e \<Rightarrow> Inl e
      | Inr y \<Rightarrow> (case map_result f xs of Inl e \<Rightarrow> Inl e | Inr ys \<Rightarrow> Inr (y # ys)))"

lemma map_result_Inr: "map_result f xs = Inr ys \<longleftrightarrow> list_all2 (\<lambda>x y. f x = Inr y) xs ys"
proof (induction xs arbitrary: ys)
  case Nil
  then show ?case by auto
next
  case (Cons x xs)
  show ?case
    by (cases "f x"; cases "map_result f xs") (auto simp: list_all2_Cons1 Cons.IH [symmetric])
qed

section \<open>Sequences of reconciles\<close>

text \<open>
  A reconciler handles one event at a time. \<open>policy x h c\<close> says which requests handling \<open>x\<close> may
  send after the history \<open>h\<close>; the locale lifts the policy to every run over a sequence of events.
\<close>

locale reconciler =
  fixes handler :: "'x \<Rightarrow> ('c, 'r) act"
    and policy :: "'x \<Rightarrow> 'c list \<Rightarrow> 'c \<Rightarrow> bool"
  assumes handler_policy: "emits (policy x) (handler x) h"
begin

fun run_events :: "'x list \<Rightarrow> 'c list \<Rightarrow> 'c list" where
  "run_events [] h = h"
| "run_events (x # xs) h = run_events xs (snd (run_state (handler x) h))"

lemma run_events_append: "run_events (xs @ ys) h = run_events ys (run_events xs h)"
  by (induction xs arbitrary: h) auto

lemma run_events_policy:
  "\<exists>cs. run_events xs h = h @ cs \<and> trace_ok (\<lambda>h c. \<exists>x \<in> set xs. policy x h c) h cs"
proof (induction xs arbitrary: h)
  case Nil
  show ?case by simp
next
  case (Cons x xs)
  obtain a h1 where hx: "run_state (handler x) h = (a, h1)" by fastforce
  then obtain cs where cs: "h1 = h @ cs" "trace_ok (policy x) h cs"
    by (rule emits_run [OF handler_policy])
  from Cons.IH [of h1] obtain cs' where
    cs': "run_events xs h1 = h1 @ cs'" "trace_ok (\<lambda>h c. \<exists>x \<in> set xs. policy x h c) h1 cs'"
    by blast
  have "trace_ok (\<lambda>h c. \<exists>x' \<in> set (x # xs). policy x' h c) h cs"
    using cs(2) by (rule trace_ok_mono) simp
  moreover have "trace_ok (\<lambda>h c. \<exists>x' \<in> set (x # xs). policy x' h c) h1 cs'"
    using cs'(2) by (rule trace_ok_mono) auto
  ultimately have "trace_ok (\<lambda>h c. \<exists>x' \<in> set (x # xs). policy x' h c) h (cs @ cs')"
    using cs(1) by (simp add: trace_ok_append)
  with hx cs(1) cs'(1) show ?case by auto
qed

lemma every_request_allowed:
  "run_events xs [] = pre @ c # post \<Longrightarrow> \<exists>x \<in> set xs. policy x pre c"
  using run_events_policy [of xs "[]"] trace_ok_split [of _ "[]" pre c post] by fastforce

end

section \<open>Markers on objects\<close>

text \<open>
  Several components keep a finite map on an object they do not own, as annotations under keys of
  their own: a drain request on a node, the migrating VMs and the compensation on a quota. The
  contract is that of a map; what the clients need is what remains after any sequence of marks
  and unmarks, and how a sum over the marks changes.
\<close>

locale marker =
  fixes mark :: "'k \<Rightarrow> 'v \<Rightarrow> 'o \<Rightarrow> 'o"
    and unmark :: "'k \<Rightarrow> 'o \<Rightarrow> 'o"
    and marked :: "'o \<Rightarrow> 'k \<Rightarrow> 'v option"
  assumes marked_mark: "marked (mark k v x) = (marked x)(k \<mapsto> v)"
    and marked_unmark: "marked (unmark k x) = (marked x)(k := None)"
begin

fun apply_marks :: "('k \<times> 'v option) list \<Rightarrow> 'o \<Rightarrow> 'o" where
  "apply_marks [] x = x"
| "apply_marks ((k, Some v) # ops) x = apply_marks ops (mark k v x)"
| "apply_marks ((k, None) # ops) x = apply_marks ops (unmark k x)"

lemma marked_apply: "marked (apply_marks ops x) k = (case map_of (rev ops) k of None \<Rightarrow> marked x k | Some ov \<Rightarrow> ov)"
  by (induction ops x rule: apply_marks.induct)
    (auto simp: marked_mark marked_unmark map_add_def split: option.splits)

lemma unmark_mark: "marked x k = None \<Longrightarrow> marked (unmark k (mark k v x)) = marked x"
  by (auto simp: marked_mark marked_unmark fun_eq_iff)

definition mark_sum :: "('v \<Rightarrow> 'n::ab_group_add) \<Rightarrow> 'o \<Rightarrow> 'n" where
  "mark_sum f x = (\<Sum>k \<in> dom (marked x). f (the (marked x k)))"

lemma mark_sum_mark:
  assumes "finite (dom (marked x))" and "marked x k = None"
  shows "mark_sum f (mark k v x) = mark_sum f x + f v"
proof -
  have "mark_sum f (mark k v x) = f v + (\<Sum>j \<in> dom (marked x). f (the (((marked x)(k \<mapsto> v)) j)))"
    using assms by (simp add: mark_sum_def marked_mark domIff)
  also have "(\<Sum>j \<in> dom (marked x). f (the (((marked x)(k \<mapsto> v)) j))) = mark_sum f x"
    unfolding mark_sum_def using assms(2) by (intro sum.cong) auto
  finally show ?thesis by (simp add: add.commute)
qed

lemma mark_sum_unmark:
  assumes "finite (dom (marked x))"
  shows "mark_sum f (unmark k x) = mark_sum f x - (case marked x k of None \<Rightarrow> 0 | Some v \<Rightarrow> f v)"
proof (cases "marked x k")
  case None
  then have "marked (unmark k x) = marked x" by (auto simp: marked_unmark)
  with None show ?thesis by (simp add: mark_sum_def)
next
  case (Some v)
  have "mark_sum f (unmark k x) = (\<Sum>j \<in> dom (marked x) - {k}. f (the (marked x j)))"
    unfolding mark_sum_def marked_unmark dom_fun_upd by (intro sum.cong) auto
  also have "\<dots> = mark_sum f x - f v"
    using assms Some by (simp add: mark_sum_def sum_diff1 domI)
  finally show ?thesis using Some by simp
qed

end

end
