(* ===== verification/Kube_Objects.thy ===== *)
theory Kube_Objects
  imports Harvester_Prelude
begin

text \<open>
  The Kubernetes and KubeVirt objects the controllers read and write, with the fields the code
  uses, the label and annotation keys of \<^verbatim>\<open>pkg/util/constants.go\<close>, and namespaced names
  (\<^verbatim>\<open>pkg/util/meta.go\<close>). Times are integers in nanoseconds; deep copies are the identity.
\<close>

section \<open>Keys\<close>

abbreviation ConditionTrue :: string where "ConditionTrue \<equiv> ''True''"
abbreviation ConditionFalse :: string where "ConditionFalse \<equiv> ''False''"
abbreviation ConditionUnknown :: string where "ConditionUnknown \<equiv> ''Unknown''"
abbreviation NodeReady :: string where "NodeReady \<equiv> ''Ready''"

definition KubeMasterNodeLabelKey :: string where
  [key_defs]: "KubeMasterNodeLabelKey = ''node-role.kubernetes.io/master''"
definition KubeControlPlaneNodeLabelKey :: string where
  [key_defs]: "KubeControlPlaneNodeLabelKey = ''node-role.kubernetes.io/control-plane''"
definition KubeEtcdNodeLabelKey :: string where
  [key_defs]: "KubeEtcdNodeLabelKey = ''node-role.kubernetes.io/etcd''"
definition HarvesterWitnessNodeLabelKey :: string where
  [key_defs]: "HarvesterWitnessNodeLabelKey = ''node-role.harvesterhci.io/witness''"
definition HarvesterMgmtNodeLabelKey :: string where
  [key_defs]: "HarvesterMgmtNodeLabelKey = ''node-role.harvesterhci.io/management''"
definition HarvesterWorkerNodeLabelKey :: string where
  [key_defs]: "HarvesterWorkerNodeLabelKey = ''node-role.harvesterhci.io/worker''"
definition HarvesterManagedNodeLabelKey :: string where
  [key_defs]: "HarvesterManagedNodeLabelKey = ''harvesterhci.io/managed''"
definition HarvesterPromoteNodeLabelKey :: string where
  [key_defs]: "HarvesterPromoteNodeLabelKey = ''harvesterhci.io/promote-node''"
definition HarvesterPromoteStatusAnnotationKey :: string where
  [key_defs]: "HarvesterPromoteStatusAnnotationKey = ''harvesterhci.io/promote-status''"
definition HarvesterInstallCordonedLabel :: string where
  [key_defs]: "HarvesterInstallCordonedLabel = ''harvesterhci.io/install-cordoned''"
definition HarvesterInstallCordonedProcessedAnnotation :: string where
  [key_defs]: "HarvesterInstallCordonedProcessedAnnotation = ''harvesterhci.io/install-cordoned-processed''"
definition LabelTopologyZone :: string where
  [key_defs]: "LabelTopologyZone = ''topology.kubernetes.io/zone''"
definition LabelHostname :: string where
  [key_defs]: "LabelHostname = ''kubernetes.io/hostname''"
definition LabelNodeNameKey :: string where
  [key_defs]: "LabelNodeNameKey = ''kubevirt.io/nodeName''"
definition LabelVMName :: string where
  [key_defs]: "LabelVMName = ''harvesterhci.io/vmName''"
definition LabelMaintainModeStrategy :: string where
  [key_defs]: "LabelMaintainModeStrategy = ''harvesterhci.io/maintain-mode-strategy''"
definition AnnotationMaintainModeStrategyNodeName :: string where
  [key_defs]: "AnnotationMaintainModeStrategyNodeName = ''harvesterhci.io/maintain-mode-strategy-node-name''"
definition AnnotationRunStrategy :: string where
  [key_defs]: "AnnotationRunStrategy = ''harvesterhci.io/vmRunStrategy''"
definition AnnotationMigrationUID :: string where
  [key_defs]: "AnnotationMigrationUID = ''harvesterhci.io/migrationUID''"
definition DrainAnnotation :: string where
  [key_defs]: "DrainAnnotation = ''harvesterhci.io/drain-requested''"
definition ForcedDrain :: string where
  [key_defs]: "ForcedDrain = ''harvesterhci.io/drain-forced''"

abbreviation MaintainModeStrategyShutdownAndRestartAfterEnable :: string where
  "MaintainModeStrategyShutdownAndRestartAfterEnable \<equiv> ''ShutdownAndRestartAfterEnable''"
abbreviation MaintainModeStrategyShutdownAndRestartAfterDisable :: string where
  "MaintainModeStrategyShutdownAndRestartAfterDisable \<equiv> ''ShutdownAndRestartAfterDisable''"
abbreviation MaintainModeStrategyShutdown :: string where
  "MaintainModeStrategyShutdown \<equiv> ''Shutdown''"

definition MaintainModeStrategyShutdownValues :: "string list" where
  "MaintainModeStrategyShutdownValues =
     [MaintainModeStrategyShutdownAndRestartAfterEnable,
      MaintainModeStrategyShutdownAndRestartAfterDisable,
      MaintainModeStrategyShutdown]"

section \<open>Objects\<close>

type_synonym time = int

record owner_ref =
  or_APIVersion :: string
  or_Kind :: string
  or_Name :: string
  or_UID :: string

record taint =
  taint_Key :: string
  taint_Value :: string
  taint_Effect :: string

record node_condition =
  nc_Type :: string
  nc_Status :: string
  nc_LastTransitionTime :: time
  nc_LastHeartbeatTime :: time
  nc_Reason :: string
  nc_Message :: string

record node =
  node_Kind :: string
  node_APIVersion :: string
  node_Name :: string
  node_UID :: string
  node_ResourceVersion :: nat
  node_Labels :: smap
  node_Annotations :: smap
  node_CreationTimestamp :: time
  node_DeletionTimestamp :: "time option"
  node_Unschedulable :: bool
  node_Taints :: "taint list"
  node_Conditions :: "node_condition list"

record vm =
  vm_Namespace :: string
  vm_Name :: string
  vm_Labels :: smap
  vm_Annotations :: smap
  vm_Running :: "bool option"
  vm_RunStrategy :: "string option"

text \<open>Required node affinity terms stay opaque: their matching is a library call.\<close>

typedecl node_selector

record vmi_condition =
  vc_Type :: string
  vc_Status :: string
  vc_Reason :: string

record vmi =
  vmi_Namespace :: string
  vmi_Name :: string
  vmi_Labels :: smap
  vmi_Annotations :: smap
  vmi_OwnerReferences :: "owner_ref list"
  vmi_Phase :: string
  vmi_NodeName :: string
  vmi_HostDevices :: "string list"
  vmi_GPUs :: "string list"
  vmi_Conditions :: "vmi_condition list"
  vmi_RequiredNodeAffinity :: "node_selector option"
  vmi_NodeSelector :: smap

record setting =
  set_Value :: string
  set_Default :: string

section \<open>Namespaced names\<close>

definition NamespacedName :: "string \<Rightarrow> string \<Rightarrow> string" where
  "NamespacedName namespace name = (if namespace = [] then name else namespace @ ''/'' @ name)"

text \<open>\<^verbatim>\<open>strings.Split(s, sep)\<close> for a one-character separator.\<close>

fun split_char :: "char \<Rightarrow> string \<Rightarrow> string list" where
  "split_char c [] = [[]]"
| "split_char c (x # xs) =
     (if x = c then [] # split_char c xs
      else (case split_char c xs of [] \<Rightarrow> [[x]] | y # ys \<Rightarrow> (x # y) # ys))"

lemma split_char_not_Nil [simp]: "split_char c s \<noteq> []"
  by (induction s) (auto split: list.splits)

lemma split_char_absent: "c \<notin> set s \<Longrightarrow> split_char c s = [s]"
  by (induction s) auto

lemma split_char_append: "c \<notin> set s \<Longrightarrow> split_char c (s @ c # t) = s # split_char c t"
  by (induction s) auto

section \<open>Run strategy of a virtual machine\<close>

abbreviation RunStrategyHalted :: string where "RunStrategyHalted \<equiv> ''Halted''"
abbreviation RunStrategyAlways :: string where "RunStrategyAlways \<equiv> ''Always''"
abbreviation RunStrategyRerunOnFailure :: string where "RunStrategyRerunOnFailure \<equiv> ''RerunOnFailure''"

definition RunStrategy :: "vm \<Rightarrow> string result" where
  "RunStrategy v =
     (if vm_Running v \<noteq> None \<and> vm_RunStrategy v \<noteq> None
      then Inl (ErrorString ''running and runstrategy are mutually exclusive'')
      else (case vm_Running v of
              Some r \<Rightarrow> Inr (if r then RunStrategyAlways else RunStrategyHalted)
            | None \<Rightarrow> Inr (case vm_RunStrategy v of Some s \<Rightarrow> s | None \<Rightarrow> RunStrategyHalted)))"

end
