(* ===== verification/Node_Util.thy ===== *)
theory Node_Util
  imports Kube_Objects
begin

text \<open>
  \<^verbatim>\<open>pkg/util/node.go\<close>: predicates on nodes (role, health, witness, promotion status), and
  reading and writing node status conditions.
\<close>

abbreviation PromoteStatusComplete :: string where "PromoteStatusComplete \<equiv> ''complete''"
abbreviation PromoteStatusRunning :: string where "PromoteStatusRunning \<equiv> ''running''"
abbreviation PromoteStatusUnknown :: string where "PromoteStatusUnknown \<equiv> ''unknown''"
abbreviation PromoteStatusFailed :: string where "PromoteStatusFailed \<equiv> ''failed''"

section \<open>Definitions\<close>

definition ExcludeWitnessNodes :: "node list \<Rightarrow> node list" where
  "ExcludeWitnessNodes nodes = filter (\<lambda>n. \<not> shas (node_Labels n) HarvesterWitnessNodeLabelKey) nodes"

definition IsPromoteStatusIn :: "node \<Rightarrow> string list \<Rightarrow> bool" where
  "IsPromoteStatusIn n statuses =
     (case sget (node_Annotations n) HarvesterPromoteStatusAnnotationKey of
        None \<Rightarrow> False
      | Some status \<Rightarrow> status \<in> set statuses)"

fun healthy_conditions :: "node_condition list \<Rightarrow> bool" where
  "healthy_conditions [] = True"
| "healthy_conditions (c # cs) =
     (if nc_Type c = NodeReady \<and> nc_Status c \<noteq> ConditionTrue then False
      else if nc_Type c \<noteq> NodeReady \<and> nc_Status c = ConditionTrue then False
      else healthy_conditions cs)"

definition IsHealthyNode :: "node \<Rightarrow> bool" where
  "IsHealthyNode n = healthy_conditions (node_Conditions n)"

definition IsWitnessNodeWithoutPromotionStatus :: "node \<Rightarrow> bool" where
  "IsWitnessNodeWithoutPromotionStatus n \<longleftrightarrow>
     sget (node_Labels n) HarvesterWitnessNodeLabelKey = Some ''true''"

definition IsWitnessNode :: "node \<Rightarrow> bool \<Rightarrow> bool" where
  "IsWitnessNode n isManagement =
     (if \<not> shas (node_Labels n) HarvesterWitnessNodeLabelKey then False
      else if isManagement \<or>
              IsPromoteStatusIn n [PromoteStatusComplete, PromoteStatusRunning,
                                   PromoteStatusFailed, PromoteStatusUnknown]
      then True
      else False)"

definition IsManagementRole :: "node \<Rightarrow> bool" where
  "IsManagementRole n =
     (case sget (node_Labels n) KubeMasterNodeLabelKey of Some v \<Rightarrow> v = ''true'' | None \<Rightarrow>
     (case sget (node_Labels n) KubeControlPlaneNodeLabelKey of Some v \<Rightarrow> v = ''true'' | None \<Rightarrow>
     (case sget (node_Labels n) KubeEtcdNodeLabelKey of Some v \<Rightarrow> v = ''true'' | None \<Rightarrow> False)))"

fun FindNodeStatusCondition :: "node_condition list \<Rightarrow> string \<Rightarrow> node_condition option" where
  "FindNodeStatusCondition [] t = None"
| "FindNodeStatusCondition (c # cs) t = (if nc_Type c = t then Some c else FindNodeStatusCondition cs t)"

definition CountNonWitnessHealthyNodes :: "node list \<Rightarrow> nat" where
  "CountNonWitnessHealthyNodes nodes =
     length (filter (\<lambda>n. \<not> IsWitnessNodeWithoutPromotionStatus n \<and> IsHealthyNode n) nodes)"

text \<open>
  The found condition is a copy; after it has been updated, it is written back over every entry
  of the type.
\<close>

definition SetNodeStatusCondition ::
  "time \<Rightarrow> node \<Rightarrow> string \<Rightarrow> string \<Rightarrow> string \<Rightarrow> string \<Rightarrow> node" where
  "SetNodeStatusCondition now n condType status reason message =
     (case FindNodeStatusCondition (node_Conditions n) condType of
        None \<Rightarrow> n\<lparr>node_Conditions := node_Conditions n @
          [\<lparr>nc_Type = condType, nc_Status = status, nc_LastTransitionTime = now,
            nc_LastHeartbeatTime = now, nc_Reason = reason, nc_Message = message\<rparr>]\<rparr>
      | Some c \<Rightarrow>
          let c1 = (if nc_Status c \<noteq> status then c\<lparr>nc_Status := status, nc_LastTransitionTime := now\<rparr> else c);
              c2 = c1\<lparr>nc_LastHeartbeatTime := now, nc_Reason := reason, nc_Message := message\<rparr>
          in n\<lparr>node_Conditions := map (\<lambda>d. if nc_Type d = condType then c2 else d) (node_Conditions n)\<rparr>)"

section \<open>Lemmas\<close>

lemma healthy_conditions_iff:
  "healthy_conditions cs \<longleftrightarrow>
     (\<forall>c \<in> set cs. (nc_Type c = NodeReady \<longleftrightarrow> nc_Status c = ConditionTrue))"
  by (induction cs) auto

lemma IsPromoteStatusIn_mono: "set ss \<subseteq> set ts \<Longrightarrow> IsPromoteStatusIn n ss \<Longrightarrow> IsPromoteStatusIn n ts"
  by (auto simp: IsPromoteStatusIn_def split: option.splits)

lemma FindNodeStatusCondition_type: "FindNodeStatusCondition cs t = Some c \<Longrightarrow> nc_Type c = t \<and> c \<in> set cs"
  by (induction cs) (auto split: if_splits)

lemma FindNodeStatusCondition_None: "FindNodeStatusCondition cs t = None \<longleftrightarrow> t \<notin> nc_Type ` set cs"
  by (induction cs) auto

lemma FindNodeStatusCondition_append:
  "FindNodeStatusCondition (cs @ ds) t =
     (case FindNodeStatusCondition cs t of Some c \<Rightarrow> Some c | None \<Rightarrow> FindNodeStatusCondition ds t)"
  by (induction cs) auto

lemma FindNodeStatusCondition_map_other:
  "(\<And>d. d \<in> set cs \<Longrightarrow> nc_Type (f d) = nc_Type d) \<Longrightarrow> (\<And>d. d \<in> set cs \<Longrightarrow> nc_Type d = t \<Longrightarrow> f d = d) \<Longrightarrow>
   FindNodeStatusCondition (map f cs) t = FindNodeStatusCondition cs t"
  by (induction cs) auto

lemma FindNodeStatusCondition_map_same:
  "FindNodeStatusCondition cs t = Some c \<Longrightarrow> nc_Type c' = t \<Longrightarrow>
   FindNodeStatusCondition (map (\<lambda>d. if nc_Type d = t then c' else d) cs) t = Some c'"
  by (induction cs) (auto split: if_splits)

lemma FindNodeStatusCondition_filter:
  "FindNodeStatusCondition (filter (\<lambda>c. nc_Type c \<noteq> t) cs) t' =
     (if t' = t then None else FindNodeStatusCondition cs t')"
  by (induction cs) auto

text \<open>What a caller reads after \<open>SetNodeStatusCondition\<close>: the new condition for its type, every other
  condition as before.\<close>

lemma SetNodeStatusCondition_same:
  "\<exists>c. FindNodeStatusCondition (node_Conditions (SetNodeStatusCondition now n t status reason message)) t = Some c
     \<and> nc_Type c = t \<and> nc_Status c = status \<and> nc_Reason c = reason \<and> nc_Message c = message
     \<and> nc_LastHeartbeatTime c = now"
proof (cases "FindNodeStatusCondition (node_Conditions n) t")
  case None
  then show ?thesis by (simp add: SetNodeStatusCondition_def FindNodeStatusCondition_append)
next
  case (Some c)
  then have "nc_Type c = t" by (simp add: FindNodeStatusCondition_type)
  with Some show ?thesis
    by (simp add: SetNodeStatusCondition_def Let_def FindNodeStatusCondition_map_same [OF Some])
qed

lemma SetNodeStatusCondition_other:
  assumes "t' \<noteq> t"
  shows "FindNodeStatusCondition (node_Conditions (SetNodeStatusCondition now n t status reason message)) t' =
     FindNodeStatusCondition (node_Conditions n) t'"
proof (cases "FindNodeStatusCondition (node_Conditions n) t")
  case None
  with assms show ?thesis
    by (simp add: SetNodeStatusCondition_def FindNodeStatusCondition_append split: option.splits)
next
  case (Some c)
  then have "nc_Type c = t" by (simp add: FindNodeStatusCondition_type)
  with Some assms show ?thesis
    by (simp add: SetNodeStatusCondition_def Let_def FindNodeStatusCondition_map_other)
qed

lemma SetNodeStatusCondition_frame [simp]:
  "node_Name (SetNodeStatusCondition now n t s r m) = node_Name n"
  "node_Taints (SetNodeStatusCondition now n t s r m) = node_Taints n"
  "node_Labels (SetNodeStatusCondition now n t s r m) = node_Labels n"
  "node_Annotations (SetNodeStatusCondition now n t s r m) = node_Annotations n"
  "node_Unschedulable (SetNodeStatusCondition now n t s r m) = node_Unschedulable n"
  by (simp_all add: SetNodeStatusCondition_def Let_def split: option.splits)

end
