(* ===== verification/VMI_Util.thy ===== *)
theory VMI_Util
  imports Node_Util
begin

text \<open>
  Live-migratability of virtual machine instances and the listing of the instances of a node
  (\<^verbatim>\<open>pkg/util/virtualmachineinstance/virtualmachineinstance.go\<close>).

  Parameters: \<open>matchTerms\<close> is \<^verbatim>\<open>MatchNodeSelectorTerms\<close> of the scheduling helpers, \<open>newReq\<close> is the
  validation \<^verbatim>\<open>labels.NewRequirement\<close> does, \<open>cache\<close> is what listing the informer cache returns.
\<close>

abbreviation VirtualMachineInstanceIsMigratable :: string where
  "VirtualMachineInstanceIsMigratable \<equiv> ''LiveMigratable''"

definition namespacedVMName :: "vmi \<Rightarrow> string" where
  "namespacedVMName v = vmi_Namespace v @ ''/'' @ vmi_Name v"

text \<open>The map of verdicts per node name, filled in the order of the node list.\<close>

fun migratability_map ::
  "(node \<Rightarrow> node_selector \<Rightarrow> bool result) \<Rightarrow> vmi \<Rightarrow> node list \<Rightarrow> (string \<times> bool) list \<Rightarrow> (string \<times> bool) list result" where
  "migratability_map matchTerms v [] m = Inr m"
| "migratability_map matchTerms v (n # ns) m =
     (if vmi_NodeName v = node_Name n then migratability_map matchTerms v ns m
      else if node_Unschedulable n
      then migratability_map matchTerms v ns (AList.update (node_Name n) False m)
      else case vmi_RequiredNodeAffinity v of
        None \<Rightarrow> migratability_map matchTerms v ns (AList.update (node_Name n) True m)
      | Some terms \<Rightarrow>
          (case matchTerms n terms of
             Inl err \<Rightarrow> Inl err
           | Inr b \<Rightarrow> migratability_map matchTerms v ns (AList.update (node_Name n) b m)))"

definition migratableByNodeAffinity ::
  "(node \<Rightarrow> node_selector \<Rightarrow> bool result) \<Rightarrow> vmi \<Rightarrow> node list \<Rightarrow> bool result" where
  "migratableByNodeAffinity matchTerms v nodes =
     (case migratability_map matchTerms v nodes [] of
        Inl err \<Rightarrow> Inl err
      | Inr m \<Rightarrow> Inr (list_ex snd m))"

fun non_live_migratable_loop ::
  "(node \<Rightarrow> node_selector \<Rightarrow> bool result) \<Rightarrow> node list \<Rightarrow> vmi list \<Rightarrow> string list result" where
  "non_live_migratable_loop matchTerms nodes [] = Inr []"
| "non_live_migratable_loop matchTerms nodes (v # vs) =
     (let continue_with = (\<lambda>b. case non_live_migratable_loop matchTerms nodes vs of
            Inl err \<Rightarrow> Inl err
          | Inr names \<Rightarrow> Inr (if b then namespacedVMName v # names else names))
      in if vmi_NodeSelector v \<noteq> None then continue_with True
         else if vmi_HostDevices v \<noteq> [] then continue_with True
         else case migratableByNodeAffinity matchTerms v nodes of
           Inl err \<Rightarrow> Inl err
         | Inr migratable \<Rightarrow> continue_with (\<not> migratable))"

definition GetAllNonLiveMigratableVMINames ::
  "(node \<Rightarrow> node_selector \<Rightarrow> bool result) \<Rightarrow> vmi list \<Rightarrow> node list \<Rightarrow> string list result" where
  "GetAllNonLiveMigratableVMINames matchTerms vmis nodes =
     (let nonWitnessNodes = ExcludeWitnessNodes nodes
      in if length nonWitnessNodes = 1 then Inr (map namespacedVMName vmis)
         else non_live_migratable_loop matchTerms nonWitnessNodes vmis)"

definition ValidateVMMigratable :: "vmi \<Rightarrow> unit result" where
  "ValidateVMMigratable v =
     (let name = namespacedVMName v
      in if vmi_Phase v \<noteq> ''Running''
         then Inl (ErrorString (''VM '' @ name @ '' is not live migratable as it is not running''))
         else if sval (vmi_Annotations v) AnnotationMigrationUID \<noteq> []
         then Inl (ErrorString (''VM '' @ name @ '' is not live migratable as it is already in a migrating state''))
         else if sval (vmi_NodeSelector v) LabelHostname \<noteq> []
         then Inl (ErrorString (''VM '' @ name @ '' is not live migratable as node selector is set''))
         else if vmi_HostDevices v \<noteq> []
         then Inl (ErrorString (''VM '' @ name @ '' is not live migratable as PCIe or USB devices are attached''))
         else if vmi_GPUs v \<noteq> []
         then Inl (ErrorString (''VM '' @ name @ '' is not live migratable as vGPU devices are attached''))
         else case List.find (\<lambda>c. vc_Type c = VirtualMachineInstanceIsMigratable) (vmi_Conditions v) of
           None \<Rightarrow> Inr ()
         | Some c \<Rightarrow>
             if vc_Status c \<noteq> ConditionFalse then Inr ()
             else Inl (ErrorString (''VM '' @ name @
               '' is not live migratable as the condition reported with reason: '' @ vc_Reason c)))"

definition ListByNode ::
  "(string \<Rightarrow> string list \<Rightarrow> unit result) \<Rightarrow> vmi list result \<Rightarrow> node \<Rightarrow> (smap \<Rightarrow> bool) \<Rightarrow> vmi list result" where
  "ListByNode newReq cache n selector =
     (case newReq LabelNodeNameKey [node_Name n] of
        Inl err \<Rightarrow> Inl err
      | Inr _ \<Rightarrow>
          (case cache of
             Inl err \<Rightarrow> Inl (errorf_w (''failed to list VMIs on node '' @ node_Name n @ '': '') err)
           | Inr vmis \<Rightarrow>
               Inr (filter (\<lambda>v. selector (vmi_Labels v) \<and> sget (vmi_Labels v) LabelNodeNameKey = Some (node_Name n)) vmis)))"

section \<open>Lemmas\<close>

lemma migratability_map_any:
  assumes "distinct (map node_Name nodes)" and "\<forall>n \<in> set nodes. map_of m (node_Name n) = None"
    and "migratability_map matchTerms v nodes m = Inr m'" and "distinct (map fst m)"
  shows "(\<exists>k. map_of m' k = Some True) \<longleftrightarrow>
    (\<exists>k. map_of m k = Some True) \<or>
    (\<exists>n \<in> set nodes. node_Name n \<noteq> vmi_NodeName v \<and> \<not> node_Unschedulable n \<and>
       (case vmi_RequiredNodeAffinity v of None \<Rightarrow> True | Some t \<Rightarrow> matchTerms n t = Inr True))"
  using assms
proof (induction nodes arbitrary: m)
  case Nil
  then show ?case by simp
next
  case (Cons n ns)
  let ?put = "\<lambda>b. AList.update (node_Name n) b m"
  have fresh: "map_of m (node_Name n) = None" using Cons.prems(2) by simp
  have side: "distinct (map node_Name ns)" "\<forall>n' \<in> set ns. map_of (?put b) (node_Name n') = None"
      "\<forall>n' \<in> set ns. map_of m (node_Name n') = None" "distinct (map fst (?put b))" for b
    using Cons.prems(1,2,4) by (auto simp: update_conv' distinct_update image_iff)
  have put: "(\<exists>k. map_of (?put b) k = Some True) \<longleftrightarrow> b \<or> (\<exists>k. map_of m k = Some True)" for b
    using fresh by (auto simp: update_conv' split: if_splits) (metis option.distinct(1))
  note IHp = Cons.IH [OF side(1) side(2) _ side(4)]
  note IHm = Cons.IH [OF side(1) side(3) _ Cons.prems(4)]
  from Cons.prems(3) show ?case
    by (auto simp: IHm IHp put split: if_splits option.splits sum.splits)
qed

lemma migratability_map_distinct:
  "migratability_map matchTerms v nodes m = Inr m' \<Longrightarrow> distinct (map fst m) \<Longrightarrow> distinct (map fst m')"
  by (induction nodes arbitrary: m) (auto simp: distinct_update split: if_splits option.splits sum.splits)

text \<open>
  An instance counts as migratable exactly when some other schedulable node satisfies its required
  node affinity.
\<close>

lemma migratableByNodeAffinity_iff:
  assumes "distinct (map node_Name nodes)" and "migratableByNodeAffinity matchTerms v nodes = Inr b"
  shows "b \<longleftrightarrow> (\<exists>n \<in> set nodes. node_Name n \<noteq> vmi_NodeName v \<and> \<not> node_Unschedulable n \<and>
       (case vmi_RequiredNodeAffinity v of None \<Rightarrow> True | Some t \<Rightarrow> matchTerms n t = Inr True))"
proof -
  from assms(2) obtain m where m: "migratability_map matchTerms v nodes [] = Inr m" "b = list_ex snd m"
    by (auto simp: migratableByNodeAffinity_def split: sum.splits)
  have "distinct (map fst m)" using migratability_map_distinct [OF m(1)] by simp
  then have "(\<exists>k. map_of m k = Some True) \<longleftrightarrow> (\<exists>k. (k, True) \<in> set m)" by simp
  also have "\<dots> \<longleftrightarrow> b" unfolding m(2) list_ex_iff by force
  finally have "b \<longleftrightarrow> (\<exists>k. map_of m k = Some True)" by (rule sym)
  then show ?thesis using migratability_map_any [OF assms(1) _ m(1)] by simp
qed

end
