(* ===== verification/Maintenance_Mode.thy ===== *)
theory Maintenance_Mode
  imports VMI_Util
begin

text \<open>
  Node maintenance mode: the condition and its lifecycle reasons, the guarded and unguarded
  condition updates and the VM restart of \<^verbatim>\<open>pkg/util/maintain.go\<close>, the drain-intent annotations of
  \<^verbatim>\<open>pkg/util/drainhelper/intent.go\<close> and the drain pre-check of \<^verbatim>\<open>pkg/util/drainhelper/helper.go\<close>.

  The clients and caches these functions use are shared by the node-drain controller, the
  maintain controller and the node action handler; they are the fields of \<open>mm_env\<close>, and the
  requests they send are the values of \<open>mm_call\<close>. Arguments of type \<^typ>\<open>node\<close> are non-nil
  pointers.
\<close>

section \<open>Requests and environment\<close>

datatype mm_call =
    NodesGet string
  | NodesUpdate node
  | NodesUpdateStatus node
  | VMsGet string string
  | VMsUpdate vm
  | ClockNow
  | DrainNode node int
  | NodeEnqueueAfter string int

record replica =
  replica_VolumeName :: string
  replica_NodeID :: string
  replica_Started :: bool

record workload =
  workload_Type :: string
  workload_Name :: string

record volume =
  volume_Name :: string
  volume_Namespace :: string
  volume_Workloads :: "workload list"

record mm_env =
  nodes_Get :: "mm_call list \<Rightarrow> string \<Rightarrow> node result"
  nodes_Update :: "mm_call list \<Rightarrow> node \<Rightarrow> node result"
  nodes_UpdateStatus :: "mm_call list \<Rightarrow> node \<Rightarrow> node result"
  vms_Get :: "mm_call list \<Rightarrow> string \<Rightarrow> string \<Rightarrow> vm result"
  vms_Update :: "mm_call list \<Rightarrow> vm \<Rightarrow> vm result"
  clock :: "mm_call list \<Rightarrow> time"
  drainNode :: "mm_call list \<Rightarrow> node \<Rightarrow> int \<Rightarrow> unit result"
  drainDeadlineExceeded :: "mm_call list \<Rightarrow> bool"
  nodeCache_List :: "node list result"
  vmiCache_Get :: "string \<Rightarrow> string \<Rightarrow> vmi result"
  vmiCache_List :: "vmi list result"
  vmCache_Get :: "string \<Rightarrow> string \<Rightarrow> vm result"
  vmCache_List :: "vm list result"
  replicaCache_List :: "replica list result"
  volumeCache_Get :: "string \<Rightarrow> volume result"
  newNodeSelector :: "node_selector \<Rightarrow> (node \<Rightarrow> bool) result"
  newRequirement :: "string \<Rightarrow> string list \<Rightarrow> unit result"
  mapRange :: "string list \<Rightarrow> string list"
  drainTimeoutMinutes :: int

definition nodes_get :: "mm_env \<Rightarrow> string \<Rightarrow> (mm_call, node result) act" where
  "nodes_get e name = request (NodesGet name) (\<lambda>h. nodes_Get e h name)"

definition nodes_update :: "mm_env \<Rightarrow> node \<Rightarrow> (mm_call, node result) act" where
  "nodes_update e n = request (NodesUpdate n) (\<lambda>h. nodes_Update e h n)"

definition nodes_update_status :: "mm_env \<Rightarrow> node \<Rightarrow> (mm_call, node result) act" where
  "nodes_update_status e n = request (NodesUpdateStatus n) (\<lambda>h. nodes_UpdateStatus e h n)"

definition vms_get :: "mm_env \<Rightarrow> string \<Rightarrow> string \<Rightarrow> (mm_call, vm result) act" where
  "vms_get e ns name = request (VMsGet ns name) (\<lambda>h. vms_Get e h ns name)"

definition vms_update :: "mm_env \<Rightarrow> vm \<Rightarrow> (mm_call, vm result) act" where
  "vms_update e v = request (VMsUpdate v) (\<lambda>h. vms_Update e h v)"

definition now :: "mm_env \<Rightarrow> (mm_call, time) act" where
  "now e = request ClockNow (clock e)"

lemmas mm_request_defs = nodes_get_def nodes_update_def nodes_update_status_def
  vms_get_def vms_update_def now_def

section \<open>The MaintenanceMode condition\<close>

abbreviation NodeConditionTypeMaintenanceMode :: string where
  "NodeConditionTypeMaintenanceMode \<equiv> ''MaintenanceMode''"
abbreviation NodeConditionReasonValidating :: string where "NodeConditionReasonValidating \<equiv> ''Validating''"
abbreviation NodeConditionReasonDraining :: string where "NodeConditionReasonDraining \<equiv> ''Draining''"
abbreviation NodeConditionReasonEvacuating :: string where "NodeConditionReasonEvacuating \<equiv> ''Evacuating''"
abbreviation NodeConditionReasonCompleted :: string where "NodeConditionReasonCompleted \<equiv> ''Completed''"
abbreviation NodeConditionReasonError :: string where "NodeConditionReasonError \<equiv> ''Error''"

definition MaintenanceModeMessageValidating :: string where
  "MaintenanceModeMessageValidating = ''Checking whether the node can enter maintenance mode''"
definition MaintenanceModeMessageDraining :: string where
  "MaintenanceModeMessageDraining = ''Draining the node''"
definition MaintenanceModeMessageEvacuating :: string where
  "MaintenanceModeMessageEvacuating = ''Waiting for VM migration and restart handling to complete''"
definition MaintenanceModeMessageCompleted :: string where
  "MaintenanceModeMessageCompleted = ''Maintenance mode enabled''"

definition GetMaintenanceModeCondition :: "node \<Rightarrow> node_condition option" where
  "GetMaintenanceModeCondition n = FindNodeStatusCondition (node_Conditions n) NodeConditionTypeMaintenanceMode"

definition IsMaintenanceModeCondition :: "node_condition option \<Rightarrow> string \<Rightarrow> string list \<Rightarrow> bool" where
  "IsMaintenanceModeCondition c status reasons =
     (case c of None \<Rightarrow> False | Some d \<Rightarrow> nc_Status d = status \<and> nc_Reason d \<in> set reasons)"

definition IsMaintenanceModePhase :: "node \<Rightarrow> string \<Rightarrow> string list \<Rightarrow> bool" where
  "IsMaintenanceModePhase n status reasons =
     IsMaintenanceModeCondition (GetMaintenanceModeCondition n) status reasons"

definition IsMaintenanceModeEngaged :: "node \<Rightarrow> bool" where
  "IsMaintenanceModeEngaged n =
     (case GetMaintenanceModeCondition n of None \<Rightarrow> False | Some c \<Rightarrow> nc_Status c = ConditionTrue)"

definition IsMaintenanceModeError :: "node_condition option \<Rightarrow> bool" where
  "IsMaintenanceModeError c = (case c of None \<Rightarrow> False | Some d \<Rightarrow> nc_Reason d = NodeConditionReasonError)"

definition CanDisableMaintenanceMode :: "node_condition option \<Rightarrow> bool" where
  "CanDisableMaintenanceMode c =
     IsMaintenanceModeCondition c ConditionTrue
       [NodeConditionReasonEvacuating, NodeConditionReasonCompleted, NodeConditionReasonError]"

definition CanNodeDisableMaintenanceMode :: "node \<Rightarrow> bool" where
  "CanNodeDisableMaintenanceMode n = CanDisableMaintenanceMode (GetMaintenanceModeCondition n)"

definition IsMaintenanceModeDrainComplete :: "node_condition option \<Rightarrow> bool" where
  "IsMaintenanceModeDrainComplete c =
     IsMaintenanceModeCondition c ConditionTrue [NodeConditionReasonEvacuating, NodeConditionReasonCompleted]"

definition IsNodeMaintenanceModeDrainComplete :: "node \<Rightarrow> bool" where
  "IsNodeMaintenanceModeDrainComplete n = IsMaintenanceModeDrainComplete (GetMaintenanceModeCondition n)"

text \<open>\<^verbatim>\<open>IsOtherNodeAvailable\<close> of \<^verbatim>\<open>pkg/util/node.go\<close>, which needs the maintenance condition.\<close>

fun IsOtherNodeAvailable :: "string \<Rightarrow> node list \<Rightarrow> bool" where
  "IsOtherNodeAvailable nodeName [] = False"
| "IsOtherNodeAvailable nodeName (n # ns) =
     (if node_Name n = nodeName then IsOtherNodeAvailable nodeName ns
      else if \<not> IsMaintenanceModeEngaged n \<and> \<not> node_Unschedulable n then True
      else IsOtherNodeAvailable nodeName ns)"

text \<open>
  The loop updates the first MaintenanceMode entry in place, or reports no change, or appends a
  new entry after the last one. The boolean says whether the node changed.
\<close>

fun set_maintenance_conditions ::
  "time \<Rightarrow> string \<Rightarrow> string \<Rightarrow> string \<Rightarrow> node_condition list \<Rightarrow> node_condition list \<times> bool" where
  "set_maintenance_conditions t status reason message [] =
     ([\<lparr>nc_Type = NodeConditionTypeMaintenanceMode, nc_Status = status, nc_LastTransitionTime = t,
        nc_LastHeartbeatTime = t, nc_Reason = reason, nc_Message = message\<rparr>], True)"
| "set_maintenance_conditions t status reason message (c # cs) =
     (if nc_Type c \<noteq> NodeConditionTypeMaintenanceMode
      then (let (cs', b) = set_maintenance_conditions t status reason message cs in (c # cs', b))
      else if nc_Status c = status \<and> nc_Reason c = reason \<and> nc_Message c = message
      then (c # cs, False)
      else (c\<lparr>nc_LastTransitionTime :=
               (if nc_Status c \<noteq> status \<or> nc_Reason c \<noteq> reason then t else nc_LastTransitionTime c),
              nc_LastHeartbeatTime := t, nc_Status := status, nc_Reason := reason,
              nc_Message := message\<rparr> # cs, True))"

definition SetMaintenanceModeCondition ::
  "time \<Rightarrow> node \<Rightarrow> string \<Rightarrow> string \<Rightarrow> string \<Rightarrow> node \<times> bool" where
  "SetMaintenanceModeCondition t n status reason message =
     (let (cs, changed) = set_maintenance_conditions t status reason message (node_Conditions n)
      in (n\<lparr>node_Conditions := cs\<rparr>, changed))"

definition RemoveMaintenanceModeCondition :: "node \<Rightarrow> node \<times> bool" where
  "RemoveMaintenanceModeCondition n =
     (let conditions = filter (\<lambda>c. nc_Type c \<noteq> NodeConditionTypeMaintenanceMode) (node_Conditions n)
      in if length conditions = length (node_Conditions n) then (n, False)
         else (n\<lparr>node_Conditions := conditions\<rparr>, True))"

definition UpdateMaintenanceModeCondition ::
  "mm_env \<Rightarrow> string \<Rightarrow> string \<Rightarrow> string \<Rightarrow> string \<Rightarrow> (mm_call, node result) act" where
  "UpdateMaintenanceModeCondition e nodeName status reason message =
     retry_on_conflict default_retries
       (andthen (nodes_get e nodeName) (\<lambda>n. do {
          t \<leftarrow> now e;
          let (n', changed) = SetMaintenanceModeCondition t n status reason message;
          if \<not> changed then ret (Inr n') else nodes_update_status e n'
        }))"

definition TransitionMaintenanceModeCondition ::
  "mm_env \<Rightarrow> string \<Rightarrow> string \<Rightarrow> string \<Rightarrow> string \<Rightarrow> string \<Rightarrow> string \<Rightarrow> (mm_call, node result) act" where
  "TransitionMaintenanceModeCondition e nodeName fromStatus fromReason toStatus toReason message =
     retry_on_conflict default_retries
       (andthen (nodes_get e nodeName) (\<lambda>n.
          if \<not> IsMaintenanceModePhase n fromStatus [fromReason] then ret (Inr n)
          else do {
            t \<leftarrow> now e;
            let n' = fst (SetMaintenanceModeCondition t n toStatus toReason message);
            nodes_update_status e n'
          }))"

section \<open>Restarting the VMs of a node\<close>

definition restart_vm_attempt :: "mm_env \<Rightarrow> string \<Rightarrow> vm \<Rightarrow> (mm_call, unit result) act" where
  "restart_vm_attempt e nodeName v = do {
     r \<leftarrow> vms_get e (vm_Namespace v) (vm_Name v);
     case r of
       Inl err \<Rightarrow> if is_not_found err then ret (Inr ()) else ret (Inl err)
     | Inr latest \<Rightarrow>
         if vm_Annotations latest = None \<or>
            sval (vm_Annotations latest) AnnotationMaintainModeStrategyNodeName \<noteq> nodeName
         then ret (Inr ())
         else
           let toUpdate = latest\<lparr>vm_Annotations :=
                 sdel (vm_Annotations latest) AnnotationMaintainModeStrategyNodeName\<rparr>
           in (case RunStrategy toUpdate of
                 Inl err \<Rightarrow> ret (Inl err)
               | Inr currentStrategy \<Rightarrow>
                   let toUpdate' =
                     (if currentStrategy = RunStrategyHalted
                      then let rs = sval (vm_Annotations toUpdate) AnnotationRunStrategy
                           in toUpdate\<lparr>vm_RunStrategy :=
                                Some (if rs = [] then RunStrategyRerunOnFailure else rs)\<rparr>
                      else toUpdate)
                   in andthen (vms_update e toUpdate') (\<lambda>_. ret (Inr ()))) }"

definition RestartMaintenanceModeVMsOnNode ::
  "mm_env \<Rightarrow> string \<Rightarrow> string \<Rightarrow> (mm_call, unit result) act" where
  "RestartMaintenanceModeVMsOnNode e nodeName strategy =
     (case vmCache_List e of
        Inl err \<Rightarrow> ret (Inl (errorf_w (''failed to list VMs with labels '' @ LabelMaintainModeStrategy @ ''='' @ strategy @ '': '') err))
      | Inr vms \<Rightarrow>
          for_each (\<lambda>v.
              if vm_Annotations v = None \<or>
                 sval (vm_Annotations v) AnnotationMaintainModeStrategyNodeName \<noteq> nodeName
              then ret (Inr ())
              else do {
                r \<leftarrow> retry_on_conflict default_retries (restart_vm_attempt e nodeName v);
                case r of
                  Inl err \<Rightarrow> ret (Inl (errorf_w (''failed to process VM '' @
                       NamespacedName (vm_Namespace v) (vm_Name v) @ '' during restart: '') err))
                | Inr _ \<Rightarrow> ret (Inr ()) })
            (filter (\<lambda>v. sget (vm_Labels v) LabelMaintainModeStrategy = Some strategy) vms))"

section \<open>Drain intent\<close>

definition HasDrainRequest :: "node \<Rightarrow> bool" where
  "HasDrainRequest n \<longleftrightarrow> sval (node_Annotations n) DrainAnnotation \<noteq> []"

definition IsForcedDrainRequested :: "node \<Rightarrow> bool" where
  "IsForcedDrainRequested n \<longleftrightarrow> sval (node_Annotations n) ForcedDrain \<noteq> []"

definition SetDrainRequest :: "node \<Rightarrow> bool \<Rightarrow> node" where
  "SetDrainRequest n forced =
     (let annotations = sset (node_Annotations n) DrainAnnotation ''true''
      in n\<lparr>node_Annotations :=
             (if forced then sset annotations ForcedDrain ''true'' else sdel annotations ForcedDrain)\<rparr>)"

definition ClearDrainRequest :: "node \<Rightarrow> node \<times> bool" where
  "ClearDrainRequest n =
     (if node_Annotations n = None then (n, False)
      else let annotations = sdel (sdel (node_Annotations n) DrainAnnotation) ForcedDrain
           in (n\<lparr>node_Annotations := annotations\<rparr>, slen annotations \<noteq> slen (node_Annotations n)))"

section \<open>Drain pre-check\<close>

definition ErrNodeDrainNotPossible :: go_error where
  "ErrNodeDrainNotPossible = ErrorString ''draining of this node is not possible''"

definition errSingleControlPlaneNode :: go_error where
  "errSingleControlPlaneNode = WrapError [] ErrNodeDrainNotPossible
     '': single controlplane cluster, cannot place controlplane in maintenance mode''"

definition errHAControlPlaneNode :: go_error where
  "errHAControlPlaneNode = WrapError [] ErrNodeDrainNotPossible
     '': another controlplane is already in maintenance mode, cannot place current node in maintenance mode''"

definition control_plane_map :: "node list \<Rightarrow> (string \<times> node) list" where
  "control_plane_map nodes =
     fold (\<lambda>v m. AList.update (node_Name v) v m)
       (filter (\<lambda>n. shas (node_Labels n) KubeEtcdNodeLabelKey) nodes)
       (fold (\<lambda>v m. AList.update (node_Name v) v m)
         (filter (\<lambda>n. shas (node_Labels n) KubeControlPlaneNodeLabelKey) nodes) [])"

definition DrainPossible :: "node list result \<Rightarrow> node \<Rightarrow> unit result" where
  "DrainPossible nodeCache n =
     (if \<not> shas (node_Labels n) KubeControlPlaneNodeLabelKey \<and>
         \<not> shas (node_Labels n) KubeEtcdNodeLabelKey
      then Inr ()
      else case nodeCache of
        Inl err \<Rightarrow> Inl (errorf_v (''error listing nodes matching selector '' @ KubeControlPlaneNodeLabelKey @ '': '') err)
      | Inr nodes \<Rightarrow>
          let nodeMap = control_plane_map nodes
          in if length nodeMap = 1 then Inl errSingleControlPlaneNode
             else let availableNodes =
                    length (filter (\<lambda>(k, v). node_Name v \<noteq> node_Name n \<and> \<not> IsMaintenanceModeEngaged v) nodeMap)
                  in if availableNodes \<noteq> 2 then Inl errHAControlPlaneNode else Inr ())"

text \<open>The pod filter of the drain helper: \<open>True\<close> keeps the pod (skip), \<open>False\<close> lets it be evicted.\<close>

definition maintainModeStrategyFilter_skips :: "smap \<Rightarrow> bool" where
  "maintainModeStrategyFilter_skips podLabels \<longleftrightarrow>
     (case sget podLabels LabelVMName of None \<Rightarrow> False
      | Some vmName \<Rightarrow>
          (case sget podLabels LabelMaintainModeStrategy of None \<Rightarrow> False
           | Some value \<Rightarrow> value \<in> set MaintainModeStrategyShutdownValues))"

section \<open>Lemmas\<close>

text \<open>The drain request on a node is a marker: present or not, and forced or not.\<close>

definition drain_intent_of :: "node \<Rightarrow> unit \<Rightarrow> bool option" where
  "drain_intent_of n u = (if HasDrainRequest n then Some (IsForcedDrainRequested n) else None)"

interpretation drain_intent: marker "\<lambda>u forced n. SetDrainRequest n forced" "\<lambda>u n. fst (ClearDrainRequest n)" drain_intent_of
proof unfold_locales
  have keys: "DrainAnnotation \<noteq> ForcedDrain" "ForcedDrain \<noteq> DrainAnnotation" by (simp_all add: key_defs)
  show "drain_intent_of (SetDrainRequest x v) = (drain_intent_of x)(k \<mapsto> v)" for x v k
    by (simp add: fun_eq_iff drain_intent_of_def HasDrainRequest_def IsForcedDrainRequested_def SetDrainRequest_def Let_def keys)
  show "drain_intent_of (fst (ClearDrainRequest x)) = (drain_intent_of x)(k := None)" for x k
    by (simp add: fun_eq_iff drain_intent_of_def HasDrainRequest_def ClearDrainRequest_def Let_def keys)
qed

text \<open>The lifecycle phase of a node: status and reason of its MaintenanceMode condition.\<close>

definition mm_phase :: "node \<Rightarrow> (string \<times> string) option" where
  "mm_phase n = map_option (\<lambda>c. (nc_Status c, nc_Reason c)) (GetMaintenanceModeCondition n)"

lemma IsMaintenanceModePhase_iff:
  "IsMaintenanceModePhase n s rs \<longleftrightarrow> (\<exists>r \<in> set rs. mm_phase n = Some (s, r))"
  by (auto simp: IsMaintenanceModePhase_def IsMaintenanceModeCondition_def mm_phase_def split: option.splits)

lemma IsMaintenanceModeCondition_phase:
  "IsMaintenanceModeCondition (GetMaintenanceModeCondition n) s rs \<longleftrightarrow> (\<exists>r \<in> set rs. mm_phase n = Some (s, r))"
  by (auto simp: IsMaintenanceModeCondition_def mm_phase_def split: option.splits)

lemma IsMaintenanceModeEngaged_iff: "IsMaintenanceModeEngaged n \<longleftrightarrow> (\<exists>r. mm_phase n = Some (ConditionTrue, r))"
  by (auto simp: IsMaintenanceModeEngaged_def mm_phase_def split: option.splits)

lemma set_maintenance_find:
  "FindNodeStatusCondition (fst (set_maintenance_conditions t s r m cs)) NodeConditionTypeMaintenanceMode =
     Some (case FindNodeStatusCondition cs NodeConditionTypeMaintenanceMode of
         None \<Rightarrow> \<lparr>nc_Type = NodeConditionTypeMaintenanceMode, nc_Status = s, nc_LastTransitionTime = t,
                  nc_LastHeartbeatTime = t, nc_Reason = r, nc_Message = m\<rparr>
       | Some c \<Rightarrow>
           if nc_Status c = s \<and> nc_Reason c = r \<and> nc_Message c = m then c
           else c\<lparr>nc_LastTransitionTime :=
                    (if nc_Status c \<noteq> s \<or> nc_Reason c \<noteq> r then t else nc_LastTransitionTime c),
                  nc_LastHeartbeatTime := t, nc_Status := s, nc_Reason := r, nc_Message := m\<rparr>)"
  by (induction cs) (auto simp: split_beta Let_def)

lemma set_maintenance_other:
  "t' \<noteq> NodeConditionTypeMaintenanceMode \<Longrightarrow>
   FindNodeStatusCondition (fst (set_maintenance_conditions t s r m cs)) t' = FindNodeStatusCondition cs t'"
  by (induction cs) (auto simp: split_beta Let_def)

lemma set_maintenance_unchanged:
  "\<not> snd (set_maintenance_conditions t s r m cs) \<Longrightarrow> fst (set_maintenance_conditions t s r m cs) = cs"
  by (induction cs) (auto simp: split_beta Let_def split: if_splits)

lemma set_maintenance_changed_iff:
  "snd (set_maintenance_conditions t s r m cs) \<longleftrightarrow>
     (case FindNodeStatusCondition cs NodeConditionTypeMaintenanceMode of
        None \<Rightarrow> True | Some c \<Rightarrow> nc_Status c \<noteq> s \<or> nc_Reason c \<noteq> r \<or> nc_Message c \<noteq> m)"
  by (induction cs) (auto simp: split_beta Let_def)

lemma SetMaintenanceModeCondition_frame [simp]:
  "node_Name (fst (SetMaintenanceModeCondition t n s r m)) = node_Name n"
  "node_Labels (fst (SetMaintenanceModeCondition t n s r m)) = node_Labels n"
  "node_Annotations (fst (SetMaintenanceModeCondition t n s r m)) = node_Annotations n"
  "node_Unschedulable (fst (SetMaintenanceModeCondition t n s r m)) = node_Unschedulable n"
  "node_Taints (fst (SetMaintenanceModeCondition t n s r m)) = node_Taints n"
  "node_ResourceVersion (fst (SetMaintenanceModeCondition t n s r m)) = node_ResourceVersion n"
  by (simp_all add: SetMaintenanceModeCondition_def split_beta Let_def)

lemma SetMaintenanceModeCondition_unchanged:
  "\<not> snd (SetMaintenanceModeCondition t n s r m) \<Longrightarrow> fst (SetMaintenanceModeCondition t n s r m) = n"
  by (simp add: SetMaintenanceModeCondition_def split_beta Let_def set_maintenance_unchanged)

lemma SetMaintenanceModeCondition_other:
  "t' \<noteq> NodeConditionTypeMaintenanceMode \<Longrightarrow>
   FindNodeStatusCondition (node_Conditions (fst (SetMaintenanceModeCondition t n s r m))) t' =
     FindNodeStatusCondition (node_Conditions n) t'"
  by (simp add: SetMaintenanceModeCondition_def split_beta Let_def set_maintenance_other)

lemma mm_phase_SetMaintenanceModeCondition [simp]:
  "mm_phase (fst (SetMaintenanceModeCondition t n s r m)) = Some (s, r)"
  by (auto simp: mm_phase_def GetMaintenanceModeCondition_def SetMaintenanceModeCondition_def
      split_beta Let_def set_maintenance_find split: option.splits)

lemma RemoveMaintenanceModeCondition_phase [simp]:
  "mm_phase (fst (RemoveMaintenanceModeCondition n)) = None"
proof (cases "length (filter (\<lambda>c. nc_Type c \<noteq> NodeConditionTypeMaintenanceMode) (node_Conditions n)) = length (node_Conditions n)")
  case True
  then have "filter (\<lambda>c. nc_Type c \<noteq> NodeConditionTypeMaintenanceMode) (node_Conditions n) = node_Conditions n"
    by (metis (mono_tags, lifting) filter_True length_filter_less less_irrefl)
  with FindNodeStatusCondition_filter [of NodeConditionTypeMaintenanceMode "node_Conditions n" NodeConditionTypeMaintenanceMode] True
  show ?thesis
    by (simp add: RemoveMaintenanceModeCondition_def mm_phase_def GetMaintenanceModeCondition_def)
next
  case False
  then show ?thesis
    using FindNodeStatusCondition_filter [of NodeConditionTypeMaintenanceMode "node_Conditions n" NodeConditionTypeMaintenanceMode]
    by (simp add: RemoveMaintenanceModeCondition_def mm_phase_def GetMaintenanceModeCondition_def)
qed

lemma RemoveMaintenanceModeCondition_frame [simp]:
  "node_Name (fst (RemoveMaintenanceModeCondition n)) = node_Name n"
  "node_Labels (fst (RemoveMaintenanceModeCondition n)) = node_Labels n"
  "node_Annotations (fst (RemoveMaintenanceModeCondition n)) = node_Annotations n"
  by (simp_all add: RemoveMaintenanceModeCondition_def Let_def)

lemma mm_phase_annotations [simp]: "mm_phase (n\<lparr>node_Annotations := a\<rparr>) = mm_phase n"
  by (simp add: mm_phase_def GetMaintenanceModeCondition_def)

subsection \<open>Drain intent\<close>

lemma DrainAnnotation_neq [simp]: "DrainAnnotation \<noteq> ForcedDrain" "ForcedDrain \<noteq> DrainAnnotation"
  by (simp_all add: key_defs)

lemma SetDrainRequest_intent [simp]:
  "HasDrainRequest (SetDrainRequest n f)"
  "IsForcedDrainRequested (SetDrainRequest n f) \<longleftrightarrow> f"
  "mm_phase (SetDrainRequest n f) = mm_phase n"
  by (simp_all add: HasDrainRequest_def IsForcedDrainRequested_def SetDrainRequest_def Let_def)

lemma sdel_absent: "\<not> shas m k \<Longrightarrow> sdel m k = m"
  by (cases m) (auto simp: shas_def sget_def sdel_def map_of_eq_None_iff)

lemma ClearDrainRequest_intent [simp]:
  "\<not> HasDrainRequest (fst (ClearDrainRequest n))"
  "\<not> IsForcedDrainRequested (fst (ClearDrainRequest n))"
  "mm_phase (fst (ClearDrainRequest n)) = mm_phase n"
  by (auto simp: HasDrainRequest_def IsForcedDrainRequested_def ClearDrainRequest_def Let_def)

lemma ClearDrainRequest_changed_iff:
  "snd (ClearDrainRequest n) \<longleftrightarrow>
     shas (node_Annotations n) DrainAnnotation \<or> shas (node_Annotations n) ForcedDrain"
  by (auto simp: ClearDrainRequest_def Let_def slen_sdel2_eq_iff shas_def)

lemma ClearDrainRequest_unchanged: "\<not> snd (ClearDrainRequest n) \<Longrightarrow> fst (ClearDrainRequest n) = n"
  by (auto simp: ClearDrainRequest_changed_iff) (auto simp: ClearDrainRequest_def Let_def sdel_absent)

lemma ClearDrainRequest_other:
  "k \<noteq> DrainAnnotation \<Longrightarrow> k \<noteq> ForcedDrain \<Longrightarrow>
   sget (node_Annotations (fst (ClearDrainRequest n))) k = sget (node_Annotations n) k"
  by (auto simp: ClearDrainRequest_def Let_def)

lemma ClearDrainRequest_frame [simp]:
  "node_Name (fst (ClearDrainRequest n)) = node_Name n"
  "node_Conditions (fst (ClearDrainRequest n)) = node_Conditions n"
  "node_Taints (fst (ClearDrainRequest n)) = node_Taints n"
  "node_Unschedulable (fst (ClearDrainRequest n)) = node_Unschedulable n"
  "node_ResourceVersion (fst (ClearDrainRequest n)) = node_ResourceVersion n"
  "node_Labels (fst (ClearDrainRequest n)) = node_Labels n"
  by (simp_all add: ClearDrainRequest_def Let_def)

subsection \<open>Condition writes\<close>

text \<open>
  The status writes a guarded transition may send. Each directly follows a live read that
  returned a node still in the source phase, and differs from that node only by the
  MaintenanceMode condition. The unguarded update does not test the phase.
\<close>

definition guarded_write ::
  "mm_env \<Rightarrow> string \<Rightarrow> string \<Rightarrow> string \<Rightarrow> string \<Rightarrow> string \<Rightarrow> string \<Rightarrow> mm_call list \<Rightarrow> mm_call \<Rightarrow> bool" where
  "guarded_write e name fs fr ts tr m h c =
     (case c of
        NodesGet x \<Rightarrow> x = name
      | ClockNow \<Rightarrow> True
      | NodesUpdateStatus n' \<Rightarrow>
          (\<exists>h0 n. h = h0 @ [NodesGet name, ClockNow] \<and> nodes_Get e h0 name = Inr n \<and>
             mm_phase n = Some (fs, fr) \<and>
             n' = fst (SetMaintenanceModeCondition (clock e (h0 @ [NodesGet name])) n ts tr m))
      | _ \<Rightarrow> False)"

definition unguarded_write ::
  "mm_env \<Rightarrow> string \<Rightarrow> string \<Rightarrow> string \<Rightarrow> string \<Rightarrow> mm_call list \<Rightarrow> mm_call \<Rightarrow> bool" where
  "unguarded_write e name ts tr m h c =
     (case c of
        NodesGet x \<Rightarrow> x = name
      | ClockNow \<Rightarrow> True
      | NodesUpdateStatus n' \<Rightarrow>
          (\<exists>h0 n. h = h0 @ [NodesGet name, ClockNow] \<and> nodes_Get e h0 name = Inr n \<and>
             n' = fst (SetMaintenanceModeCondition (clock e (h0 @ [NodesGet name])) n ts tr m))
      | _ \<Rightarrow> False)"

lemma emits_Transition:
  "emits (guarded_write e name fs fr ts tr m) (TransitionMaintenanceModeCondition e name fs fr ts tr m) h"
  unfolding TransitionMaintenanceModeCondition_def mm_request_defs
  by (rule emits_retry)
    (auto intro!: emits_request_andthen emits_request_bind emits_request emits_return
      simp: guarded_write_def IsMaintenanceModePhase_iff Let_def)

lemma emits_Update:
  "emits (unguarded_write e name ts tr m) (UpdateMaintenanceModeCondition e name ts tr m) h"
  unfolding UpdateMaintenanceModeCondition_def mm_request_defs
  by (rule emits_retry)
    (auto intro!: emits_request_andthen emits_request_bind emits_request emits_return
      simp: unguarded_write_def Let_def split_beta)

subsection \<open>Drain pre-check\<close>

lemma errors_is_drain [simp]:
  "errors_is errSingleControlPlaneNode ErrNodeDrainNotPossible"
  "errors_is errHAControlPlaneNode ErrNodeDrainNotPossible"
  by (simp_all add: errSingleControlPlaneNode_def errHAControlPlaneNode_def ErrNodeDrainNotPossible_def)

definition is_control_plane :: "node \<Rightarrow> bool" where
  "is_control_plane n \<longleftrightarrow>
     shas (node_Labels n) KubeControlPlaneNodeLabelKey \<or> shas (node_Labels n) KubeEtcdNodeLabelKey"

lemma fold_update_distinct:
  "distinct (map fst m) \<Longrightarrow> distinct (map fst (fold (\<lambda>v m. AList.update (f v) v m) xs m))"
  by (induction xs arbitrary: m) (auto simp: distinct_update)

lemma map_of_fold_update:
  assumes "\<And>x y. x \<in> set xs \<Longrightarrow> y \<in> set xs \<Longrightarrow> f x = f y \<Longrightarrow> x = y"
  shows "map_of (fold (\<lambda>v m. AList.update (f v) v m) xs m) k =
     (if k \<in> f ` set xs then find (\<lambda>x. f x = k) xs else map_of m k)"
  using assms
proof (induction xs arbitrary: m)
  case Nil
  then show ?case by simp
next
  case (Cons x xs)
  have IH: "map_of (fold (\<lambda>v m. AList.update (f v) v m) xs m') k =
     (if k \<in> f ` set xs then find (\<lambda>x. f x = k) xs else map_of m' k)" for m'
    by (rule Cons.IH) (use Cons.prems in auto)
  show ?case
  proof (cases "k \<in> f ` set xs")
    case True
    then obtain y where y: "y \<in> set xs" "f y = k" by auto
    then have "find (\<lambda>x. f x = k) xs = Some y"
    proof -
      obtain z where z: "find (\<lambda>x. f x = k) xs = Some z"
        using y by (cases "find (\<lambda>x. f x = k) xs") (auto simp: find_None_iff)
      then have "z \<in> set xs" "f z = k" by (auto simp: find_Some_iff)
      with y Cons.prems [of z y] z show ?thesis by auto
    qed
    with True y Cons.prems [of x y] show ?thesis by (auto simp: IH)
  next
    case False
    then show ?thesis by (auto simp: IH update_conv')
  qed
qed


lemma find_unique_iff:
  assumes "\<And>x y. x \<in> set xs \<Longrightarrow> y \<in> set xs \<Longrightarrow> f x = f y \<Longrightarrow> x = y"
  shows "find (\<lambda>x. f x = k) xs = Some v \<longleftrightarrow> v \<in> set xs \<and> f v = k"
proof
  assume "find (\<lambda>x. f x = k) xs = Some v"
  then show "v \<in> set xs \<and> f v = k" by (auto simp: find_Some_iff)
next
  assume v: "v \<in> set xs \<and> f v = k"
  then obtain z where z: "find (\<lambda>x. f x = k) xs = Some z"
    by (cases "find (\<lambda>x. f x = k) xs") (auto simp: find_None_iff)
  then have "z \<in> set xs" "f z = k" by (auto simp: find_Some_iff)
  with assms [of z v] v z show "find (\<lambda>x. f x = k) xs = Some v" by simp
qed

lemma control_plane_map_distinct: "distinct (map fst (control_plane_map nodes))"
  unfolding control_plane_map_def by (intro fold_update_distinct) simp

lemma control_plane_map_lookup:
  assumes "distinct (map node_Name nodes)"
  shows "map_of (control_plane_map nodes) k = Some v \<longleftrightarrow>
    v \<in> set nodes \<and> is_control_plane v \<and> node_Name v = k"
proof -
  have inj: "\<And>x y. x \<in> set nodes \<Longrightarrow> y \<in> set nodes \<Longrightarrow> node_Name x = node_Name y \<Longrightarrow> x = y"
    using assms by (auto simp: distinct_map dest: inj_onD)
  have look: "find (\<lambda>x. node_Name x = k) (filter P nodes) = Some v \<longleftrightarrow>
      v \<in> set nodes \<and> P v \<and> node_Name v = k" for P
    by (subst find_unique_iff) (use inj in auto)
  have upd: "map_of (fold (\<lambda>v m. AList.update (node_Name v) v m) (filter P nodes) m) k =
      (if k \<in> node_Name ` set (filter P nodes) then find (\<lambda>x. node_Name x = k) (filter P nodes)
       else map_of m k)" for P m
    by (rule map_of_fold_update) (use inj in auto)
  show ?thesis
    unfolding control_plane_map_def upd is_control_plane_def using inj by (auto simp: look)
qed

lemma control_plane_map_set:
  assumes "distinct (map node_Name nodes)"
  shows "set (map snd (control_plane_map nodes)) = {n \<in> set nodes. is_control_plane n}"
    and "distinct (map snd (control_plane_map nodes))"
proof -
  let ?M = "control_plane_map nodes"
  have mem: "(k, v) \<in> set ?M \<longleftrightarrow> v \<in> set nodes \<and> is_control_plane v \<and> node_Name v = k" for k v
    using control_plane_map_lookup [OF assms, of k v] control_plane_map_distinct [of nodes]
    by (simp add: map_of_eq_Some_iff)
  have "snd ` set ?M = {n \<in> set nodes. is_control_plane n}"
  proof (intro set_eqI iffI)
    fix v assume "v \<in> snd ` set ?M"
    then show "v \<in> {n \<in> set nodes. is_control_plane n}" using mem by (metis (mono_tags, lifting) imageE mem_Collect_eq prod.collapse)
  next
    fix v assume "v \<in> {n \<in> set nodes. is_control_plane n}"
    then have "(node_Name v, v) \<in> set ?M" using mem by simp
    then show "v \<in> snd ` set ?M" by (rule rev_image_eqI) simp
  qed
  then show "set (map snd ?M) = {n \<in> set nodes. is_control_plane n}" by simp
  have "inj_on snd (set ?M)"
  proof (rule inj_onI)
    fix p q assume "p \<in> set ?M" "q \<in> set ?M" "snd p = snd q"
    then show "p = q" using mem by (metis prod.collapse)
  qed
  moreover have "distinct ?M"
    using control_plane_map_distinct [of nodes] by (simp add: distinct_map)
  ultimately show "distinct (map snd ?M)" by (simp add: distinct_map)
qed

text \<open>
  For a control-plane or etcd node, the pre-check passes exactly when two other such nodes are not
  in maintenance.
\<close>

lemma control_plane_map_count:
  assumes "distinct (map node_Name nodes)"
  shows "length (filter (\<lambda>(k, v). P v) (control_plane_map nodes)) = card {v \<in> set nodes. is_control_plane v \<and> P v}"
proof -
  let ?vs = "map snd (control_plane_map nodes)"
  have "length (filter (\<lambda>(k, v). P v) (control_plane_map nodes)) = length (filter P ?vs)"
    by (simp add: filter_map o_def case_prod_beta')
  also have "\<dots> = card (set (filter P ?vs))"
    using control_plane_map_set(2) [OF assms] by (metis distinct_card distinct_filter)
  also have "set (filter P ?vs) = {v \<in> set nodes. is_control_plane v \<and> P v}"
    unfolding set_filter control_plane_map_set(1) [OF assms] by blast
  finally show ?thesis .
qed

lemma DrainPossible_iff:
  assumes "distinct (map node_Name nodes)" and "is_control_plane n" and "n \<in> set nodes"
  shows "DrainPossible (Inr nodes) n = Inr () \<longleftrightarrow>
    card {v \<in> set nodes. is_control_plane v \<and> node_Name v \<noteq> node_Name n \<and> \<not> IsMaintenanceModeEngaged v} = 2"
proof -
  let ?av = "{v \<in> set nodes. is_control_plane v \<and> node_Name v \<noteq> node_Name n \<and> \<not> IsMaintenanceModeEngaged v}"
  let ?cp = "{v \<in> set nodes. is_control_plane v}"
  have len: "length (control_plane_map nodes) = card ?cp"
    using control_plane_map_count [OF assms(1), of "\<lambda>_. True"] by simp
  have "?av \<subset> ?cp" using assms(2,3) by blast
  then have "card ?av < card ?cp" by (simp add: psubset_card_mono)
  then have "card ?cp \<noteq> 1 \<or> card ?av \<noteq> 2" by linarith
  then show ?thesis
    using assms(2) len control_plane_map_count [OF assms(1),
        where P = "\<lambda>v. node_Name v \<noteq> node_Name n \<and> \<not> IsMaintenanceModeEngaged v"]
    by (simp add: DrainPossible_def Let_def is_control_plane_def split: if_splits)
qed

subsection \<open>Restarted VMs\<close>

text \<open>
  The update a restart may send for a VM directly follows the read it is based on; the VM was
  tracked for the node, and the update drops the tracking annotation and restores the recorded run
  strategy of a halted VM.
\<close>

definition restart_write :: "mm_env \<Rightarrow> string \<Rightarrow> mm_call list \<Rightarrow> vm \<Rightarrow> bool" where
  "restart_write e nodeName h v' \<longleftrightarrow>
     (\<exists>h0 ns name latest s.
        h = h0 @ [VMsGet ns name] \<and> vms_Get e h0 ns name = Inr latest \<and>
        vm_Annotations latest \<noteq> None \<and>
        sval (vm_Annotations latest) AnnotationMaintainModeStrategyNodeName = nodeName \<and>
        RunStrategy latest = Inr s \<and>
        vm_Annotations v' = sdel (vm_Annotations latest) AnnotationMaintainModeStrategyNodeName \<and>
        vm_RunStrategy v' =
          (if s = RunStrategyHalted
           then Some (if sval (vm_Annotations latest) AnnotationRunStrategy = [] then RunStrategyRerunOnFailure
                      else sval (vm_Annotations latest) AnnotationRunStrategy)
           else vm_RunStrategy latest))"

lemma RunStrategy_annotations [simp]: "RunStrategy (v\<lparr>vm_Annotations := a\<rparr>) = RunStrategy v"
  by (auto simp: RunStrategy_def split: option.splits)

lemma AnnotationRunStrategy_neq [simp]: "AnnotationRunStrategy \<noteq> AnnotationMaintainModeStrategyNodeName"
  by (simp add: key_defs)

lemma emits_restart_attempt:
  assumes "\<And>h v'. restart_write e nodeName h v' \<Longrightarrow> P h (VMsUpdate v')"
    and "\<And>h. P h (VMsGet (vm_Namespace v) (vm_Name v))"
  shows "emits P (restart_vm_attempt e nodeName v) h"
  unfolding restart_vm_attempt_def mm_request_defs Let_def
  by (rule emits_request_bind, rule assms(2))
    (auto intro!: emits_case_sum emits_if emits_return emits_andthen emits_request assms(1) simp: restart_write_def)

lemma emits_restart:
  assumes "\<And>h v'. restart_write e nodeName h v' \<Longrightarrow> P h (VMsUpdate v')"
    and "\<And>h v vms. vmCache_List e = Inr vms \<Longrightarrow> v \<in> set vms \<Longrightarrow>
       sget (vm_Labels v) LabelMaintainModeStrategy = Some strategy \<Longrightarrow>
       sval (vm_Annotations v) AnnotationMaintainModeStrategyNodeName = nodeName \<Longrightarrow>
       P h (VMsGet (vm_Namespace v) (vm_Name v))"
  shows "emits P (RestartMaintenanceModeVMsOnNode e nodeName strategy) h"
  unfolding RestartMaintenanceModeVMsOnNode_def
  by (intro emits_case_sum emits_return emits_for_each emits_if emits_bindI emits_retry emits_restart_attempt)
    (auto intro: assms)

section \<open>A concrete cluster\<close>

text \<open>Nodes and an API server that stores nothing, for the witnesses.\<close>

definition sample_node :: "string \<Rightarrow> (string \<times> string) list \<Rightarrow> (string \<times> string) list \<Rightarrow> node_condition list \<Rightarrow> node" where
  "sample_node name labels annotations conds =
     \<lparr>node_Kind = ''Node'', node_APIVersion = ''v1'', node_Name = name, node_UID = ''uid-'' @ name,
      node_ResourceVersion = 1, node_Labels = Some labels, node_Annotations = Some annotations,
      node_CreationTimestamp = 0, node_DeletionTimestamp = None, node_Unschedulable = False,
      node_Taints = [], node_Conditions = conds\<rparr>"

definition sample_condition :: "string \<Rightarrow> string \<Rightarrow> node_condition" where
  "sample_condition status reason =
     \<lparr>nc_Type = NodeConditionTypeMaintenanceMode, nc_Status = status, nc_LastTransitionTime = 0,
      nc_LastHeartbeatTime = 0, nc_Reason = reason, nc_Message = []\<rparr>"

definition sample_env :: "node list \<Rightarrow> node \<Rightarrow> int \<Rightarrow> mm_env" where
  "sample_env cached live timeout =
     \<lparr>nodes_Get = \<lambda>h name. Inr live, nodes_Update = \<lambda>h n. Inr n, nodes_UpdateStatus = \<lambda>h n. Inr n,
      vms_Get = \<lambda>h ns name. Inl (ApiStatus NotFound ''not found''), vms_Update = \<lambda>h v. Inr v,
      clock = \<lambda>h. int (length h), drainNode = \<lambda>h n t. Inr (), drainDeadlineExceeded = \<lambda>h. False,
      nodeCache_List = Inr cached, vmiCache_Get = \<lambda>ns name. Inl (ApiStatus NotFound ''not found''),
      vmiCache_List = Inr [], vmCache_Get = \<lambda>ns name. Inl (ApiStatus NotFound ''not found''),
      vmCache_List = Inr [], replicaCache_List = Inr [], volumeCache_Get = \<lambda>n. Inl (ApiStatus NotFound ''not found''),
      newNodeSelector = \<lambda>s. Inr (\<lambda>n. True), newRequirement = \<lambda>k vs. Inr (), mapRange = \<lambda>ks. ks,
      drainTimeoutMinutes = timeout\<rparr>"


section \<open>Properties\<close>

text \<open>
  C8. A guarded transition writes only over a live node that is still in the source phase: each
  status write directly follows the read that established this, sets the target phase, and
  leaves every other condition, the labels, the annotations and the resource version as read.
\<close>

theorem transition_is_guarded:
  assumes "issued (TransitionMaintenanceModeCondition e name fs fr ts tr m) = pre @ NodesUpdateStatus n' # post"
  shows "\<exists>h0 live. pre = h0 @ [NodesGet name, ClockNow] \<and> nodes_Get e h0 name = Inr live \<and>
    mm_phase live = Some (fs, fr) \<and> mm_phase n' = Some (ts, tr) \<and>
    (\<forall>t. t \<noteq> NodeConditionTypeMaintenanceMode \<longrightarrow>
       FindNodeStatusCondition (node_Conditions n') t = FindNodeStatusCondition (node_Conditions live) t) \<and>
    node_Labels n' = node_Labels live \<and> node_Annotations n' = node_Annotations live \<and>
    node_ResourceVersion n' = node_ResourceVersion live"
  using emits_issued [OF emits_Transition assms] SetMaintenanceModeCondition_other
  by (auto simp: guarded_write_def)

theorem transition_is_guarded_witness:
  "\<exists>h0 live. [NodesGet ''n1'', ClockNow] = h0 @ [NodesGet ''n1'', ClockNow] \<and>
    nodes_Get (sample_env [] (sample_node ''n1'' [] [] [sample_condition ConditionTrue ''Draining'']) 0) h0 ''n1'' = Inr live \<and>
    mm_phase live = Some (ConditionTrue, ''Draining'')"
proof -
  have "issued (TransitionMaintenanceModeCondition
      (sample_env [] (sample_node ''n1'' [] [] [sample_condition ConditionTrue ''Draining'']) 0) ''n1''
      ConditionTrue ''Draining'' ConditionTrue ''Evacuating'' ''m'') =
    [NodesGet ''n1'', ClockNow] @ NodesUpdateStatus (fst (SetMaintenanceModeCondition 1
      (sample_node ''n1'' [] [] [sample_condition ConditionTrue ''Draining'']) ConditionTrue ''Evacuating'' ''m'')) # []"
    by code_simp
  from transition_is_guarded [OF this] show ?thesis by blast
qed

text \<open>
  C7. The pre-check lets a control-plane or etcd node enter maintenance exactly when two other
  control-plane or etcd nodes of the cluster are not in maintenance.
\<close>

theorem drain_possible_iff_quorum:
  assumes "distinct (map node_Name nodes)" and "n \<in> set nodes"
    and "shas (node_Labels n) KubeControlPlaneNodeLabelKey \<or> shas (node_Labels n) KubeEtcdNodeLabelKey"
  shows "DrainPossible (Inr nodes) n = Inr () \<longleftrightarrow>
    card {v \<in> set nodes. (shas (node_Labels v) KubeControlPlaneNodeLabelKey \<or> shas (node_Labels v) KubeEtcdNodeLabelKey) \<and>
       node_Name v \<noteq> node_Name n \<and> \<not> IsMaintenanceModeEngaged v} = 2"
  using DrainPossible_iff [OF assms(1) _ assms(2)] assms(3) unfolding is_control_plane_def by simp

theorem drain_possible_iff_quorum_witness:
  "let cp = (\<lambda>name cs. sample_node name [(KubeControlPlaneNodeLabelKey, ''true'')] [] cs);
       nodes = [cp ''n1'' [sample_condition ConditionTrue ''Validating''], cp ''n2'' [], cp ''n3'' []]
   in DrainPossible (Inr nodes) (nodes ! 0) = Inr () \<and>
      card {v \<in> set nodes. (shas (node_Labels v) KubeControlPlaneNodeLabelKey \<or> shas (node_Labels v) KubeEtcdNodeLabelKey) \<and>
        node_Name v \<noteq> ''n1'' \<and> \<not> IsMaintenanceModeEngaged v} = 2"
proof -
  define cp where "cp = (\<lambda>name cs. sample_node name [(KubeControlPlaneNodeLabelKey, ''true'')] [] cs)"
  define nodes where "nodes = [cp ''n1'' [sample_condition ConditionTrue ''Validating''], cp ''n2'' [], cp ''n3'' []]"
  have "DrainPossible (Inr nodes) (nodes ! 0) = Inr ()"
    unfolding nodes_def cp_def by code_simp
  moreover have "distinct (map node_Name nodes)" "node_Name (nodes ! 0) = ''n1''"
    "shas (node_Labels (nodes ! 0)) KubeControlPlaneNodeLabelKey"
    by (simp_all add: nodes_def cp_def sample_node_def shas_def sget_def)
  moreover have "nodes ! 0 \<in> set nodes" by (simp add: nodes_def)
  ultimately show ?thesis
    using drain_possible_iff_quorum [of nodes "nodes ! 0"] by (simp add: Let_def nodes_def cp_def)
qed

text \<open>
  Restarting the VMs of a node updates a VM only directly after a read that shows it is
  tracked for that node; the update removes the tracking annotation, restores the recorded run
  strategy (or RerunOnFailure) of a halted VM, and leaves the run strategy of any other VM alone.
\<close>

theorem restart_updates_tracked_vms:
  assumes "issued (RestartMaintenanceModeVMsOnNode e nodeName strategy) = pre @ c # post"
  shows "(\<exists>v' . c = VMsUpdate v' \<and> restart_write e nodeName pre v') \<or>
    (\<exists>vms v. vmCache_List e = Inr vms \<and> v \<in> set vms \<and> c = VMsGet (vm_Namespace v) (vm_Name v) \<and>
       sget (vm_Labels v) LabelMaintainModeStrategy = Some strategy \<and>
       sval (vm_Annotations v) AnnotationMaintainModeStrategyNodeName = nodeName)"
  by (rule emits_issued [OF emits_restart assms]) blast+

definition sample_tracked_vm :: vm where
  "sample_tracked_vm =
     \<lparr>vm_Namespace = ''ns'', vm_Name = ''v'',
      vm_Labels = Some [(LabelMaintainModeStrategy, MaintainModeStrategyShutdownAndRestartAfterEnable)],
      vm_Annotations = Some [(AnnotationMaintainModeStrategyNodeName, ''n1''), (AnnotationRunStrategy, ''Always'')],
      vm_Running = None, vm_RunStrategy = Some RunStrategyHalted\<rparr>"

definition sample_restart_env :: mm_env where
  "sample_restart_env = (sample_env [] (sample_node ''n1'' [] [] []) 0)
     \<lparr>vmCache_List := Inr [sample_tracked_vm], vms_Get := \<lambda>h ns name. Inr sample_tracked_vm\<rparr>"

theorem restart_updates_tracked_vms_witness:
  "restart_write sample_restart_env ''n1'' [VMsGet ''ns'' ''v'']
     (sample_tracked_vm\<lparr>vm_Annotations := Some [(AnnotationRunStrategy, ''Always'')], vm_RunStrategy := Some ''Always''\<rparr>)"
proof -
  have "issued (RestartMaintenanceModeVMsOnNode sample_restart_env ''n1'' MaintainModeStrategyShutdownAndRestartAfterEnable) =
    [VMsGet ''ns'' ''v''] @
    VMsUpdate (sample_tracked_vm\<lparr>vm_Annotations := Some [(AnnotationRunStrategy, ''Always'')], vm_RunStrategy := Some ''Always''\<rparr>) # []"
    by code_simp
  from restart_updates_tracked_vms [OF this] show ?thesis by simp
qed

end
