(* ===== verification/Node_Drain.thy ===== *)
theory Node_Drain
  imports Maintenance_Mode "HOL-Library.Sublist"
begin

text \<open>
  The node-drain controller (\<^verbatim>\<open>pkg/controller/master/nodedrain/nodedrain_controller.go\<close>): it moves
  a node with a drain request through Validating and Draining to Evacuating or Error.

  A handler returns the node or an error; the node that Go returns beside a non-nil error is not
  used by the caller and is not modelled. Nodes passed on to the inner operations are non-nil.
  \<^verbatim>\<open>kubevirtv1.NodeNameLabel\<close> and \<^verbatim>\<open>util.LabelNodeNameKey\<close> are the same label.
\<close>

abbreviation LastHealthyReplicaKey :: string where "LastHealthyReplicaKey \<equiv> ''LastHealthyReplica''"
abbreviation MaintainModeStrategyKey :: string where "MaintainModeStrategyKey \<equiv> ''MaintainModeStrategy''"
abbreviation NodeSchedulingRequirementsNotMetKey :: string where
  "NodeSchedulingRequirementsNotMetKey \<equiv> ''NodeSchedulingRequirementsNotMet''"

type_synonym vm_groups = "(string \<times> string list) list"

section \<open>Volumes and instances\<close>

record volume_details =
  vd_healthy :: nat
  vd_unhealthy :: nat
  vd_replicas :: "replica list"

definition count_replica :: "replica \<Rightarrow> (string \<times> volume_details) list \<Rightarrow> (string \<times> volume_details) list" where
  "count_replica r volumeMap =
     (let v = (case map_of volumeMap (replica_VolumeName r) of
                 None \<Rightarrow> \<lparr>vd_healthy = 0, vd_unhealthy = 0, vd_replicas = []\<rparr> | Some v \<Rightarrow> v);
          v' = (if replica_Started r then v\<lparr>vd_healthy := vd_healthy v + 1\<rparr>
                else v\<lparr>vd_unhealthy := vd_unhealthy v + 1\<rparr>)
      in AList.update (replica_VolumeName r) (v'\<lparr>vd_replicas := vd_replicas v' @ [r]\<rparr>) volumeMap)"

definition possible_volume_names ::
  "(string list \<Rightarrow> string list) \<Rightarrow> replica list \<Rightarrow> string \<Rightarrow> string list" where
  "possible_volume_names order replicaList nodeName =
     concat (map (\<lambda>(pvcName, replicaState).
         if vd_healthy replicaState \<le> 1
         then map (\<lambda>_. pvcName)
                (filter (\<lambda>v. replica_Started v \<and> replica_NodeID v = nodeName) (vd_replicas replicaState))
         else [])
       (range_over order (fold count_replica replicaList [])))"

definition listVolumeNames :: "mm_env \<Rightarrow> node \<Rightarrow> volume list result" where
  "listVolumeNames e n =
     (case replicaCache_List e of
        Inl err \<Rightarrow> Inl err
      | Inr replicaList \<Rightarrow>
          map_result (volumeCache_Get e) (possible_volume_names (mapRange e) replicaList (node_Name n)))"

definition listVMI :: "mm_env \<Rightarrow> node \<Rightarrow> vmi list result" where
  "listVMI e n =
     (case listVolumeNames e n of
        Inl err \<Rightarrow> Inl (errorf_v ''error in listVolumeNames: '' err)
      | Inr volList \<Rightarrow>
          map_result (\<lambda>(ns, name). vmiCache_Get e ns name)
            (concat (map (\<lambda>v. map (\<lambda>w. (volume_Namespace v, workload_Name w))
                (filter (\<lambda>w. workload_Type w = ''VirtualMachineInstance'') (volume_Workloads v))) volList)))"

definition findVM :: "vmi \<Rightarrow> string result" where
  "findVM v =
     (case List.find (\<lambda>owner. or_Kind owner = ''VirtualMachine'' \<and> or_APIVersion owner = ''kubevirt.io/v1'')
        (vmi_OwnerReferences v) of
        Some owner \<Rightarrow> Inr (or_Name owner)
      | None \<Rightarrow> Inl (ErrorString (''no valid VM owner found for VMI '' @ vmi_Name v)))"

definition owner_vm_name :: "vmi \<Rightarrow> string result" where
  "owner_vm_name v = (case findVM v of Inl err \<Rightarrow> Inl err | Inr name \<Rightarrow> Inr (vmi_Namespace v @ ''/'' @ name))"

definition splitNamespacedName :: "string \<Rightarrow> (string \<times> string) result" where
  "splitNamespacedName s =
     (case split_char (CHR ''/'') s of
        ns # name # _ \<Rightarrow> Inr (ns, name)
      | _ \<Rightarrow> Inl (Panic ''index out of range''))"

section \<open>Migratability\<close>

definition add_non_migratable :: "vmi \<Rightarrow> vmi_condition \<Rightarrow> vm_groups \<Rightarrow> vm_groups" where
  "add_non_migratable v c m =
     (if vc_Type c = VirtualMachineInstanceIsMigratable \<and> vc_Status c = ConditionFalse
      then AList.update (vc_Reason c)
             ((case map_of m (vc_Reason c) of None \<Rightarrow> [] | Some r \<Rightarrow> r) @ [namespacedVMName v]) m
      else m)"

definition IdentifyNonMigratableVMS :: "vmi list \<Rightarrow> vm_groups" where
  "IdentifyNonMigratableVMS vmiList =
     fold (\<lambda>v m. fold (add_non_migratable v) (vmi_Conditions v) m) vmiList []"

definition isNodeReady :: "node \<Rightarrow> bool" where
  "isNodeReady n =
     (if node_Unschedulable n \<or> IsMaintenanceModeEngaged n then False
      else list_ex (\<lambda>c. nc_Type c = NodeReady \<and> nc_Status c = ConditionTrue) (node_Conditions n))"

definition selector_from_set :: "smap \<Rightarrow> smap \<Rightarrow> bool" where
  "selector_from_set req nodeLabels =
     list_all (\<lambda>(k, v). sget nodeLabels k = Some v) (case req of None \<Rightarrow> [] | Some l \<Rightarrow> l)"

definition filterNodesForNodeSelector :: "node list \<Rightarrow> vmi \<Rightarrow> node list" where
  "filterNodesForNodeSelector possibleNodes v =
     (if slen (vmi_NodeSelector v) > 0
      then filter (\<lambda>n. selector_from_set (vmi_NodeSelector v) (node_Labels n)) possibleNodes
      else possibleNodes)"

definition possible_nodes :: "mm_env \<Rightarrow> node list \<Rightarrow> vmi \<Rightarrow> node list result" where
  "possible_nodes e validNodes v =
     (case vmi_RequiredNodeAffinity v of
        None \<Rightarrow> Inr validNodes
      | Some terms \<Rightarrow>
          (case newNodeSelector e terms of
             Inl err \<Rightarrow> Inl (errorf_v ''error generating nodeAffinitySelector from node scheduling requirements: '' err)
           | Inr selector \<Rightarrow> Inr (filter selector validNodes)))"

fun impacted_vms :: "mm_env \<Rightarrow> node list \<Rightarrow> vmi list \<Rightarrow> string list result" where
  "impacted_vms e validNodes [] = Inr []"
| "impacted_vms e validNodes (v # vs) =
     (case possible_nodes e validNodes v of
        Inl err \<Rightarrow> Inl err
      | Inr possibleNodes \<Rightarrow>
          let matchingNodes = filterNodesForNodeSelector possibleNodes v
          in (case impacted_vms e validNodes vs of
                Inl err \<Rightarrow> Inl err
              | Inr rest \<Rightarrow> Inr (if matchingNodes = [] then namespacedVMName v # rest else rest)))"

definition CheckVMISchedulingRequirements :: "mm_env \<Rightarrow> node \<Rightarrow> vmi list \<Rightarrow> string list result" where
  "CheckVMISchedulingRequirements e originalNode vmiList =
     (case nodeCache_List e of
        Inl err \<Rightarrow> Inl (errorf_v ''error listing nodes from nodeCache: '' err)
      | Inr nodeList \<Rightarrow>
          impacted_vms e (filter (\<lambda>v. node_Name v \<noteq> node_Name originalNode \<and> isNodeReady v) nodeList) vmiList)"

definition put_groups :: "vm_groups \<Rightarrow> vm_groups \<Rightarrow> vm_groups" where
  "put_groups kvs m = fold (\<lambda>(k, v) m. AList.update k v m) kvs m"

definition FindNonMigratableVMS :: "mm_env \<Rightarrow> node \<Rightarrow> vm_groups result" where
  "FindNonMigratableVMS e n =
     (case listVMI e n of
        Inl err \<Rightarrow> Inl (errorf_v ''error listing VMI: '' err)
      | Inr shutdownVMs \<Rightarrow>
     (case map_result owner_vm_name shutdownVMs of
        Inl err \<Rightarrow> Inl err
      | Inr impactedVMDetails \<Rightarrow>
     (let result = (if impactedVMDetails \<noteq> [] then [(LastHealthyReplicaKey, impactedVMDetails)] else [])
      in case vmiCache_List e of
        Inl err \<Rightarrow> Inl (errorf_v ''error listing VMI: '' err)
      | Inr allVmis \<Rightarrow>
     (let vmiList = filter (\<lambda>v. sget (vmi_Labels v) LabelNodeNameKey = Some (node_Name n)) allVmis;
          result2 = put_groups (range_over (mapRange e) (IdentifyNonMigratableVMS vmiList)) result
      in case CheckVMISchedulingRequirements e n vmiList of
        Inl err \<Rightarrow> Inl (errorf_v ''error while checking vmi scheduling requirements: '' err)
      | Inr unschedulableVMs \<Rightarrow>
          Inr (if unschedulableVMs \<noteq> []
               then AList.update NodeSchedulingRequirementsNotMetKey unschedulableVMs result2
               else result2)))))"

definition getUniqueVMSfromConditionMap :: "(string list \<Rightarrow> string list) \<Rightarrow> vm_groups \<Rightarrow> string list" where
  "getUniqueVMSfromConditionMap order vms = remdups_adj (sort (concat (map snd (range_over order vms))))"

definition listVMILabelMaintainModeStrategy :: "mm_env \<Rightarrow> node \<Rightarrow> vmi list result" where
  "listVMILabelMaintainModeStrategy e n =
     (case newRequirement e LabelMaintainModeStrategy MaintainModeStrategyShutdownValues of
        Inl err \<Rightarrow> Inl (errorf_w ''failed to create selector to list VMIs that are to be administratively stopped before migration: '' err)
      | Inr _ \<Rightarrow>
          ListByNode (newRequirement e) (vmiCache_List e) n
            (\<lambda>ls. case sget ls LabelMaintainModeStrategy of
                    None \<Rightarrow> False | Some v \<Rightarrow> v \<in> set MaintainModeStrategyShutdownValues))"

definition nonMigratableVMsMessage :: "vm_groups \<Rightarrow> string" where
  "nonMigratableVMsMessage m =
     ''enabling maintenance mode is impossible. Non-migratable VMs found: '' @
     join ''; '' (map (\<lambda>k. join '','' (case map_of m k of None \<Rightarrow> [] | Some v \<Rightarrow> v) @
        '' cannot be migrated due to '' @ k) (sort (map fst m))) @
     ''. Use 'force drain' to perform a collective shutdown''"

section \<open>Phase handlers\<close>

definition clearDrainRequest :: "mm_env \<Rightarrow> node \<Rightarrow> (mm_call, node result) act" where
  "clearDrainRequest e n =
     (let (nodeCopy, changed) = ClearDrainRequest n
      in if \<not> changed then ret (Inr n)
         else do {
           r \<leftarrow> nodes_update e nodeCopy;
           case r of
             Inl err \<Rightarrow> ret (Inl (errorf_w ''failed to clean up drain request: '' err))
           | Inr updated \<Rightarrow> ret (Inr updated) })"

definition failPreCheck :: "mm_env \<Rightarrow> node \<Rightarrow> string \<Rightarrow> (mm_call, node result) act" where
  "failPreCheck e n message =
     andthen (UpdateMaintenanceModeCondition e (node_Name n) ConditionFalse NodeConditionReasonError message)
       (clearDrainRequest e)"

definition failDrainTimeout :: "mm_env \<Rightarrow> node \<Rightarrow> int \<Rightarrow> string \<Rightarrow> (mm_call, node result) act" where
  "failDrainTimeout e n timeoutMinutes drainErr =
     (let message = ''Maintenance mode timed out while draining node '' @ node_Name n @ '' after '' @
            int_str timeoutMinutes @ '' minutes: '' @ drainErr @
            ''. The node remains cordoned and drain-related taints are unchanged. Disable maintenance mode before starting a new attempt.''
      in andthen
           (TransitionMaintenanceModeCondition e (node_Name n)
              ConditionTrue NodeConditionReasonDraining ConditionTrue NodeConditionReasonError message)
           (\<lambda>updated.
              if \<not> IsMaintenanceModeError (GetMaintenanceModeCondition updated) then ret (Inr updated)
              else clearDrainRequest e updated))"

definition validate :: "mm_env \<Rightarrow> node \<Rightarrow> (mm_call, node result) act" where
  "validate e n =
     (let forced = IsForcedDrainRequested n
      in case DrainPossible (nodeCache_List e) n of
        Inl err \<Rightarrow>
          if errors_is err ErrNodeDrainNotPossible
          then failPreCheck e n (''enabling maintenance mode is impossible: '' @ err_text err)
          else ret (Inl err)
      | Inr _ \<Rightarrow>
          (case FindNonMigratableVMS e n of
             Inl err \<Rightarrow> ret (Inl (errorf_w ''error getting non-migratable VMs: '' err))
           | Inr nonMigratableVMs \<Rightarrow>
               if \<not> forced \<and> nonMigratableVMs \<noteq> []
               then failPreCheck e n (nonMigratableVMsMessage nonMigratableVMs)
               else UpdateMaintenanceModeCondition e (node_Name n) ConditionTrue
                      NodeConditionReasonDraining MaintenanceModeMessageDraining))"

definition findAndStopVM :: "mm_env \<Rightarrow> string \<Rightarrow> (mm_call, unit result) act" where
  "findAndStopVM e vmiName =
     (case splitNamespacedName vmiName of
        Inl err \<Rightarrow> ret (Inl err)
      | Inr (ns, name) \<Rightarrow>
          (case vmCache_Get e ns name of
             Inl err \<Rightarrow> ret (Inl (errorf_v ''error fetching vm during findAndStopVM: '' err))
           | Inr vmObj \<Rightarrow>
               (case RunStrategy vmObj of
                  Inl err \<Rightarrow> ret (Inl err)
                | Inr runStrategy \<Rightarrow>
                    if runStrategy = RunStrategyHalted then ret (Inr ())
                    else do {
                      r \<leftarrow> vms_update e (vmObj\<lparr>vm_RunStrategy := Some RunStrategyHalted\<rparr>);
                      case r of
                        Inl err \<Rightarrow> ret (Inl (errorf_v (''error updating run strategy for vm '' @ vm_Name vmObj @
                              '' in namespace '' @ vm_Namespace vmObj @ '': '') err))
                      | Inr _ \<Rightarrow> ret (Inr ()) })))"

text \<open>One pass of the annotation loop of \<^verbatim>\<open>drain\<close>: it returns the name to shut down.\<close>

definition annotate_vm :: "mm_env \<Rightarrow> node \<Rightarrow> vmi \<Rightarrow> (mm_call, string result) act" where
  "annotate_vm e n v =
     (case findVM v of
        Inl err \<Rightarrow> ret (Inl err)
      | Inr vmName \<Rightarrow>
          let entry = vmi_Namespace v @ ''/'' @ vmName
          in if sval (vmi_Labels v) LabelMaintainModeStrategy \<notin>
                  set [MaintainModeStrategyShutdownAndRestartAfterEnable,
                       MaintainModeStrategyShutdownAndRestartAfterDisable]
             then ret (Inr entry)
             else case vmCache_Get e (vmi_Namespace v) vmName of
               Inl err \<Rightarrow>
                 if is_not_found err then ret (Inr entry)
                 else ret (Inl (errorf_w (''error looking up VM '' @ entry @ '': '') err))
             | Inr vmObj \<Rightarrow>
                 if vm_Annotations vmObj = None \<or>
                    sval (vm_Annotations vmObj) AnnotationMaintainModeStrategyNodeName \<noteq> node_Name n
                 then andthen
                        (vms_update e (vmObj\<lparr>vm_Annotations :=
                           sset (vm_Annotations vmObj) AnnotationMaintainModeStrategyNodeName (node_Name n)\<rparr>))
                        (\<lambda>_. ret (Inr entry))
                 else ret (Inr entry))"

fun annotate_vms :: "mm_env \<Rightarrow> node \<Rightarrow> vmi list \<Rightarrow> (mm_call, string list result) act" where
  "annotate_vms e n [] = ret (Inr [])"
| "annotate_vms e n (v # vs) =
     andthen (annotate_vm e n v) (\<lambda>entry.
       andthen (annotate_vms e n vs) (\<lambda>rest. ret (Inr (entry # rest))))"

definition stop_vms :: "mm_env \<Rightarrow> string list \<Rightarrow> (mm_call, unit result) act" where
  "stop_vms e = for_each (\<lambda>v. do {
     r \<leftarrow> findAndStopVM e v;
     case r of
       Inl err \<Rightarrow> if is_not_found err then ret (Inr ()) else ret (Inl err)
     | Inr _ \<Rightarrow> ret (Inr ()) })"

definition drain_node :: "mm_env \<Rightarrow> node \<Rightarrow> int \<Rightarrow> (mm_call, unit result) act" where
  "drain_node e n timeout = request (DrainNode n timeout) (\<lambda>h. drainNode e h n timeout)"

definition nanos_per_minute :: int where
  "nanos_per_minute = 60000000000"

text \<open>The steps of \<^verbatim>\<open>drain\<close> after the VMs have been stopped.\<close>

definition run_drain :: "mm_env \<Rightarrow> node \<Rightarrow> int \<Rightarrow> time \<Rightarrow> (mm_call, node result) act" where
  "run_drain e n timeoutMinutes deadline = do {
     drainTimeout \<leftarrow> (if timeoutMinutes > 0
        then State_Monad.bind (now e) (\<lambda>t. ret (sat64 (deadline - t))) else ret 0);
     r \<leftarrow> drain_node e n drainTimeout;
     case r of
       Inl err \<Rightarrow> do {
         exceeded \<leftarrow> observe (drainDeadlineExceeded e);
         if timeoutMinutes > 0 \<and> exceeded then failDrainTimeout e n timeoutMinutes (err_text err)
         else ret (Inl err) }
     | Inr _ \<Rightarrow>
         andthen
           (TransitionMaintenanceModeCondition e (node_Name n)
              ConditionTrue NodeConditionReasonDraining
              ConditionTrue NodeConditionReasonEvacuating MaintenanceModeMessageEvacuating)
           (\<lambda>updated.
              if \<not> IsMaintenanceModeDrainComplete (GetMaintenanceModeCondition updated) then ret (Inr updated)
              else clearDrainRequest e updated) }"

definition shutdown_and_drain :: "mm_env \<Rightarrow> node \<Rightarrow> int \<Rightarrow> time \<Rightarrow> (mm_call, node result) act" where
  "shutdown_and_drain e n timeoutMinutes deadline =
     (let forced = IsForcedDrainRequested n
      in case (if forced then FindNonMigratableVMS e n else Inr []) of
        Inl err \<Rightarrow> ret (Inl (errorf_w ''error getting non-migratable VMs: '' err))
      | Inr nonMigratableVMs \<Rightarrow>
     (case listVMILabelMaintainModeStrategy e n of
        Inl err \<Rightarrow> ret (Inl (errorf_w ''error in the listing of VMIs that are to be administratively stopped before migration: '' err))
      | Inr maintainModeStrategyVMIs \<Rightarrow>
          andthen (annotate_vms e n maintainModeStrategyVMIs) (\<lambda>names.
            let shutdownVMs = (if names = [] then [] else [(MaintainModeStrategyKey, names)]);
                shutdownVMs' = (if forced then put_groups (range_over (mapRange e) nonMigratableVMs) shutdownVMs
                                else shutdownVMs)
            in andthen (stop_vms e (getUniqueVMSfromConditionMap (mapRange e) shutdownVMs'))
                 (\<lambda>_. run_drain e n timeoutMinutes deadline))))"

definition drain :: "mm_env \<Rightarrow> node \<Rightarrow> node_condition \<Rightarrow> (mm_call, node result) act" where
  "drain e n c =
     (let timeoutMinutes = drainTimeoutMinutes e;
          deadline = nc_LastTransitionTime c + wrap64 (timeoutMinutes * nanos_per_minute)
      in if timeoutMinutes > 0
         then do {
           t \<leftarrow> now e;
           if \<not> t < deadline
           then failDrainTimeout e n timeoutMinutes ''context deadline exceeded''
           else shutdown_and_drain e n timeoutMinutes deadline }
         else shutdown_and_drain e n timeoutMinutes deadline)"

definition OnNodeChange_drain :: "mm_env \<Rightarrow> node option \<Rightarrow> (mm_call, node option result) act" where
  "OnNodeChange_drain e arg =
     (case arg of
        None \<Rightarrow> ret (Inr None)
      | Some n \<Rightarrow>
          if node_DeletionTimestamp n \<noteq> None then ret (Inr (Some n))
          else andthen
            (let requested = HasDrainRequest n
             in case GetMaintenanceModeCondition n of
               None \<Rightarrow>
                 if \<not> requested then ret (Inr n)
                 else UpdateMaintenanceModeCondition e (node_Name n) ConditionTrue
                        NodeConditionReasonValidating MaintenanceModeMessageValidating
             | Some c \<Rightarrow>
                 if nc_Reason c = NodeConditionReasonValidating
                 then (if \<not> requested then ret (Inr n) else validate e n)
                 else if nc_Reason c = NodeConditionReasonDraining then drain e n c
                 else if nc_Reason c = NodeConditionReasonEvacuating \<or> nc_Reason c = NodeConditionReasonCompleted
                 then (if requested \<or> IsForcedDrainRequested n then clearDrainRequest e n else ret (Inr n))
                 else if nc_Reason c = NodeConditionReasonError
                 then (if requested \<or> IsForcedDrainRequested n then clearDrainRequest e n else ret (Inr n))
                 else ret (Inr n))
            (\<lambda>n'. ret (Inr (Some n'))))"

section \<open>Lemmas\<close>

subsection \<open>Shutdown list\<close>

lemma getUnique_set:
  assumes "mset (order (map fst vms)) = mset (map fst vms)" and "distinct (map fst vms)"
  shows "set (getUniqueVMSfromConditionMap order vms) = (\<Union>g \<in> set vms. set (snd g))"
  using arg_cong [OF range_over_perm [of order vms, OF assms], of set_mset]
  by (simp add: getUniqueVMSfromConditionMap_def)

lemma getUnique_sorted: "sorted (getUniqueVMSfromConditionMap order vms)"
  by (simp add: getUniqueVMSfromConditionMap_def sorted_remdups_adj)

lemma sorted_remdups_adj_distinct: "sorted xs \<Longrightarrow> distinct (remdups_adj (xs :: 'a :: linorder list))"
  by (induction xs rule: remdups_adj.induct) (auto simp: not_le dest: order_antisym)

text \<open>The unspecified iteration order of the map does not reach the shutdown list.\<close>

lemma getUnique_order_independent:
  assumes "mset (order (map fst vms)) = mset (map fst vms)"
    and "mset (order' (map fst vms)) = mset (map fst vms)" and "distinct (map fst vms)"
  shows "getUniqueVMSfromConditionMap order vms = getUniqueVMSfromConditionMap order' vms"
proof -
  have flat: "mset (concat (map snd xs)) = (\<Sum>g \<in># mset xs. mset (snd g))" for xs :: vm_groups
    by (induction xs) auto
  have "mset (concat (map snd (range_over order vms))) = mset (concat (map snd (range_over order' vms)))"
    unfolding flat range_over_perm [of order vms, OF assms(1,3)] range_over_perm [of order' vms, OF assms(2,3)]
    by (rule refl)
  then show ?thesis
    unfolding getUniqueVMSfromConditionMap_def
    by (intro arg_cong [where f = remdups_adj] properties_for_sort) simp_all
qed

subsection \<open>Last healthy replicas\<close>

definition started_replicas :: "replica list \<Rightarrow> string \<Rightarrow> replica list" where
  "started_replicas rs v = filter (\<lambda>r. replica_VolumeName r = v \<and> replica_Started r) rs"

lemma count_replicas_map:
  "map_of (fold count_replica rs m) v =
     (let old = (case map_of m v of None \<Rightarrow> \<lparr>vd_healthy = 0, vd_unhealthy = 0, vd_replicas = []\<rparr> | Some d \<Rightarrow> d);
          mine = filter (\<lambda>r. replica_VolumeName r = v) rs
      in if mine = [] then map_of m v
         else Some \<lparr>vd_healthy = vd_healthy old + length (filter replica_Started mine),
                    vd_unhealthy = vd_unhealthy old + length (filter (\<lambda>r. \<not> replica_Started r) mine),
                    vd_replicas = vd_replicas old @ mine\<rparr>)"
proof (induction rs arbitrary: m)
  case Nil
  then show ?case by simp
next
  case (Cons r rs)
  show ?case
    by (simp only: fold_simps o_apply Cons.IH, simp add: count_replica_def Let_def update_conv' split: option.splits)
qed

lemma count_replicas_distinct: "distinct (map fst m) \<Longrightarrow> distinct (map fst (fold count_replica rs m))"
  by (induction rs arbitrary: m) (simp_all add: count_replica_def Let_def distinct_update)

text \<open>
  A volume is a candidate exactly when at most one of its replicas runs and that replica is on
  the node.
\<close>

lemma possible_volume_names_iff:
  assumes "\<And>ks. mset (order ks) = mset ks"
  shows "v \<in> set (possible_volume_names order rs nodeName) \<longleftrightarrow>
    (\<exists>r. started_replicas rs v = [r] \<and> replica_NodeID r = nodeName)"
proof -
  let ?m = "fold count_replica rs []"
  have dist: "distinct (map fst ?m)" by (rule count_replicas_distinct) simp
  have "set (range_over order ?m) = set ?m"
    using range_over_perm [of order ?m, OF assms dist] by (metis set_mset_mset)
  then have "v \<in> set (possible_volume_names order rs nodeName) \<longleftrightarrow>
      (\<exists>d. (v, d) \<in> set ?m \<and> vd_healthy d \<le> 1 \<and>
         (\<exists>r \<in> set (vd_replicas d). replica_Started r \<and> replica_NodeID r = nodeName))"
    unfolding possible_volume_names_def by (auto split: if_splits)
  also have "\<dots> \<longleftrightarrow> (\<exists>d. map_of ?m v = Some d \<and> vd_healthy d \<le> 1 \<and>
         (\<exists>r \<in> set (vd_replicas d). replica_Started r \<and> replica_NodeID r = nodeName))"
    using dist by (simp add: map_of_eq_Some_iff)
  also have "\<dots> \<longleftrightarrow> length (started_replicas rs v) \<le> 1 \<and>
      (\<exists>r \<in> set (started_replicas rs v). replica_NodeID r = nodeName)"
  proof (cases "filter (\<lambda>r. replica_VolumeName r = v) rs = []")
    case True
    then have "started_replicas rs v = []" by (auto simp: started_replicas_def filter_empty_conv)
    with True show ?thesis by (simp add: count_replicas_map)
  next
    case False
    then show ?thesis by (auto simp: count_replicas_map started_replicas_def)
  qed
  also have "\<dots> \<longleftrightarrow> (\<exists>r. started_replicas rs v = [r] \<and> replica_NodeID r = nodeName)"
    by (cases "started_replicas rs v") auto
  finally show ?thesis .
qed

subsection \<open>Missing VMs\<close>

lemma splitNamespacedName_join:
  "CHR ''/'' \<notin> set ns \<Longrightarrow> CHR ''/'' \<notin> set name \<Longrightarrow> splitNamespacedName (ns @ ''/'' @ name) = Inr (ns, name)"
  by (simp add: splitNamespacedName_def split_char_append split_char_absent)

lemma findAndStopVM_not_found:
  "fst (run_state (findAndStopVM e v) h) = Inl err \<Longrightarrow> vmCache_Get e ns name = Inl err' \<Longrightarrow>
   splitNamespacedName v = Inr (ns, name) \<Longrightarrow> \<not> is_not_found err"
  by (auto simp: findAndStopVM_def)

subsection \<open>Which requests a reconcile sends\<close>

definition mm_reason :: "node \<Rightarrow> string option" where
  "mm_reason n = map_option snd (mm_phase n)"

text \<open>
  The VM writes of a drain: the node-name annotation on a cached VM, or the halt of a cached VM
  that was not halted.
\<close>

definition drain_vm_write :: "mm_env \<Rightarrow> node \<Rightarrow> vm \<Rightarrow> bool" where
  "drain_vm_write e n v \<longleftrightarrow>
     (\<exists>ns name v0. vmCache_Get e ns name = Inr v0 \<and>
        (v = v0\<lparr>vm_Annotations := sset (vm_Annotations v0) AnnotationMaintainModeStrategyNodeName (node_Name n)\<rparr> \<or>
         v = v0\<lparr>vm_RunStrategy := Some RunStrategyHalted\<rparr> \<and> (\<exists>s. RunStrategy v0 = Inr s \<and> s \<noteq> RunStrategyHalted)))"

lemma drain_vm_write_annotate:
  "vmCache_Get e ns name = Inr v0 \<Longrightarrow> drain_vm_write e n
     (v0\<lparr>vm_Annotations := sset (vm_Annotations v0) AnnotationMaintainModeStrategyNodeName (node_Name n)\<rparr>)"
  by (auto simp: drain_vm_write_def)

lemma drain_vm_write_halt:
  "vmCache_Get e ns name = Inr v0 \<Longrightarrow> RunStrategy v0 = Inr s \<Longrightarrow> s \<noteq> RunStrategyHalted \<Longrightarrow>
   drain_vm_write e n (v0\<lparr>vm_RunStrategy := Some RunStrategyHalted\<rparr>)"
  by (auto simp: drain_vm_write_def)

definition drain_status_write :: "mm_env \<Rightarrow> node \<Rightarrow> mm_call list \<Rightarrow> mm_call \<Rightarrow> bool" where
  "drain_status_write e n h c \<longleftrightarrow>
     mm_reason n = None \<and> HasDrainRequest n \<and>
       unguarded_write e (node_Name n) ConditionTrue NodeConditionReasonValidating MaintenanceModeMessageValidating h c \<or>
     mm_reason n = Some NodeConditionReasonValidating \<and> HasDrainRequest n \<and>
       DrainPossible (nodeCache_List e) n = Inr () \<and>
       unguarded_write e (node_Name n) ConditionTrue NodeConditionReasonDraining MaintenanceModeMessageDraining h c \<or>
     mm_reason n = Some NodeConditionReasonValidating \<and> HasDrainRequest n \<and>
       (\<exists>m. unguarded_write e (node_Name n) ConditionFalse NodeConditionReasonError m h c) \<or>
     mm_reason n = Some NodeConditionReasonDraining \<and>
       (\<exists>r m. (r = NodeConditionReasonEvacuating \<or> r = NodeConditionReasonError) \<and>
          guarded_write e (node_Name n) ConditionTrue NodeConditionReasonDraining ConditionTrue r m h c)"

definition drain_policy :: "mm_env \<Rightarrow> node \<Rightarrow> mm_call list \<Rightarrow> mm_call \<Rightarrow> bool" where
  "drain_policy e n h c =
     (case c of
        NodesGet x \<Rightarrow> x = node_Name n
      | ClockNow \<Rightarrow> True
      | NodesUpdateStatus _ \<Rightarrow> drain_status_write e n h c
      | NodesUpdate n' \<Rightarrow>
          mm_reason n \<noteq> None \<and> (\<exists>n0. snd (ClearDrainRequest n0) \<and> n' = fst (ClearDrainRequest n0))
      | VMsUpdate v \<Rightarrow> mm_reason n = Some NodeConditionReasonDraining \<and> drain_vm_write e n v
      | DrainNode n' t \<Rightarrow> mm_reason n = Some NodeConditionReasonDraining \<and> n' = n
      | _ \<Rightarrow> False)"

lemma emits_unguarded:
  assumes "\<And>h n'. unguarded_write e x s r m h (NodesUpdateStatus n') \<Longrightarrow> P h (NodesUpdateStatus n')"
    and "\<And>h. P h (NodesGet x)" and "\<And>h. P h ClockNow"
  shows "emits P (UpdateMaintenanceModeCondition e x s r m) h"
  by (rule emits_mono [OF emits_Update])
    (use assms in \<open>auto simp: unguarded_write_def split: mm_call.splits\<close>)

lemma emits_guarded:
  assumes "\<And>h n'. guarded_write e x fs fr s r m h (NodesUpdateStatus n') \<Longrightarrow> P h (NodesUpdateStatus n')"
    and "\<And>h. P h (NodesGet x)" and "\<And>h. P h ClockNow"
  shows "emits P (TransitionMaintenanceModeCondition e x fs fr s r m) h"
  by (rule emits_mono [OF emits_Transition])
    (use assms in \<open>auto simp: guarded_write_def split: mm_call.splits\<close>)

lemma emits_clearDrainRequest:
  "(\<And>h n0. snd (ClearDrainRequest n0) \<Longrightarrow> P h (NodesUpdate (fst (ClearDrainRequest n0)))) \<Longrightarrow>
   emits P (clearDrainRequest e n) h"
  by (auto simp: clearDrainRequest_def mm_request_defs split_beta intro!: emit_intros)

lemma emits_failPreCheck:
  assumes "\<And>h n'. unguarded_write e (node_Name n) ConditionFalse NodeConditionReasonError m h (NodesUpdateStatus n')
      \<Longrightarrow> P h (NodesUpdateStatus n')"
    and "\<And>h. P h (NodesGet (node_Name n))" and "\<And>h. P h ClockNow"
    and "\<And>h n0. snd (ClearDrainRequest n0) \<Longrightarrow> P h (NodesUpdate (fst (ClearDrainRequest n0)))"
  shows "emits P (failPreCheck e n m) h"
  unfolding failPreCheck_def using assms by (intro emits_andthen emits_unguarded emits_clearDrainRequest)

lemma emits_failDrainTimeout:
  assumes "\<And>h m n'. guarded_write e (node_Name n) ConditionTrue NodeConditionReasonDraining ConditionTrue
      NodeConditionReasonError m h (NodesUpdateStatus n') \<Longrightarrow> P h (NodesUpdateStatus n')"
    and "\<And>h. P h (NodesGet (node_Name n))" and "\<And>h. P h ClockNow"
    and "\<And>h n0. snd (ClearDrainRequest n0) \<Longrightarrow> P h (NodesUpdate (fst (ClearDrainRequest n0)))"
  shows "emits P (failDrainTimeout e n t err) h"
  unfolding failDrainTimeout_def Let_def
  using assms by (intro emits_andthen emits_guarded emits_clearDrainRequest emits_if emits_return)

lemma emits_annotate_vm:
  "(\<And>h v'. drain_vm_write e n v' \<Longrightarrow> P h (VMsUpdate v')) \<Longrightarrow> emits P (annotate_vm e n v) h"
  unfolding annotate_vm_def mm_request_defs Let_def
  by (intro emit_intros) (drule meta_spec, drule meta_spec, erule meta_mp, erule drain_vm_write_annotate)

lemma emits_annotate_vms:
  "(\<And>h v'. drain_vm_write e n v' \<Longrightarrow> P h (VMsUpdate v')) \<Longrightarrow> emits P (annotate_vms e n vs) h"
  by (induction vs arbitrary: h) (auto intro!: emit_intros emits_annotate_vm)

lemma emits_stop_vms:
  "(\<And>h v'. drain_vm_write e n v' \<Longrightarrow> P h (VMsUpdate v')) \<Longrightarrow> emits P (stop_vms e vs) h"
  unfolding stop_vms_def findAndStopVM_def mm_request_defs
  by (intro emit_intros) (drule meta_spec, drule meta_spec, erule meta_mp, erule (2) drain_vm_write_halt)

lemma emits_OnNodeChange_drain:
  "emits (drain_policy e n) (OnNodeChange_drain e (Some n)) h"
proof -
  let ?c = "GetMaintenanceModeCondition n"
  have phase: "mm_reason n = map_option nc_Reason ?c"
    by (simp add: mm_reason_def mm_phase_def option.map_comp o_def)
  have base: "drain_policy e n h (NodesGet (node_Name n))" "drain_policy e n h ClockNow" for h
    by (simp_all add: drain_policy_def)
  have clear: "mm_reason n \<noteq> None \<Longrightarrow> emits (drain_policy e n) (clearDrainRequest e n') h" for n' h
    by (rule emits_clearDrainRequest) (auto simp: drain_policy_def)
  have status: "drain_status_write e n h (NodesUpdateStatus n') \<Longrightarrow> drain_policy e n h (NodesUpdateStatus n')" for h n'
    by (simp add: drain_policy_def)
  have pre: "emits (drain_policy e n) (failPreCheck e n m) h"
    if "mm_reason n = Some NodeConditionReasonValidating" "HasDrainRequest n" for m h
    by (rule emits_failPreCheck) (use that in \<open>auto simp: drain_policy_def drain_status_write_def\<close>)
  have val: "emits (drain_policy e n) (validate e n) h"
    if "mm_reason n = Some NodeConditionReasonValidating" "HasDrainRequest n" for h
    unfolding validate_def Let_def
    by (intro emits_case_sum emits_if emits_return pre that emits_unguarded base)
      (use that in \<open>auto simp: drain_policy_def drain_status_write_def\<close>)
  have timeout: "emits (drain_policy e n) (failDrainTimeout e n t err) h"
    if "mm_reason n = Some NodeConditionReasonDraining" for t err h
    by (rule emits_failDrainTimeout) (use that in \<open>auto simp: drain_policy_def drain_status_write_def\<close>)
  have run: "emits (drain_policy e n) (run_drain e n t d) h"
    if "mm_reason n = Some NodeConditionReasonDraining" for t d h
    unfolding run_drain_def drain_node_def now_def
    by (intro emit_intros emits_guarded clear timeout that base)
      (use that in \<open>auto simp: drain_policy_def drain_status_write_def\<close>)
  have shut: "emits (drain_policy e n) (shutdown_and_drain e n t d) h"
    if "mm_reason n = Some NodeConditionReasonDraining" for t d h
    unfolding shutdown_and_drain_def Let_def
    by (intro emits_case_sum emits_return emits_andthen emits_annotate_vms emits_stop_vms run that)
      (use that in \<open>auto simp: drain_policy_def\<close>)
  have dr: "emits (drain_policy e n) (drain e n c) h"
    if "mm_reason n = Some NodeConditionReasonDraining" for c h
    unfolding drain_def Let_def now_def
    by (intro emits_if emits_bindI emits_request timeout shut that base)
  have first: "emits (drain_policy e n) (UpdateMaintenanceModeCondition e (node_Name n) ConditionTrue
        NodeConditionReasonValidating MaintenanceModeMessageValidating) h"
    if "mm_reason n = None" "HasDrainRequest n" for h
    by (rule emits_unguarded) (use that base in \<open>auto simp: drain_policy_def drain_status_write_def\<close>)
  show ?thesis
    unfolding OnNodeChange_drain_def Let_def option.case
    by (intro emits_if emits_return emits_andthen emits_case_option val dr clear first)
      (auto simp: phase)
qed

subsection \<open>VMs are stopped before the drain\<close>

definition vm_stopped :: "mm_env \<Rightarrow> mm_call list \<Rightarrow> string \<Rightarrow> bool" where
  "vm_stopped e h entry \<longleftrightarrow>
     (\<exists>ns name v0. splitNamespacedName entry = Inr (ns, name) \<and> vmCache_Get e ns name = Inr v0 \<and>
        (RunStrategy v0 = Inr RunStrategyHalted \<or>
         (\<exists>h1 h2 v. h = h1 @ VMsUpdate (v0\<lparr>vm_RunStrategy := Some RunStrategyHalted\<rparr>) # h2 \<and>
            vms_Update e h1 (v0\<lparr>vm_RunStrategy := Some RunStrategyHalted\<rparr>) = Inr v)))"

lemma vm_stopped_mono: "vm_stopped e h x \<Longrightarrow> prefix h h' \<Longrightarrow> vm_stopped e h' x"
  unfolding vm_stopped_def prefix_def by (metis append.assoc append_Cons)

lemma vm_stoppedI:
  assumes "splitNamespacedName x = Inr (ns, name)" and "vmCache_Get e ns name = Inr v0"
  shows "RunStrategy v0 = Inr RunStrategyHalted \<Longrightarrow> vm_stopped e h x"
    "vms_Update e h (v0\<lparr>vm_RunStrategy := Some RunStrategyHalted\<rparr>) = Inr v \<Longrightarrow>
     vm_stopped e (h @ [VMsUpdate (v0\<lparr>vm_RunStrategy := Some RunStrategyHalted\<rparr>)]) x"
  unfolding vm_stopped_def using assms by blast+

lemma RunStrategy_error: "RunStrategy v = Inl err \<Longrightarrow> \<not> is_not_found err"
  by (auto simp: RunStrategy_def split: if_splits option.splits)

lemma split_error: "splitNamespacedName x = Inl err \<Longrightarrow> \<not> is_not_found err"
  by (auto simp: splitNamespacedName_def split: list.splits)

lemma findAndStopVM_run:
  assumes "run_state (findAndStopVM e v) h = (r, h')"
  shows "prefix h h'" and "r = Inr () \<Longrightarrow> vm_stopped e h' v" and "r = Inl err \<Longrightarrow> \<not> is_not_found err"
  using assms
  by (auto simp: findAndStopVM_def mm_request_defs split: sum.splits if_splits intro: vm_stoppedI
      dest: RunStrategy_error split_error)

lemma stop_vms_run:
  "run_state (stop_vms e vs) h = (Inr (), h') \<Longrightarrow> prefix h h' \<and> (\<forall>v \<in> set vs. vm_stopped e h' v)"
proof (induction vs arbitrary: h)
  case Nil
  then show ?case by (simp add: stop_vms_def)
next
  case (Cons v vs)
  obtain r h1 where r: "run_state (findAndStopVM e v) h = (r, h1)" by fastforce
  note st = findAndStopVM_run [OF r]
  have ok: "r = Inr ()"
    using Cons.prems r st(3) by (cases r) (auto simp: stop_vms_def split: if_splits)
  then have "run_state (stop_vms e vs) h1 = (Inr (), h')"
    using Cons.prems r by (simp add: stop_vms_def)
  with Cons.IH have "prefix h1 h'" "\<forall>v \<in> set vs. vm_stopped e h' v" by blast+
  with st(1) st(2) [OF ok] show ?case by (auto intro: vm_stopped_mono prefix_order.trans)
qed

lemma annotate_vm_result:
  "run_state (annotate_vm e n v) h = (Inr name, h') \<Longrightarrow> owner_vm_name v = Inr name"
  by (auto simp: annotate_vm_def owner_vm_name_def mm_request_defs Let_def
      split: sum.splits if_splits prod.splits)

lemma annotate_vms_result:
  "run_state (annotate_vms e n vs) h = (Inr names, h') \<Longrightarrow> map_result owner_vm_name vs = Inr names"
  by (induction vs arbitrary: h names)
    (auto split: prod.splits sum.splits dest!: annotate_vm_result)

text \<open>The entries a drain has to stop, and their presence in the computed shutdown list.\<close>

definition must_stop :: "mm_env \<Rightarrow> node \<Rightarrow> string set" where
  "must_stop e n =
     {x. \<exists>vmis v. listVMILabelMaintainModeStrategy e n = Inr vmis \<and> v \<in> set vmis \<and> owner_vm_name v = Inr x} \<union>
     (if IsForcedDrainRequested n
      then {x. \<exists>groups k vs. FindNonMigratableVMS e n = Inr groups \<and> (k, vs) \<in> set groups \<and> x \<in> set vs}
      else {})"

lemma put_groups_distinct: "distinct (map fst m) \<Longrightarrow> distinct (map fst (put_groups kvs m))"
  unfolding put_groups_def by (induction kvs arbitrary: m) (auto simp: distinct_update)

lemma IdentifyNonMigratableVMS_distinct: "distinct (map fst (IdentifyNonMigratableVMS vs))"
proof -
  have 1: "distinct (map fst m) \<Longrightarrow> distinct (map fst (fold (add_non_migratable v) cs m))" for v cs m
    by (induction cs arbitrary: m) (auto simp: add_non_migratable_def distinct_update)
  have "distinct (map fst m) \<Longrightarrow> distinct (map fst (fold (\<lambda>v m. fold (add_non_migratable v) (vmi_Conditions v) m) vs m))" for m
    by (induction vs arbitrary: m) (auto intro: 1)
  then show ?thesis unfolding IdentifyNonMigratableVMS_def by simp
qed

lemma FindNonMigratableVMS_distinct:
  "FindNonMigratableVMS e n = Inr groups \<Longrightarrow> distinct (map fst groups)"
  by (auto simp: FindNonMigratableVMS_def Let_def distinct_update put_groups_distinct split: sum.splits if_splits)

lemma put_groups_map_of:
  "distinct (map fst kvs) \<Longrightarrow>
   map_of (put_groups kvs m) k = (case map_of kvs k of None \<Rightarrow> map_of m k | Some v \<Rightarrow> Some v)"
  unfolding put_groups_def
proof (induction kvs arbitrary: m)
  case (Cons p kvs)
  then have "map_of kvs (fst p) = None" by (simp add: map_of_eq_None_iff)
  with Cons show ?case by (auto simp: split_beta update_conv' split: option.splits)
qed simp

definition order_ok :: "mm_env \<Rightarrow> bool" where
  "order_ok e \<longleftrightarrow> (\<forall>ks. mset (mapRange e ks) = mset ks)"

lemma range_over_map_of:
  assumes "order_ok e" and "distinct (map fst m)"
  shows "map_of (range_over (mapRange e) m) k = map_of m k" and "distinct (map fst (range_over (mapRange e) m))"
proof -
  have perm: "mset (range_over (mapRange e) m) = mset m"
    by (rule range_over_perm) (use assms in \<open>auto simp: order_ok_def\<close>)
  then have "mset (map fst (range_over (mapRange e) m)) = mset (map fst m)" by simp
  then show d: "distinct (map fst (range_over (mapRange e) m))"
    using assms(2) by (metis mset_eq_imp_distinct_iff)
  have "set (range_over (mapRange e) m) = set m" using perm by (metis set_mset_mset)
  then show "map_of (range_over (mapRange e) m) k = map_of m k"
    using map_of_inject_set [OF d assms(2)] by simp
qed

lemma shutdown_list_complete:
  assumes "order_ok e"
    and "\<And>groups. FindNonMigratableVMS e n = Inr groups \<Longrightarrow> MaintainModeStrategyKey \<notin> fst ` set groups"
    and forced: "(if IsForcedDrainRequested n then FindNonMigratableVMS e n else Inr []) = Inr nonMigratableVMs"
    and vmis: "listVMILabelMaintainModeStrategy e n = Inr vmis" "map_result owner_vm_name vmis = Inr names"
    and base: "shutdownVMs = (if names = [] then [] else [(MaintainModeStrategyKey, names)])"
    and all: "shutdownVMs' = (if IsForcedDrainRequested n then put_groups (range_over (mapRange e) nonMigratableVMs) shutdownVMs
                else shutdownVMs)"
  shows "must_stop e n \<subseteq> set (getUniqueVMSfromConditionMap (mapRange e) shutdownVMs')"
proof
  fix x assume x: "x \<in> must_stop e n"
  have dist: "distinct (map fst shutdownVMs')"
    unfolding all base by (auto intro!: put_groups_distinct)
  have uniq: "set (getUniqueVMSfromConditionMap (mapRange e) shutdownVMs') = (\<Union>g \<in> set shutdownVMs'. set (snd g))"
    by (rule getUnique_set) (use assms(1) dist in \<open>auto simp: order_ok_def\<close>)
  have groups: "distinct (map fst nonMigratableVMs)" if "IsForcedDrainRequested n"
    using forced that by (auto dest: FindNonMigratableVMS_distinct)
  have lookup: "map_of shutdownVMs' k = (case map_of nonMigratableVMs k of None \<Rightarrow> map_of shutdownVMs k | Some v \<Rightarrow> Some v)"
    if "IsForcedDrainRequested n" for k
    using that range_over_map_of [OF assms(1) groups [OF that]] unfolding all
    by (simp add: put_groups_map_of)
  have "\<exists>k vs. map_of shutdownVMs' k = Some vs \<and> x \<in> set vs"
  proof (cases "\<exists>v. v \<in> set vmis \<and> owner_vm_name v = Inr x")
    case True
    then have "x \<in> set names" using vmis(2) by (auto simp: map_result_Inr list_all2_conv_all_nth in_set_conv_nth)
    then have "map_of shutdownVMs MaintainModeStrategyKey = Some names" using base by auto
    moreover have "map_of nonMigratableVMs MaintainModeStrategyKey = None" if "IsForcedDrainRequested n"
      using assms(2) forced that by (auto simp: map_of_eq_None_iff)
    ultimately have "map_of shutdownVMs' MaintainModeStrategyKey = Some names"
      using lookup all by (cases "IsForcedDrainRequested n") auto
    with \<open>x \<in> set names\<close> show ?thesis by blast
  next
    case False
    with x vmis(1) have f: "IsForcedDrainRequested n"
      and "\<exists>k vs. (k, vs) \<in> set nonMigratableVMs \<and> x \<in> set vs"
      using forced by (auto simp: must_stop_def split: if_splits)
    then obtain k vs where "map_of nonMigratableVMs k = Some vs" "x \<in> set vs"
      using groups [OF f] by (auto simp: map_of_eq_Some_iff)
    with lookup [OF f] show ?thesis by (intro exI [of _ k] exI [of _ vs]) simp
  qed
  then show "x \<in> set (getUniqueVMSfromConditionMap (mapRange e) shutdownVMs')"
    unfolding uniq by (force dest: map_of_SomeD)
qed

text \<open>Requests other than the drain itself are not constrained by \<open>P\<close>.\<close>

lemma emits_run_drain_stopped:
  assumes "\<And>h t. prefix h0 h \<Longrightarrow> P h (DrainNode n t)"
    and "\<And>h c. (\<And>m t. c \<noteq> DrainNode m t) \<Longrightarrow> P h c"
  shows "emits P (run_drain e n tm d) h0"
proof -
  have guarded: "emits P (TransitionMaintenanceModeCondition e x a b c d m) h" for x a b c d m h
    by (rule emits_guarded) (auto intro: assms(2))
  have clear: "emits P (clearDrainRequest e x) h" for x h
    by (rule emits_clearDrainRequest) (auto intro: assms(2))
  have fail: "emits P (failDrainTimeout e n tm err) h" for err h
    by (rule emits_failDrainTimeout) (auto intro: assms(2))
  let ?timeout = "if tm > 0 then State_Monad.bind (now e) (\<lambda>t. ret (sat64 (d - t))) else ret 0"
  have timeout: "emits P ?timeout h0"
    unfolding now_def by (intro emits_if emits_bindI emits_request emits_return assms(2)) simp
  have sub: "prefix h0 h'" if "run_state ?timeout h0 = (a, h')" for a h'
    using that by (auto simp: now_def split: if_splits)
  show ?thesis
    unfolding run_drain_def drain_node_def
    by (rule emits_bind [OF timeout], rule emits_request_bind)
      (intro assms(1) sub, assumption,
        intro emits_if emits_bindI emits_return emits_case_sum emits_andthen emits_observe guarded clear fail)
qed

lemma emits_drain_stopped:
  assumes "order_ok e"
    and "\<And>groups. FindNonMigratableVMS e n = Inr groups \<Longrightarrow> MaintainModeStrategyKey \<notin> fst ` set groups"
  shows "emits (\<lambda>h c. (\<exists>m t. c = DrainNode m t) \<longrightarrow> (\<forall>x \<in> must_stop e n. vm_stopped e h x))
    (shutdown_and_drain e n tm d) h"
proof -
  let ?P = "\<lambda>h c. (\<exists>m t. c = DrainNode m t) \<longrightarrow> (\<forall>x \<in> must_stop e n. vm_stopped e h x)"
  have ann: "emits ?P (annotate_vms e n vs) h" for vs h by (rule emits_annotate_vms) simp
  have stop: "emits ?P (stop_vms e vs) h" for vs h by (rule emits_stop_vms [where n = n]) simp
  have run: "emits ?P (run_drain e n tm d) h" if "\<forall>x \<in> must_stop e n. vm_stopped e h x" for h
    by (rule emits_run_drain_stopped) (use that in \<open>auto intro: vm_stopped_mono\<close>)
  show ?thesis
    unfolding shutdown_and_drain_def Let_def andthen_def
    apply (intro emits_case_sum emits_return)
    apply (rule emits_bind [OF ann])
    apply (intro emits_case_sum emits_return)
    apply (rule emits_bind [OF stop])
    apply (intro emits_case_sum emits_return run)
    subgoal premises prems for groups vmis r h1 names r' h2 u
    proof -
      have r: "run_state (annotate_vms e n vmis) h = (Inr names, h1)"
        using prems(3,4) by simp
      have r': "run_state (stop_vms e (getUniqueVMSfromConditionMap (mapRange e)
          (if IsForcedDrainRequested n
           then put_groups (range_over (mapRange e) groups) (if names = [] then [] else [(MaintainModeStrategyKey, names)])
           else (if names = [] then [] else [(MaintainModeStrategyKey, names)])))) h1 = (Inr (), h2)"
        using prems(5,6) by simp
      show ?thesis
        using stop_vms_run [OF r'] shutdown_list_complete [OF assms prems(1,2) annotate_vms_result [OF r] refl refl]
        by blast
    qed
    done
qed

lemma emits_validate_plain:
  "(\<And>h c. (\<And>m t. c \<noteq> DrainNode m t) \<Longrightarrow> P h c) \<Longrightarrow> emits P (validate e n) h"
  unfolding validate_def Let_def
  by (intro emits_case_sum emits_if emits_return emits_failPreCheck emits_unguarded) simp_all

text \<open>
  A property of drain calls that holds for the shutdown-and-drain part holds for the whole
  reconcile: no other branch calls the drain.
\<close>

lemma emits_OnNodeChange_shutdown:
  assumes "\<And>h c. (\<And>m t. c \<noteq> DrainNode m t) \<Longrightarrow> P h c"
    and "\<And>h c. GetMaintenanceModeCondition n = Some c \<Longrightarrow>
       emits P (shutdown_and_drain e n (drainTimeoutMinutes e)
         (nc_LastTransitionTime c + wrap64 (drainTimeoutMinutes e * nanos_per_minute))) h"
  shows "emits P (OnNodeChange_drain e (Some n)) h"
  unfolding OnNodeChange_drain_def drain_def Let_def option.case now_def
  by (intro emits_if emits_return emits_andthen emits_case_option emits_validate_plain emits_unguarded
      emits_clearDrainRequest emits_failDrainTimeout emits_bindI emits_request assms(2))
    (auto intro: assms(1))

definition drain_budget :: "mm_env \<Rightarrow> node \<Rightarrow> mm_call list \<Rightarrow> mm_call \<Rightarrow> bool" where
  "drain_budget e n h c \<longleftrightarrow>
     (\<forall>m t. c = DrainNode m t \<longrightarrow> drainTimeoutMinutes e > 0 \<longrightarrow>
        (\<exists>h0 c0. h = h0 @ [ClockNow] \<and> GetMaintenanceModeCondition n = Some c0 \<and>
           t = sat64 (nc_LastTransitionTime c0 + wrap64 (drainTimeoutMinutes e * nanos_per_minute) - clock e h0)))"

lemma emits_drain_budget: "emits (drain_budget e n) (OnNodeChange_drain e (Some n)) h"
proof (rule emits_OnNodeChange_shutdown)
  fix h c assume c: "GetMaintenanceModeCondition n = Some c"
  let ?d = "nc_LastTransitionTime c + wrap64 (drainTimeoutMinutes e * nanos_per_minute)"
  let ?P = "drain_budget e n"
  have plain: "?P h c" if "\<And>m t. c \<noteq> DrainNode m t" for h c
    using that by (simp add: drain_budget_def)
  have guarded: "emits ?P (TransitionMaintenanceModeCondition e x a b c d m) h" for x a b c d m h
    by (rule emits_guarded) (auto intro: plain)
  have clear: "emits ?P (clearDrainRequest e x) h" for x h
    by (rule emits_clearDrainRequest) (auto intro: plain)
  have fail: "emits ?P (failDrainTimeout e n tm err) h" for tm err h
    by (rule emits_failDrainTimeout) (auto intro: plain)
  have run: "emits ?P (run_drain e n (drainTimeoutMinutes e) ?d) h" for h
    unfolding run_drain_def drain_node_def now_def
    by (rule emits_bind, intro emits_if emits_bindI emits_request emits_return plain, simp, rule emits_request_bind)
      (use c in \<open>auto simp: drain_budget_def split: if_splits
        intro!: emits_if emits_bindI emits_return emits_case_sum emits_andthen emits_observe guarded clear fail\<close>)
  show "emits ?P (shutdown_and_drain e n (drainTimeoutMinutes e) ?d) h"
    unfolding shutdown_and_drain_def Let_def
    by (intro emits_case_sum emits_return emits_andthen emits_annotate_vms emits_stop_vms [where n = n] run plain) simp_all
qed (simp add: drain_budget_def)

definition drain_event_policy :: "mm_env \<times> node option \<Rightarrow> mm_call list \<Rightarrow> mm_call \<Rightarrow> bool" where
  "drain_event_policy x h c = (case snd x of None \<Rightarrow> False | Some n \<Rightarrow> drain_policy (fst x) n h c)"

interpretation drain_rec: reconciler "\<lambda>x. OnNodeChange_drain (fst x) (snd x)" drain_event_policy
proof unfold_locales
  fix x h
  show "emits (drain_event_policy x) (OnNodeChange_drain (fst x) (snd x)) h"
  proof (cases "snd x")
    case None
    then show ?thesis by (simp add: OnNodeChange_drain_def emits_return)
  next
    case (Some n)
    then show ?thesis
      using emits_OnNodeChange_drain [of "fst x" n h] by (simp add: drain_event_policy_def [abs_def])
  qed
qed

section \<open>Properties\<close>

text \<open>
  C6. Over any sequence of reconciles of the node-drain controller, each with its own cache
  contents, VMs are written and nodes are drained only while handling a node whose cached
  condition says Draining, and only that node is drained.
\<close>

theorem drain_side_effects_only_when_draining:
  assumes "drain_rec.run_events xs [] = pre @ c # post"
    and "(\<exists>v. c = VMsUpdate v) \<or> (\<exists>n t. c = DrainNode n t)"
  shows "\<exists>e n. (e, Some n) \<in> set xs \<and>
    (\<exists>s. mm_phase n = Some (s, NodeConditionReasonDraining)) \<and> (\<forall>m t. c = DrainNode m t \<longrightarrow> m = n)"
proof -
  from drain_rec.every_request_allowed [OF assms(1)] obtain e x where
    x: "(e, x) \<in> set xs" "drain_event_policy (e, x) pre c" by auto
  then obtain n where n: "x = Some n" "drain_policy e n pre c"
    by (auto simp: drain_event_policy_def split: option.splits)
  with assms(2) have "mm_reason n = Some NodeConditionReasonDraining" "\<forall>m t. c = DrainNode m t \<longrightarrow> m = n"
    by (auto simp: drain_policy_def)
  with x n show ?thesis by (auto simp: mm_reason_def)
qed

text \<open>
  C4. Every status write of a reconcile directly follows a live read of the node, changes nothing
  but its MaintenanceMode condition, and makes one of five transitions: a requested node without
  a condition becomes Validating; a requested Validating node becomes Draining, if the pre-check
  passes on the cache, or Error with status False; and a node that is still Draining on the live
  read becomes Evacuating or Error with status True.
\<close>

theorem drain_status_transitions:
  assumes "issued (OnNodeChange_drain e (Some n)) = pre @ NodesUpdateStatus n' # post"
  shows "\<exists>h0 live s r. pre = h0 @ [NodesGet (node_Name n), ClockNow] \<and> nodes_Get e h0 (node_Name n) = Inr live \<and>
     mm_phase n' = Some (s, r) \<and>
     (\<forall>t. t \<noteq> NodeConditionTypeMaintenanceMode \<longrightarrow>
        FindNodeStatusCondition (node_Conditions n') t = FindNodeStatusCondition (node_Conditions live) t) \<and>
     node_Annotations n' = node_Annotations live \<and>
     (mm_phase n = None \<and> HasDrainRequest n \<and> (s, r) = (ConditionTrue, NodeConditionReasonValidating) \<or>
      mm_reason n = Some NodeConditionReasonValidating \<and> HasDrainRequest n \<and>
        DrainPossible (nodeCache_List e) n = Inr () \<and> (s, r) = (ConditionTrue, NodeConditionReasonDraining) \<or>
      mm_reason n = Some NodeConditionReasonValidating \<and> HasDrainRequest n \<and>
        (s, r) = (ConditionFalse, NodeConditionReasonError) \<or>
      mm_reason n = Some NodeConditionReasonDraining \<and>
        mm_phase live = Some (ConditionTrue, NodeConditionReasonDraining) \<and>
        ((s, r) = (ConditionTrue, NodeConditionReasonEvacuating) \<or> (s, r) = (ConditionTrue, NodeConditionReasonError)))"
proof -
  have "drain_status_write e n pre (NodesUpdateStatus n')"
    using emits_issued [OF emits_OnNodeChange_drain assms] by (simp add: drain_policy_def)
  then show ?thesis
    unfolding drain_status_write_def mm_reason_def
    by (elim disjE conjE exE; simp add: guarded_write_def unguarded_write_def;
        elim exE conjE; simp add: SetMaintenanceModeCondition_other mm_reason_def)
qed

section \<open>A concrete drain\<close>

definition sample_draining :: node where
  "sample_draining = sample_node ''n1'' [] [(DrainAnnotation, ''true'')] [sample_condition ConditionTrue NodeConditionReasonDraining]"

lemma sample_draining_name [simp]: "node_Name sample_draining = ''n1''"
  by (simp add: sample_draining_def sample_node_def)

lemma sample_drain_run:
  "issued (OnNodeChange_drain (sample_env [sample_draining] sample_draining 0) (Some sample_draining)) =
   [DrainNode sample_draining 0, NodesGet ''n1'', ClockNow,
    NodesUpdateStatus (fst (SetMaintenanceModeCondition 2 sample_draining ConditionTrue NodeConditionReasonEvacuating MaintenanceModeMessageEvacuating)),
    NodesUpdate (fst (ClearDrainRequest (fst (SetMaintenanceModeCondition 2 sample_draining ConditionTrue NodeConditionReasonEvacuating MaintenanceModeMessageEvacuating))))]"
  by code_simp

text \<open>A running VM with the shutdown label on node n1.\<close>

definition sample_vmi :: vmi where
  "sample_vmi =
     \<lparr>vmi_Namespace = ''ns'', vmi_Name = ''v'',
      vmi_Labels = Some [(LabelNodeNameKey, ''n1''), (LabelMaintainModeStrategy, MaintainModeStrategyShutdown)],
      vmi_Annotations = None,
      vmi_OwnerReferences = [\<lparr>or_APIVersion = ''kubevirt.io/v1'', or_Kind = ''VirtualMachine'', or_Name = ''v'', or_UID = ''u''\<rparr>],
      vmi_Phase = ''Running'', vmi_NodeName = ''n1'', vmi_HostDevices = [], vmi_GPUs = [], vmi_Conditions = [],
      vmi_RequiredNodeAffinity = None, vmi_NodeSelector = None\<rparr>"

definition sample_vm :: vm where
  "sample_vm = \<lparr>vm_Namespace = ''ns'', vm_Name = ''v'', vm_Labels = None, vm_Annotations = None,
     vm_Running = None, vm_RunStrategy = Some RunStrategyAlways\<rparr>"

definition sample_vm_env :: "vm result \<Rightarrow> int \<Rightarrow> mm_env" where
  "sample_vm_env cachedVM timeout =
     (sample_env [sample_draining] sample_draining timeout)
       \<lparr>vmiCache_List := Inr [sample_vmi], vmCache_Get := \<lambda>ns name. cachedVM\<rparr>"

lemma sample_vm_env_order: "order_ok (sample_vm_env r t)"
  by (simp add: order_ok_def sample_vm_env_def sample_env_def)

lemma sample_vm_env_groups:
  "FindNonMigratableVMS (sample_vm_env r t) sample_draining = Inr groups \<Longrightarrow>
   MaintainModeStrategyKey \<notin> fst ` set groups"
  by (auto simp: FindNonMigratableVMS_def listVMI_def listVolumeNames_def possible_volume_names_def
      sample_vm_env_def sample_env_def range_over_def List.map_filter_simps sample_vmi_def
      CheckVMISchedulingRequirements_def IdentifyNonMigratableVMS_def put_groups_def
      possible_nodes_def filterNodesForNodeSelector_def slen_def split: if_splits sum.splits)

lemma sample_vm_env_must_stop: "''ns/v'' \<in> must_stop (sample_vm_env r t) sample_draining"
  by (auto simp: must_stop_def listVMILabelMaintainModeStrategy_def ListByNode_def sample_vm_env_def sample_env_def
      sample_vmi_def sget_def key_defs MaintainModeStrategyShutdownValues_def owner_vm_name_def findVM_def)

lemma sample_vm_env_run:
  "issued (OnNodeChange_drain (sample_vm_env (Inr sample_vm) 5) (Some sample_draining)) =
   [ClockNow, VMsUpdate (sample_vm\<lparr>vm_RunStrategy := Some RunStrategyHalted\<rparr>), ClockNow] @
   DrainNode sample_draining (300000000000 - 2) #
   [NodesGet ''n1'', ClockNow,
    NodesUpdateStatus (fst (SetMaintenanceModeCondition 5 sample_draining ConditionTrue NodeConditionReasonEvacuating MaintenanceModeMessageEvacuating)),
    NodesUpdate (fst (ClearDrainRequest (fst (SetMaintenanceModeCondition 5 sample_draining ConditionTrue NodeConditionReasonEvacuating MaintenanceModeMessageEvacuating))))]"
  by code_simp

lemma sample_drain_events:
  "drain_rec.run_events [(sample_env [sample_draining] sample_draining 0, Some sample_draining)] [] =
   issued (OnNodeChange_drain (sample_env [sample_draining] sample_draining 0) (Some sample_draining))"
  by (simp add: issued_def)

theorem drain_side_effects_witness:
  "\<exists>e n. (e, Some n) \<in> set [(sample_env [sample_draining] sample_draining 0, Some sample_draining)] \<and>
    (\<exists>s. mm_phase n = Some (s, NodeConditionReasonDraining)) \<and>
    (\<forall>m t. DrainNode sample_draining 0 = DrainNode m t \<longrightarrow> m = n)"
  using drain_side_effects_only_when_draining
    [of "[(sample_env [sample_draining] sample_draining 0, Some sample_draining)]" "[]" "DrainNode sample_draining 0"]
  unfolding sample_drain_events sample_drain_run by blast

theorem drain_status_transitions_witness:
  "\<exists>h0 live. [DrainNode sample_draining 0, NodesGet ''n1'', ClockNow] = h0 @ [NodesGet ''n1'', ClockNow] \<and>
     nodes_Get (sample_env [sample_draining] sample_draining 0) h0 ''n1'' = Inr live \<and>
     node_Annotations (fst (SetMaintenanceModeCondition 2 sample_draining ConditionTrue
        NodeConditionReasonEvacuating MaintenanceModeMessageEvacuating)) = node_Annotations live"
  using drain_status_transitions
    [of "sample_env [sample_draining] sample_draining 0" sample_draining
      "[DrainNode sample_draining 0, NodesGet ''n1'', ClockNow]"
      "fst (SetMaintenanceModeCondition 2 sample_draining ConditionTrue NodeConditionReasonEvacuating MaintenanceModeMessageEvacuating)",
     unfolded sample_drain_run sample_draining_name append.simps, OF refl]
  by blast

text \<open>
  C5. Before the drain is called, every VM it has to stop is halted: each VM labelled for a
  shutdown strategy on the node and, for a forced request, each non-migratable VM is found in the
  cache, and either was already halted there or the API server has accepted an update that halts it before
  the drain.
\<close>

theorem drain_after_shutdown:
  assumes "order_ok e"
    and "\<And>groups. FindNonMigratableVMS e n = Inr groups \<Longrightarrow> MaintainModeStrategyKey \<notin> fst ` set groups"
    and "issued (OnNodeChange_drain e (Some n)) = pre @ DrainNode m t # post" and "x \<in> must_stop e n"
  shows "vm_stopped e pre x"
  using emits_issued [OF emits_OnNodeChange_shutdown [OF _ emits_drain_stopped [OF assms(1,2)]] assms(3)] assms(4)
  by auto

theorem drain_after_shutdown_witness:
  "vm_stopped (sample_vm_env (Inr sample_vm) 5)
     [ClockNow, VMsUpdate (sample_vm\<lparr>vm_RunStrategy := Some RunStrategyHalted\<rparr>), ClockNow] ''ns/v''"
  by (rule drain_after_shutdown [OF sample_vm_env_order sample_vm_env_groups sample_vm_env_run sample_vm_env_must_stop])

text \<open>
  C9. A VM that has to be stopped but is no longer in the cache blocks the drain: the not-found
  error is formatted without wrapping, so the loop never skips it, and no reconcile drains the
  node as long as the VM stays listed.
\<close>

theorem missing_vm_blocks_drain:
  assumes "order_ok e"
    and "\<And>groups. FindNonMigratableVMS e n = Inr groups \<Longrightarrow> MaintainModeStrategyKey \<notin> fst ` set groups"
    and "x \<in> must_stop e n" and "splitNamespacedName x = Inr (ns, name)"
    and "vmCache_Get e ns name = Inl (ApiStatus NotFound msg)"
  shows "DrainNode m t \<notin> set (issued (OnNodeChange_drain e (Some n)))"
proof
  assume "DrainNode m t \<in> set (issued (OnNodeChange_drain e (Some n)))"
  then obtain pre post where "issued (OnNodeChange_drain e (Some n)) = pre @ DrainNode m t # post"
    by (metis in_set_conv_decomp)
  then have "vm_stopped e pre x"
    using emits_issued [OF emits_OnNodeChange_shutdown [OF _ emits_drain_stopped [OF assms(1,2)]]] assms(3)
    by auto
  with assms(4,5) show False by (simp add: vm_stopped_def)
qed

theorem missing_vm_blocks_drain_witness:
  "DrainNode sample_draining 0 \<notin>
     set (issued (OnNodeChange_drain (sample_vm_env (Inl (ApiStatus NotFound ''gone'')) 0) (Some sample_draining)))"
  by (rule missing_vm_blocks_drain
      [OF sample_vm_env_order sample_vm_env_groups sample_vm_env_must_stop, where ns = "''ns''" and name = "''v''"])
    (simp_all add: splitNamespacedName_def sample_vm_env_def)

text \<open>
  With a drain timeout configured, the drain is called with exactly the time left until the
  deadline, which is the condition's last transition plus the timeout, as read from the clock
  immediately before the call.
\<close>

theorem drain_gets_remaining_budget:
  assumes "issued (OnNodeChange_drain e (Some n)) = pre @ DrainNode m t # post" and "drainTimeoutMinutes e > 0"
  shows "\<exists>h0 c. pre = h0 @ [ClockNow] \<and> GetMaintenanceModeCondition n = Some c \<and>
    t = sat64 (nc_LastTransitionTime c + wrap64 (drainTimeoutMinutes e * nanos_per_minute) - clock e h0)"
  using emits_issued [OF emits_drain_budget assms(1)] assms(2) by (simp add: drain_budget_def)

theorem drain_gets_remaining_budget_witness:
  "\<exists>h0 c. [ClockNow, VMsUpdate (sample_vm\<lparr>vm_RunStrategy := Some RunStrategyHalted\<rparr>), ClockNow] = h0 @ [ClockNow] \<and>
     GetMaintenanceModeCondition sample_draining = Some c \<and>
     300000000000 - 2 = sat64 (nc_LastTransitionTime c +
        wrap64 (drainTimeoutMinutes (sample_vm_env (Inr sample_vm) 5) * nanos_per_minute) -
        clock (sample_vm_env (Inr sample_vm) 5) h0)"
  by (rule drain_gets_remaining_budget [OF sample_vm_env_run]) (simp add: sample_vm_env_def sample_env_def)





text \<open>
  A volume counts as endangered by draining a node exactly when it has a single running
  replica and that replica is on the node, whatever order the volume map is visited in.
\<close>

theorem last_replica_volumes:
  assumes "\<And>ks. mset (order ks) = mset ks"
  shows "v \<in> set (possible_volume_names order replicas nodeName) \<longleftrightarrow>
    (\<exists>r. filter (\<lambda>r. replica_VolumeName r = v \<and> replica_Started r) replicas = [r] \<and> replica_NodeID r = nodeName)"
  using possible_volume_names_iff [OF assms] by (simp add: started_replicas_def)

theorem last_replica_volumes_witness:
  "''vol'' \<in> set (possible_volume_names rev
     [\<lparr>replica_VolumeName = ''vol'', replica_NodeID = ''n1'', replica_Started = True\<rparr>,
      \<lparr>replica_VolumeName = ''vol'', replica_NodeID = ''n2'', replica_Started = False\<rparr>] ''n1'')"
  by (subst last_replica_volumes) simp_all

text \<open>A VM that can be found and whose run strategy can be read.\<close>

definition stoppable :: "mm_env \<Rightarrow> string \<Rightarrow> bool" where
  "stoppable e x \<longleftrightarrow> (\<exists>ns name v s. splitNamespacedName x = Inr (ns, name) \<and> vmCache_Get e ns name = Inr v \<and> RunStrategy v = Inr s)"

lemma stop_vms_succeeds:
  assumes "\<And>h v. vms_Update e h v = Inr v" and "\<forall>x \<in> set xs. stoppable e x"
  shows "\<exists>cs. run_state (stop_vms e xs) h = (Inr (), h @ cs)"
  using assms(2)
proof (induction xs arbitrary: h)
  case (Cons x xs)
  have "\<exists>cs. run_state (findAndStopVM e x) h = (Inr (), h @ cs)"
    using Cons.prems by (auto simp: stoppable_def findAndStopVM_def mm_request_defs assms(1))
  then obtain cs where cs: "run_state (findAndStopVM e x) h = (Inr (), h @ cs)" by blast
  obtain cs' where "run_state (stop_vms e xs) (h @ cs) = (Inr (), (h @ cs) @ cs')" using Cons by (metis list.set_intros(2))
  with cs show ?case by (simp add: stop_vms_def)
qed (simp add: stop_vms_def)

lemma annotate_vms_succeeds:
  assumes "\<And>h v. vms_Update e h v = Inr v"
    and "\<forall>v \<in> set vs. \<exists>name vm. findVM v = Inr name \<and> vmCache_Get e (vmi_Namespace v) name = Inr vm"
  shows "\<exists>names cs. run_state (annotate_vms e n vs) h = (Inr names, h @ cs)"
  using assms(2)
proof (induction vs arbitrary: h)
  case (Cons v vs)
  have "\<exists>x cs. run_state (annotate_vm e n v) h = (Inr x, h @ cs)"
    using Cons.prems by (auto simp: annotate_vm_def mm_request_defs assms(1) Let_def)
  then obtain x cs where cs: "run_state (annotate_vm e n v) h = (Inr x, h @ cs)" by blast
  obtain names cs' where "run_state (annotate_vms e n vs) (h @ cs) = (Inr names, (h @ cs) @ cs')"
    using Cons by (metis list.set_intros(2))
  with cs show ?case by simp
qed simp

lemma shutdown_list_sound:
  assumes "order_ok e"
    and forced: "(if IsForcedDrainRequested n then FindNonMigratableVMS e n else Inr []) = Inr nonMigratableVMs"
    and vmis: "listVMILabelMaintainModeStrategy e n = Inr vmis" "map_result owner_vm_name vmis = Inr names"
    and base: "shutdownVMs = (if names = [] then [] else [(MaintainModeStrategyKey, names)])"
    and all: "shutdownVMs' = (if IsForcedDrainRequested n then put_groups (range_over (mapRange e) nonMigratableVMs) shutdownVMs
                else shutdownVMs)"
  shows "set (getUniqueVMSfromConditionMap (mapRange e) shutdownVMs') \<subseteq> must_stop e n"
proof
  fix x assume x: "x \<in> set (getUniqueVMSfromConditionMap (mapRange e) shutdownVMs')"
  have dist: "distinct (map fst shutdownVMs')"
    unfolding all base by (auto intro!: put_groups_distinct)
  have "set (getUniqueVMSfromConditionMap (mapRange e) shutdownVMs') = (\<Union>g \<in> set shutdownVMs'. set (snd g))"
    by (rule getUnique_set) (use assms(1) dist in \<open>auto simp: order_ok_def\<close>)
  with x obtain k vs where g: "map_of shutdownVMs' k = Some vs" "x \<in> set vs" using dist by force
  have names: "x \<in> must_stop e n" if nm: "x \<in> set names"
  proof -
    obtain i where "i < length names" "x = names ! i" using nm by (auto simp: in_set_conv_nth)
    then have "vmis ! i \<in> set vmis" "owner_vm_name (vmis ! i) = Inr x"
      using vmis(2) by (auto simp: map_result_Inr list_all2_conv_all_nth)
    with vmis(1) show ?thesis by (auto simp: must_stop_def)
  qed
  show "x \<in> must_stop e n"
  proof (cases "IsForcedDrainRequested n")
    case True
    then have f: "FindNonMigratableVMS e n = Inr nonMigratableVMs" using forced by simp
    then have d: "distinct (map fst nonMigratableVMs)" by (rule FindNonMigratableVMS_distinct)
    have "map_of shutdownVMs' k = (case map_of nonMigratableVMs k of None \<Rightarrow> map_of shutdownVMs k | Some v \<Rightarrow> Some v)"
      using True range_over_map_of [OF assms(1) d] unfolding all by (simp add: put_groups_map_of)
    then consider "map_of nonMigratableVMs k = Some vs" | "map_of shutdownVMs k = Some vs" using g(1) by (auto split: option.splits)
    then show ?thesis
    proof cases
      case 1
      with True f g(2) show ?thesis by (auto simp: must_stop_def dest: map_of_SomeD)
    qed (use base g(2) names in \<open>auto split: if_splits\<close>)
  qed (use all base g names in \<open>auto split: if_splits\<close>)
qed

text \<open>What a drain has written when it has finished.\<close>

definition drain_finished :: "node \<Rightarrow> mm_call list \<Rightarrow> bool" where
  "drain_finished n' cs \<longleftrightarrow>
     (\<exists>w. NodesUpdateStatus w \<in> set cs \<and> mm_phase w = Some (ConditionTrue, NodeConditionReasonEvacuating) \<and>
        (n' = w \<or> NodesUpdate n' \<in> set cs)) \<and>
     mm_phase n' = Some (ConditionTrue, NodeConditionReasonEvacuating) \<and> \<not> HasDrainRequest n'"

lemma run_drain_succeeds:
  assumes "mm_phase n = Some (ConditionTrue, NodeConditionReasonDraining)"
    and "\<And>h. nodes_Get e h (node_Name n) = Inr n" and "\<And>h m. nodes_UpdateStatus e h m = Inr m"
    and "\<And>h m. nodes_Update e h m = Inr m" and "\<And>h m t. drainNode e h m t = Inr ()"
  shows "\<exists>n' h1 t post. run_state (run_drain e n tm d) h = (Inr n', h @ h1 @ DrainNode n t # post) \<and> drain_finished n' post"
proof -
  let ?n1 = "\<lambda>t. fst (SetMaintenanceModeCondition t n ConditionTrue NodeConditionReasonEvacuating MaintenanceModeMessageEvacuating)"
  have live: "IsMaintenanceModePhase n ConditionTrue [NodeConditionReasonDraining]"
    using assms(1) by (simp add: IsMaintenanceModePhase_iff)
  have trans: "run_state (TransitionMaintenanceModeCondition e (node_Name n) ConditionTrue NodeConditionReasonDraining
        ConditionTrue NodeConditionReasonEvacuating MaintenanceModeMessageEvacuating) h =
      (Inr (?n1 (clock e (h @ [NodesGet (node_Name n)]))),
       h @ [NodesGet (node_Name n), ClockNow, NodesUpdateStatus (?n1 (clock e (h @ [NodesGet (node_Name n)])))])" for h
    by (simp add: TransitionMaintenanceModeCondition_def mm_request_defs assms(2,3) live Let_def numeral_eq_Suc)
  have fin: "IsMaintenanceModeDrainComplete (GetMaintenanceModeCondition (?n1 t))" for t
    by (simp add: IsMaintenanceModeDrainComplete_def IsMaintenanceModeCondition_phase)
  have clear: "\<exists>cs. run_state (clearDrainRequest e m) h = (Inr (fst (ClearDrainRequest m)), h @ cs) \<and>
      (fst (ClearDrainRequest m) = m \<or> NodesUpdate (fst (ClearDrainRequest m)) \<in> set cs)" for m h
    using ClearDrainRequest_unchanged [of m]
    by (auto simp: clearDrainRequest_def mm_request_defs split_beta assms(4))
  obtain h1 t where start: "run_state (if tm > 0 then State_Monad.bind (now e) (\<lambda>t. ret (sat64 (d - t))) else ret 0) h = (t, h @ h1)"
    by (cases "tm > 0") (auto simp: mm_request_defs)
  let ?h = "h @ h1 @ [DrainNode n t]"
  let ?w = "?n1 (clock e (?h @ [NodesGet (node_Name n)]))"
  let ?g = "?h @ [NodesGet (node_Name n), ClockNow, NodesUpdateStatus ?w]"
  obtain cs where cs: "run_state (clearDrainRequest e ?w) ?g = (Inr (fst (ClearDrainRequest ?w)), ?g @ cs)"
    "fst (ClearDrainRequest ?w) = ?w \<or> NodesUpdate (fst (ClearDrainRequest ?w)) \<in> set cs" using clear by blast
  have "run_state (run_drain e n tm d) h = (Inr (fst (ClearDrainRequest ?w)), h @ h1 @ DrainNode n t #
      [NodesGet (node_Name n), ClockNow, NodesUpdateStatus ?w] @ cs)"
    using cs(1) trans [of ?h] fin by (simp add: run_drain_def start drain_node_def assms(5))
  moreover have "drain_finished (fst (ClearDrainRequest ?w)) ([NodesGet (node_Name n), ClockNow, NodesUpdateStatus ?w] @ cs)"
    unfolding drain_finished_def using cs(2) by (auto intro!: exI [of _ ?w])
  ultimately show ?thesis by blast
qed

lemma shutdown_succeeds:
  assumes "order_ok e" and vmis: "listVMILabelMaintainModeStrategy e n = Inr vmis"
    and "IsForcedDrainRequested n \<Longrightarrow> \<exists>groups. FindNonMigratableVMS e n = Inr groups"
    and keys: "\<And>groups. FindNonMigratableVMS e n = Inr groups \<Longrightarrow> MaintainModeStrategyKey \<notin> fst ` set groups"
    and "\<forall>v \<in> set vmis. \<exists>name vm. findVM v = Inr name \<and> vmCache_Get e (vmi_Namespace v) name = Inr vm"
    and "\<forall>x \<in> must_stop e n. stoppable e x" and vms: "\<And>h v. vms_Update e h v = Inr v"
  shows "\<exists>h'. run_state (shutdown_and_drain e n tm d) h = run_state (run_drain e n tm d) (h @ h') \<and>
    (\<forall>x \<in> must_stop e n. vm_stopped e (h @ h') x)"
proof -
  obtain groups where g: "(if IsForcedDrainRequested n then FindNonMigratableVMS e n else Inr []) = Inr groups"
    using assms(3) by (cases "IsForcedDrainRequested n") auto
  obtain names h1 where n: "run_state (annotate_vms e n vmis) h = (Inr names, h @ h1)"
    using annotate_vms_succeeds [OF vms assms(5)] by blast
  let ?base = "if names = [] then [] else [(MaintainModeStrategyKey, names)]"
  let ?l = "getUniqueVMSfromConditionMap (mapRange e)
    (if IsForcedDrainRequested n then put_groups (range_over (mapRange e) groups) ?base else ?base)"
  note l = g vmis annotate_vms_result [OF n] refl refl
  have "\<forall>x \<in> set ?l. stoppable e x" using shutdown_list_sound [OF assms(1) l] assms(6) by blast
  from stop_vms_succeeds [OF vms this] obtain h2 where s: "run_state (stop_vms e ?l) (h @ h1) = (Inr (), (h @ h1) @ h2)"
    by blast
  have "\<forall>x \<in> must_stop e n. vm_stopped e ((h @ h1) @ h2) x"
    using stop_vms_run [OF s] shutdown_list_complete [OF assms(1) keys l] by blast
  moreover have "run_state (shutdown_and_drain e n tm d) h = run_state (run_drain e n tm d) ((h @ h1) @ h2)"
    using n s by (simp add: shutdown_and_drain_def g vmis Let_def)
  ultimately show ?thesis by (metis append.assoc)
qed

text \<open>
  C11. One reconcile of a Draining node whose deadline has not passed drains it: when the VMs that have to be stopped
  can be found, the live node is the cached one, the API server accepts the requests and the drain succeeds,
  the VMs are halted, the node is drained, Evacuating is written and the drain request is removed.
\<close>

theorem drain_succeeds:
  assumes "GetMaintenanceModeCondition n = Some c" and "mm_phase n = Some (ConditionTrue, NodeConditionReasonDraining)"
    and "node_DeletionTimestamp n = None"
    and "0 < drainTimeoutMinutes e \<Longrightarrow> clock e [] < nc_LastTransitionTime c + wrap64 (drainTimeoutMinutes e * nanos_per_minute)"
    and "order_ok e" and "listVMILabelMaintainModeStrategy e n = Inr vmis"
    and "IsForcedDrainRequested n \<Longrightarrow> \<exists>groups. FindNonMigratableVMS e n = Inr groups"
    and "\<And>groups. FindNonMigratableVMS e n = Inr groups \<Longrightarrow> MaintainModeStrategyKey \<notin> fst ` set groups"
    and "\<forall>v \<in> set vmis. \<exists>name vm. findVM v = Inr name \<and> vmCache_Get e (vmi_Namespace v) name = Inr vm"
    and "\<forall>x \<in> must_stop e n. stoppable e x"
    and "\<And>h. nodes_Get e h (node_Name n) = Inr n" and "\<And>h m. nodes_UpdateStatus e h m = Inr m"
    and "\<And>h m. nodes_Update e h m = Inr m" and "\<And>h v. vms_Update e h v = Inr v" and "\<And>h m t. drainNode e h m t = Inr ()"
  shows "\<exists>n' pre t post. outcome (OnNodeChange_drain e (Some n)) = Inr (Some n') \<and>
    issued (OnNodeChange_drain e (Some n)) = pre @ DrainNode n t # post \<and>
    (\<forall>x \<in> must_stop e n. vm_stopped e pre x) \<and> drain_finished n' post"
proof -
  let ?d = "nc_LastTransitionTime c + wrap64 (drainTimeoutMinutes e * nanos_per_minute)" and ?tm = "drainTimeoutMinutes e"
  have r: "nc_Reason c = NodeConditionReasonDraining" using assms(1,2) by (simp add: mm_phase_def)
  have "\<exists>h0. run_state (drain e n c) [] = run_state (shutdown_and_drain e n ?tm ?d) h0"
    using assms(4) by (cases "0 < ?tm") (auto simp: drain_def Let_def mm_request_defs)
  then obtain h0 where h0: "run_state (drain e n c) [] = run_state (shutdown_and_drain e n ?tm ?d) h0" by blast
  obtain h' where h': "run_state (shutdown_and_drain e n ?tm ?d) h0 = run_state (run_drain e n ?tm ?d) (h0 @ h')"
    "\<forall>x \<in> must_stop e n. vm_stopped e (h0 @ h') x" using shutdown_succeeds [OF assms(5-10,14)] by blast
  obtain n' h1 t post where run: "run_state (run_drain e n ?tm ?d) (h0 @ h') = (Inr n', (h0 @ h') @ h1 @ DrainNode n t # post)"
    "drain_finished n' post" using run_drain_succeeds [OF assms(2,11-13,15)] by blast
  have "run_state (OnNodeChange_drain e (Some n)) [] = (Inr (Some n'), (h0 @ h') @ h1 @ DrainNode n t # post)"
    using h0 h'(1) run(1) by (simp add: OnNodeChange_drain_def assms(1,3) r)
  moreover have "\<forall>x \<in> must_stop e n. vm_stopped e ((h0 @ h') @ h1) x"
    using h'(2) by (auto intro: vm_stopped_mono)
  ultimately show ?thesis using run(2) by (auto simp: outcome_def issued_def intro!: exI [of _ "h0 @ h' @ h1"])
qed

lemma sample_vm_env_must_stop_only: "must_stop (sample_vm_env r t) sample_draining = {''ns/v''}"
  using sample_vm_env_must_stop [of r t]
  by (auto simp: must_stop_def listVMILabelMaintainModeStrategy_def ListByNode_def sample_vm_env_def sample_env_def
      sample_vmi_def sget_def key_defs MaintainModeStrategyShutdownValues_def owner_vm_name_def findVM_def
      sample_draining_def sample_node_def IsForcedDrainRequested_def sval_def split: if_splits)

theorem drain_succeeds_witness:
  "\<exists>n' pre t post. outcome (OnNodeChange_drain (sample_vm_env (Inr sample_vm) 15) (Some sample_draining)) = Inr (Some n') \<and>
    issued (OnNodeChange_drain (sample_vm_env (Inr sample_vm) 15) (Some sample_draining)) = pre @ DrainNode sample_draining t # post \<and>
    (\<forall>x \<in> must_stop (sample_vm_env (Inr sample_vm) 15) sample_draining. vm_stopped (sample_vm_env (Inr sample_vm) 15) pre x) \<and>
    drain_finished n' post"
proof (rule drain_succeeds [where vmis = "[sample_vmi]" and c = "sample_condition ConditionTrue NodeConditionReasonDraining"])
  show "order_ok (sample_vm_env (Inr sample_vm) 15)" by (rule sample_vm_env_order)
  show "MaintainModeStrategyKey \<notin> fst ` set groups"
    if "FindNonMigratableVMS (sample_vm_env (Inr sample_vm) 15) sample_draining = Inr groups" for groups
    using that by (rule sample_vm_env_groups)
  show "\<forall>x \<in> must_stop (sample_vm_env (Inr sample_vm) 15) sample_draining. stoppable (sample_vm_env (Inr sample_vm) 15) x"
    unfolding sample_vm_env_must_stop_only
    by (simp add: stoppable_def splitNamespacedName_def sample_vm_env_def sample_env_def RunStrategy_def sample_vm_def
        split: list.splits)
  show "listVMILabelMaintainModeStrategy (sample_vm_env (Inr sample_vm) 15) sample_draining = Inr [sample_vmi]"
    by (simp add: listVMILabelMaintainModeStrategy_def ListByNode_def sample_vm_env_def sample_env_def
        sample_vmi_def sget_def key_defs MaintainModeStrategyShutdownValues_def)
qed (simp_all add: sample_draining_def sample_node_def sample_env_def sample_vm_env_def sample_condition_def mm_phase_def
      GetMaintenanceModeCondition_def IsForcedDrainRequested_def sval_def sget_def key_defs sample_vmi_def findVM_def
      nanos_per_minute_def wrap64_def)

end
