(* ===== verification/Node_Maintain.thy ===== *)
theory Node_Maintain
  imports Node_Drain
begin

text \<open>
  The maintain controller (\<^verbatim>\<open>pkg/controller/master/node/maintain_controller.go\<close>), which completes
  the maintenance mode of an evacuated node, and the node actions of the API
  (\<^verbatim>\<open>pkg/api/node/formatter.go\<close>): which actions are offered, enabling, disabling and clearing
  maintenance mode, cordoning, the CPU-manager request.

  Decoding the request body is a parameter (\<open>Inl\<close> is the decoding error). \<^verbatim>\<open>AddAction\<close> of the API
  server is modelled by the list of offered action names.
\<close>

definition UpgradeNodeDrainTaintKey :: string where
  [key_defs]: "UpgradeNodeDrainTaintKey = ''kubevirt.io/drain''"
definition AnnotationCPUManagerUpdateStatus :: string where
  [key_defs]: "AnnotationCPUManagerUpdateStatus = ''harvesterhci.io/cpu-manager-update-status''"

section \<open>Maintain controller\<close>

definition requeueDelay :: int where
  "requeueDelay = 10 * 1000000000"

definition enqueue_after :: "string \<Rightarrow> int \<Rightarrow> (mm_call, unit) act" where
  "enqueue_after name delay = request (NodeEnqueueAfter name delay) (\<lambda>h. ())"

definition OnNodeChanged_maintain :: "mm_env \<Rightarrow> node option \<Rightarrow> (mm_call, node option result) act" where
  "OnNodeChanged_maintain e arg =
     (case arg of
        None \<Rightarrow> ret (Inr None)
      | Some n \<Rightarrow>
          if node_DeletionTimestamp n \<noteq> None then ret (Inr (Some n))
          else if \<not> IsMaintenanceModeCondition (GetMaintenanceModeCondition n) ConditionTrue [NodeConditionReasonEvacuating]
          then ret (Inr (Some n))
          else case ListByNode (newRequirement e) (vmiCache_List e) n (\<lambda>_. True) of
            Inl err \<Rightarrow> ret (Inl err)
          | Inr vmiList \<Rightarrow>
              if vmiList \<noteq> []
              then do {
                _ \<leftarrow> enqueue_after (node_Name n) requeueDelay;
                ret (Inr (Some n)) }
              else andthen
                (RestartMaintenanceModeVMsOnNode e (node_Name n) MaintainModeStrategyShutdownAndRestartAfterEnable)
                (\<lambda>_. andthen
                   (TransitionMaintenanceModeCondition e (node_Name n)
                      ConditionTrue NodeConditionReasonEvacuating
                      ConditionTrue NodeConditionReasonCompleted MaintenanceModeMessageCompleted)
                   (\<lambda>updated. ret (Inr (Some updated)))))"

definition OnNodeRemoved_maintain :: "mm_env \<Rightarrow> node option \<Rightarrow> (mm_call, node option result) act" where
  "OnNodeRemoved_maintain e arg =
     (case arg of
        None \<Rightarrow> ret (Inr None)
      | Some n \<Rightarrow>
          if node_DeletionTimestamp n = None then ret (Inr (Some n))
          else if \<not> IsMaintenanceModeEngaged n then ret (Inr (Some n))
          else case vmCache_List e of
            Inl err \<Rightarrow> ret (Inl (errorf_w ''failed to list VMs: '' err))
          | Inr vms \<Rightarrow>
              andthen
                (for_each (\<lambda>v.
                   if vm_Annotations v = None \<or>
                      sval (vm_Annotations v) AnnotationMaintainModeStrategyNodeName \<noteq> node_Name n
                   then ret (Inr ())
                   else andthen
                     (vms_update e (v\<lparr>vm_Annotations := sdel (vm_Annotations v) AnnotationMaintainModeStrategyNodeName\<rparr>))
                     (\<lambda>_. ret (Inr ()))) vms)
                (\<lambda>_. ret (Inr (Some n))))"

section \<open>Offered actions\<close>

definition Formatter_actions :: "bool \<Rightarrow> node result \<Rightarrow> string list" where
  "Formatter_actions canUpdate decoded =
     [''listUnhealthyVM'', ''maintenancePossible'', ''powerActionPossible''] @
     (if \<not> canUpdate then []
      else [''enableCPUManager'', ''disableCPUManager''] @
        (case decoded of
           Inl err \<Rightarrow> []
         | Inr n \<Rightarrow>
             (case GetMaintenanceModeCondition n of
                None \<Rightarrow> if \<not> HasDrainRequest n then [''enableMaintenanceMode''] else []
              | Some c \<Rightarrow>
                  if IsMaintenanceModeCondition (Some c) ConditionFalse [NodeConditionReasonError]
                  then (if \<not> HasDrainRequest n \<and> \<not> IsForcedDrainRequested n then [''clearMaintenanceMode''] else [])
                  else if IsMaintenanceModeCondition (Some c) ConditionTrue [NodeConditionReasonError]
                  then [''disableMaintenanceMode'']
                  else if IsMaintenanceModeDrainComplete (Some c)
                  then [''disableMaintenanceMode'', ''powerAction'']
                  else []) @
             (if node_Unschedulable n then [''uncordon''] else [''cordon''])))"

section \<open>Action handlers\<close>

definition api_error :: "string \<Rightarrow> go_error" where
  "api_error msg = ErrorString (''InvalidAction 422: '' @ msg)"

definition ignore_result :: "(mm_call, 'a result) act \<Rightarrow> (mm_call, unit result) act" where
  "ignore_result m = andthen m (\<lambda>_. ret (Inr ()))"

definition cordonUncordonNode :: "mm_env \<Rightarrow> node \<Rightarrow> string \<Rightarrow> bool \<Rightarrow> (mm_call, unit result) act" where
  "cordonUncordonNode e n actionName cordon =
     (if cordon = node_Unschedulable n
      then ret (Inl (api_error (''Node '' @ node_Name n @ '' already '' @ actionName @ ''ed'')))
      else ignore_result (nodes_update e (n\<lparr>node_Unschedulable := cordon\<rparr>)))"

definition requestCPUManager :: "mm_env \<Rightarrow> string \<Rightarrow> string \<Rightarrow> (mm_call, unit result) act" where
  "requestCPUManager e nodeName policy =
     retry_on_conflict default_retries
       (andthen (nodes_get e nodeName) (\<lambda>n.
          ignore_result (nodes_update e (n\<lparr>node_Annotations :=
            sset (node_Annotations n) AnnotationCPUManagerUpdateStatus
              (''{\"policy\":\"'' @ policy @ ''\",\"status\":\"requested\"}'')\<rparr>))))"

definition enableMaintenanceMode :: "mm_env \<Rightarrow> string result \<Rightarrow> string \<Rightarrow> (mm_call, unit result) act" where
  "enableMaintenanceMode e body nodeName =
     (case body of
        Inl err \<Rightarrow> ret (Inl (ErrorString (''InvalidBodyContent 422: Failed to decode request body: '' @ err_text err @ '' '')))
      | Inr force \<Rightarrow>
          retry_on_conflict default_retries
            (andthen (nodes_get e nodeName) (\<lambda>n.
               if GetMaintenanceModeCondition n \<noteq> None \<or> HasDrainRequest n
               then ret (Inl (api_error ''Maintenance mode was already requested for this node, please refresh and check the node status''))
               else ignore_result (nodes_update e (SetDrainRequest n (force = ''true''))))))"

definition removeMaintenanceModeCondition :: "mm_env \<Rightarrow> string \<Rightarrow> bool \<Rightarrow> (mm_call, unit result) act" where
  "removeMaintenanceModeCondition e nodeName preCheckErrorOnly =
     retry_on_conflict default_retries
       (andthen (nodes_get e nodeName) (\<lambda>n.
          case GetMaintenanceModeCondition n of
            None \<Rightarrow> ret (Inr ())
          | Some c \<Rightarrow>
              if preCheckErrorOnly \<and> (HasDrainRequest n \<or> IsForcedDrainRequested n)
              then ret (Inl (api_error ''Maintenance mode error cannot be cleared until the previous request is cleaned up''))
              else if preCheckErrorOnly \<and> \<not> IsMaintenanceModeCondition (Some c) ConditionFalse [NodeConditionReasonError]
              then ret (Inl (api_error ''Only a maintenance mode pre-check error can be cleared''))
              else if \<not> preCheckErrorOnly \<and> (\<not> CanDisableMaintenanceMode (Some c) \<or> HasDrainRequest n)
              then ret (Inl (api_error ''Maintenance mode state was modified concurrently, please refresh and check the node status''))
              else ignore_result (nodes_update_status e (fst (RemoveMaintenanceModeCondition n)))))"

definition retryMaintenanceModeUpdate :: "mm_env \<Rightarrow> string \<Rightarrow> (node \<Rightarrow> node) \<Rightarrow> (mm_call, unit result) act" where
  "retryMaintenanceModeUpdate e nodeName updateFunc =
     retry_on_conflict default_retries
       (andthen (nodes_get e nodeName) (\<lambda>n. ignore_result (nodes_update e (updateFunc n))))"

definition disableMaintenanceModeFunc :: "node \<Rightarrow> node" where
  "disableMaintenanceModeFunc n =
     fst (ClearDrainRequest (n\<lparr>node_Unschedulable := False,
       node_Taints := filter (\<lambda>t. taint_Key t \<noteq> UpgradeNodeDrainTaintKey) (node_Taints n)\<rparr>))"

definition disableMaintenanceMode :: "mm_env \<Rightarrow> string \<Rightarrow> (mm_call, unit result) act" where
  "disableMaintenanceMode e nodeName =
     andthen (nodes_get e nodeName) (\<lambda>n.
       if \<not> CanNodeDisableMaintenanceMode n
       then ret (Inl (api_error ''Maintenance mode cannot be disabled in the current state''))
       else andthen (retryMaintenanceModeUpdate e nodeName disableMaintenanceModeFunc) (\<lambda>_.
         andthen (RestartMaintenanceModeVMsOnNode e nodeName MaintainModeStrategyShutdownAndRestartAfterDisable) (\<lambda>_.
           removeMaintenanceModeCondition e nodeName False)))"

definition clearMaintenanceMode :: "mm_env \<Rightarrow> string \<Rightarrow> (mm_call, unit result) act" where
  "clearMaintenanceMode e nodeName = removeMaintenanceModeCondition e nodeName True"

definition maintenancePossible :: "mm_env \<Rightarrow> node \<Rightarrow> unit result" where
  "maintenancePossible e n = DrainPossible (nodeCache_List e) n"

definition listUnhealthyVM :: "mm_env \<Rightarrow> node \<Rightarrow> (string \<times> string list) list result" where
  "listUnhealthyVM e n =
     (case FindNonMigratableVMS e n of
        Inl err \<Rightarrow> Inl err
      | Inr nonMigratableVMList \<Rightarrow>
          Inr (map (\<lambda>(condition, vms). (''The following VMs cannot be migrated due to '' @ condition @ '' condition'', vms))
             (range_over (mapRange e) nonMigratableVMList)))"

section \<open>Lemmas\<close>

lemma emits_ignore_result [emit_intros]: "emits P m h \<Longrightarrow> emits P (ignore_result m) h"
  unfolding ignore_result_def by (intro emits_andthen emits_return)

text \<open>
  The status write of a condition removal directly follows a read of a node in a phase that may
  be left this way, and only removes the condition.
\<close>

definition removal_write :: "mm_env \<Rightarrow> string \<Rightarrow> bool \<Rightarrow> mm_call list \<Rightarrow> node \<Rightarrow> bool" where
  "removal_write e name preCheckErrorOnly h n' \<longleftrightarrow>
     (\<exists>h0 live. h = h0 @ [NodesGet name] \<and> nodes_Get e h0 name = Inr live \<and>
        n' = fst (RemoveMaintenanceModeCondition live) \<and> \<not> HasDrainRequest live \<and>
        (if preCheckErrorOnly
         then mm_phase live = Some (ConditionFalse, NodeConditionReasonError) \<and> \<not> IsForcedDrainRequested live
         else (\<exists>r \<in> {NodeConditionReasonEvacuating, NodeConditionReasonCompleted, NodeConditionReasonError}.
            mm_phase live = Some (ConditionTrue, r))))"

lemma CanDisable_phase:
  "CanDisableMaintenanceMode (GetMaintenanceModeCondition n) \<longleftrightarrow>
    (\<exists>r \<in> {NodeConditionReasonEvacuating, NodeConditionReasonCompleted, NodeConditionReasonError}.
       mm_phase n = Some (ConditionTrue, r))"
  by (simp add: CanDisableMaintenanceMode_def IsMaintenanceModeCondition_phase)

lemma emits_remove:
  assumes "\<And>h n'. removal_write e name b h n' \<Longrightarrow> P h (NodesUpdateStatus n')" and "\<And>h. P h (NodesGet name)"
  shows "emits P (removeMaintenanceModeCondition e name b) h"
  unfolding removeMaintenanceModeCondition_def mm_request_defs
proof (rule emits_retry, rule emits_request_andthen, rule assms(2))
  fix h n assume live: "nodes_Get e h name = Inr n"
  have phase: "CanDisableMaintenanceMode (Some c) \<longleftrightarrow>
      (\<exists>r \<in> {NodeConditionReasonEvacuating, NodeConditionReasonCompleted, NodeConditionReasonError}.
         mm_phase n = Some (ConditionTrue, r))"
    "IsMaintenanceModeCondition (Some c) ConditionFalse [NodeConditionReasonError] \<longleftrightarrow>
      mm_phase n = Some (ConditionFalse, NodeConditionReasonError)"
    if "GetMaintenanceModeCondition n = Some c" for c
    using CanDisable_phase [of n] IsMaintenanceModeCondition_phase [of n ConditionFalse "[NodeConditionReasonError]"]
    by (simp_all add: that)
  show "emits P (case GetMaintenanceModeCondition n of
            None \<Rightarrow> ret (Inr ())
          | Some c \<Rightarrow>
              if b \<and> (HasDrainRequest n \<or> IsForcedDrainRequested n)
              then ret (Inl (api_error ''Maintenance mode error cannot be cleared until the previous request is cleaned up''))
              else if b \<and> \<not> IsMaintenanceModeCondition (Some c) ConditionFalse [NodeConditionReasonError]
              then ret (Inl (api_error ''Only a maintenance mode pre-check error can be cleared''))
              else if \<not> b \<and> (\<not> CanDisableMaintenanceMode (Some c) \<or> HasDrainRequest n)
              then ret (Inl (api_error ''Maintenance mode state was modified concurrently, please refresh and check the node status''))
              else ignore_result (request (NodesUpdateStatus (fst (RemoveMaintenanceModeCondition n)))
                 (\<lambda>h. nodes_UpdateStatus e h (fst (RemoveMaintenanceModeCondition n)))))
          (h @ [NodesGet name])"
    by (intro emits_case_option emits_if emits_return emits_ignore_result emits_request assms(1))
      (use live in \<open>auto simp: removal_write_def phase\<close>)
qed

lemma emits_retry_update:
  assumes "\<And>h live. nodes_Get e h name = Inr live \<Longrightarrow> P (h @ [NodesGet name]) (NodesUpdate (f live))"
    and "\<And>h. P h (NodesGet name)"
  shows "emits P (retryMaintenanceModeUpdate e name f) h"
  unfolding retryMaintenanceModeUpdate_def mm_request_defs
  by (rule emits_retry, rule emits_request_andthen, rule assms(2), intro emits_ignore_result emits_request assms(1))

text \<open>An update that succeeds is in the history.\<close>

lemma retry_success:
  assumes "\<And>h a h'. run_state fn h = (Inr a, h') \<Longrightarrow> Q h'" and "run_state (retry_on_conflict k fn) h = (Inr a, h')"
  shows "Q h'"
  using assms(2)
proof (induction k arbitrary: h)
  case 0
  then show ?case using assms(1) by simp
next
  case (Suc k)
  then show ?case using assms(1) by (auto split: prod.splits sum.splits if_splits)
qed

lemma retryMaintenanceModeUpdate_written:
  assumes "run_state (retryMaintenanceModeUpdate e name f) h = (Inr (), h')"
  shows "\<exists>h0 live x. h' = h0 @ [NodesGet name, NodesUpdate (f live)] \<and> nodes_Get e h0 name = Inr live \<and>
    nodes_Update e (h0 @ [NodesGet name]) (f live) = Inr x"
  using assms unfolding retryMaintenanceModeUpdate_def
proof (rule retry_success [rotated])
  fix h :: "mm_call list" and a h'
  assume "run_state (andthen (nodes_get e name) (\<lambda>n. ignore_result (nodes_update e (f n)))) h = (Inr a, h')"
  then show "\<exists>h0 live x. h' = h0 @ [NodesGet name, NodesUpdate (f live)] \<and> nodes_Get e h0 name = Inr live \<and>
      nodes_Update e (h0 @ [NodesGet name]) (f live) = Inr x"
    by (auto simp: mm_request_defs ignore_result_def split: sum.splits)
qed

lemma emits_extends: "emits P m h \<Longrightarrow> run_state m h = (a, h') \<Longrightarrow> \<exists>cs. h' = h @ cs"
  by (auto elim: emits_run)

lemma emits_restart_any: "emits (\<lambda>_ _. True) (RestartMaintenanceModeVMsOnNode e n s) h"
  by (rule emits_restart) simp_all

text \<open>
  Disabling: the condition is removed only after the API server has accepted an update that uncordons
  the node, drops the drain taint and clears the request.
\<close>

definition restored :: "mm_env \<Rightarrow> string \<Rightarrow> mm_call list \<Rightarrow> bool" where
  "restored e name h \<longleftrightarrow> (\<exists>h0 live h1 x. h = h0 @ NodesGet name # NodesUpdate (disableMaintenanceModeFunc live) # h1 \<and>
     nodes_Get e h0 name = Inr live \<and> nodes_Update e (h0 @ [NodesGet name]) (disableMaintenanceModeFunc live) = Inr x)"

lemma restored_mono: "restored e name h \<Longrightarrow> restored e name (h @ cs)"
  unfolding restored_def by fastforce

lemma restored_run:
  "run_state (retryMaintenanceModeUpdate e name disableMaintenanceModeFunc) h = (Inr (), h') \<Longrightarrow> restored e name h'"
  using retryMaintenanceModeUpdate_written unfolding restored_def by fastforce

definition disable_policy :: "mm_env \<Rightarrow> string \<Rightarrow> mm_call list \<Rightarrow> mm_call \<Rightarrow> bool" where
  "disable_policy e name h c =
     (case c of
        NodesUpdateStatus n' \<Rightarrow> removal_write e name False h n' \<and> restored e name h
      | NodesUpdate n' \<Rightarrow> (\<exists>h0 live. h = h0 @ [NodesGet name] \<and> nodes_Get e h0 name = Inr live \<and>
          n' = disableMaintenanceModeFunc live)
      | VMsUpdate v' \<Rightarrow> restart_write e name h v'
      | NodesGet x \<Rightarrow> x = name
      | VMsGet _ _ \<Rightarrow> True
      | _ \<Rightarrow> False)"

lemma emits_disable: "emits (disable_policy e name) (disableMaintenanceMode e name) h"
proof -
  let ?P = "disable_policy e name"
  have upd: "emits ?P (retryMaintenanceModeUpdate e name disableMaintenanceModeFunc) h" for h
    by (rule emits_retry_update) (auto simp: disable_policy_def)
  have rst: "emits ?P (RestartMaintenanceModeVMsOnNode e name s) h" for s h
    by (rule emits_restart) (auto simp: disable_policy_def)
  have rem: "emits ?P (removeMaintenanceModeCondition e name False) h"
    if "restored e name h" for h
  proof -
    let ?Q = "\<lambda>h' c. case c of NodesUpdateStatus n' \<Rightarrow> removal_write e name False h' n' | _ \<Rightarrow> c = NodesGet name"
    have "emits ?Q (removeMaintenanceModeCondition e name False) h"
      by (rule emits_remove) auto
    from emits_after [OF this] show ?thesis
      by (rule emits_mono) (use restored_mono [OF that] in \<open>auto simp: disable_policy_def split: mm_call.splits\<close>)
  qed
  show ?thesis
    unfolding disableMaintenanceMode_def mm_request_defs
    apply (rule emits_request_andthen)
     apply (simp add: disable_policy_def)
    apply (intro emits_if emits_return)
    apply (unfold andthen_def)
    apply (rule emits_bind [OF upd])
    apply (intro emits_case_sum emits_return)
    apply (rule emits_bind [OF rst])
    apply (intro emits_case_sum emits_return)
    apply (auto dest!: restored_run emits_extends [OF emits_restart_any] intro!: rem restored_mono)
    done
qed

lemma emits_maintain_completed:
  "emits (\<lambda>h c. \<forall>n'. c = NodesUpdateStatus n' \<longrightarrow>
      mm_phase n = Some (ConditionTrue, NodeConditionReasonEvacuating) \<and>
      guarded_write e (node_Name n) ConditionTrue NodeConditionReasonEvacuating ConditionTrue
        NodeConditionReasonCompleted MaintenanceModeMessageCompleted h c \<and>
      (\<exists>vmis. vmiCache_List e = Inr vmis \<and>
         (\<forall>v \<in> set vmis. sget (vmi_Labels v) LabelNodeNameKey \<noteq> Some (node_Name n))))
    (OnNodeChanged_maintain e (Some n)) h"
proof -
  have listed: "\<exists>vmis. vmiCache_List e = Inr vmis \<and> (\<forall>v \<in> set vmis. sget (vmi_Labels v) LabelNodeNameKey \<noteq> Some (node_Name n))"
    if "ListByNode (newRequirement e) (vmiCache_List e) n (\<lambda>_. True) = Inr vs" "\<not> vs \<noteq> []" for vs
    using that by (auto simp: ListByNode_def filter_empty_conv split: sum.splits)
  have phase: "mm_phase n = Some (ConditionTrue, NodeConditionReasonEvacuating)"
    if "IsMaintenanceModeCondition (GetMaintenanceModeCondition n) ConditionTrue [NodeConditionReasonEvacuating]"
    using that by (simp add: IsMaintenanceModeCondition_phase)
  show ?thesis
    unfolding OnNodeChanged_maintain_def option.case enqueue_after_def
    by (intro emits_if emits_case_sum emits_return emits_bindI emits_request emits_andthen emits_restart emits_guarded)
      (auto dest: listed phase)
qed

subsection \<open>Offered actions\<close>

lemma offered_enable:
  "''enableMaintenanceMode'' \<in> set (Formatter_actions True (Inr n)) \<longleftrightarrow>
     GetMaintenanceModeCondition n = None \<and> \<not> HasDrainRequest n"
  by (auto simp: Formatter_actions_def split: option.splits if_splits)

lemma offered_disable:
  "''disableMaintenanceMode'' \<in> set (Formatter_actions True (Inr n)) \<longleftrightarrow> CanNodeDisableMaintenanceMode n"
  by (auto simp: Formatter_actions_def CanNodeDisableMaintenanceMode_def CanDisableMaintenanceMode_def
      IsMaintenanceModeDrainComplete_def IsMaintenanceModeCondition_def split: option.splits if_splits)

lemma offered_clear:
  "''clearMaintenanceMode'' \<in> set (Formatter_actions True (Inr n)) \<longleftrightarrow>
     mm_phase n = Some (ConditionFalse, NodeConditionReasonError) \<and> \<not> HasDrainRequest n \<and> \<not> IsForcedDrainRequested n"
  by (auto simp: Formatter_actions_def mm_phase_def IsMaintenanceModeCondition_def split: option.splits if_splits)

lemma enable_outcome:
  assumes "\<And>h. nodes_Get e h name = Inr n" and "\<And>h m. nodes_Update e h m = Inr m"
  shows "outcome (enableMaintenanceMode e (Inr force) name) = Inr () \<longleftrightarrow>
    GetMaintenanceModeCondition n = None \<and> \<not> HasDrainRequest n"
  by (auto simp: outcome_def enableMaintenanceMode_def mm_request_defs assms numeral_eq_Suc api_error_def ignore_result_def)

lemma emits_remove_any: "emits (\<lambda>_ _. True) (removeMaintenanceModeCondition e name b) h"
  by (rule emits_remove) simp_all

lemma disable_issued:
  assumes "\<And>h. nodes_Get e h name = Inr n" and "\<And>h m. nodes_Update e h m = Inr m"
  shows "NodesUpdate (disableMaintenanceModeFunc n) \<in> set (issued (disableMaintenanceMode e name)) \<longleftrightarrow>
    CanNodeDisableMaintenanceMode n"
proof (cases "CanNodeDisableMaintenanceMode n")
  case True
  let ?u = "NodesUpdate (disableMaintenanceModeFunc n)"
  let ?rest = "andthen (RestartMaintenanceModeVMsOnNode e name MaintainModeStrategyShutdownAndRestartAfterDisable)
     (\<lambda>_. removeMaintenanceModeCondition e name False)"
  have "emits (\<lambda>_ _. True) ?rest [NodesGet name, NodesGet name, ?u]"
    by (intro emits_andthen emits_restart_any emits_remove_any)
  then obtain cs where "snd (run_state ?rest [NodesGet name, NodesGet name, ?u]) = [NodesGet name, NodesGet name, ?u] @ cs"
    unfolding emits_def by blast
  with True show ?thesis
    by (simp add: issued_def disableMaintenanceMode_def retryMaintenanceModeUpdate_def mm_request_defs assms
        numeral_eq_Suc ignore_result_def)
next
  case False
  then show ?thesis by (simp add: issued_def disableMaintenanceMode_def mm_request_defs assms)
qed

lemma clear_issued:
  assumes "\<And>h. nodes_Get e h name = Inr n" and "\<And>h m. nodes_UpdateStatus e h m = Inr m"
  shows "NodesUpdateStatus (fst (RemoveMaintenanceModeCondition n)) \<in> set (issued (clearMaintenanceMode e name)) \<longleftrightarrow>
    mm_phase n = Some (ConditionFalse, NodeConditionReasonError) \<and> \<not> HasDrainRequest n \<and> \<not> IsForcedDrainRequested n"
  by (cases "GetMaintenanceModeCondition n")
    (auto simp: issued_def clearMaintenanceMode_def removeMaintenanceModeCondition_def mm_request_defs assms
      numeral_eq_Suc ignore_result_def api_error_def mm_phase_def IsMaintenanceModeCondition_def)

section \<open>Properties\<close>

text \<open>
  C15. The maintain controller marks maintenance as completed only when the cached node is
  Evacuating, no VM instance is listed on the node, and the live node read directly before the
  write is still Evacuating.
\<close>

theorem completed_only_when_evacuated:
  assumes "issued (OnNodeChanged_maintain e (Some n)) = pre @ NodesUpdateStatus n' # post"
  shows "mm_phase n = Some (ConditionTrue, NodeConditionReasonEvacuating) \<and>
    (\<exists>vmis. vmiCache_List e = Inr vmis \<and>
       (\<forall>v \<in> set vmis. sget (vmi_Labels v) LabelNodeNameKey \<noteq> Some (node_Name n))) \<and>
    (\<exists>h0 live. pre = h0 @ [NodesGet (node_Name n), ClockNow] \<and> nodes_Get e h0 (node_Name n) = Inr live \<and>
       mm_phase live = Some (ConditionTrue, NodeConditionReasonEvacuating)) \<and>
    mm_phase n' = Some (ConditionTrue, NodeConditionReasonCompleted)"
  using emits_issued [OF emits_maintain_completed assms] by (auto simp: guarded_write_def)

definition sample_evacuating :: node where
  "sample_evacuating = sample_node ''n1'' [] [] [sample_condition ConditionTrue NodeConditionReasonEvacuating]"

lemma sample_evacuating_name: "node_Name sample_evacuating = ''n1''"
  by (simp add: sample_evacuating_def sample_node_def)

theorem completed_only_when_evacuated_witness:
  "mm_phase sample_evacuating = Some (ConditionTrue, NodeConditionReasonEvacuating) \<and>
   (\<exists>live. nodes_Get (sample_env [] sample_evacuating 0) [] ''n1'' = Inr live \<and>
      mm_phase live = Some (ConditionTrue, NodeConditionReasonEvacuating))"
proof -
  have "issued (OnNodeChanged_maintain (sample_env [] sample_evacuating 0) (Some sample_evacuating)) =
    [NodesGet ''n1'', ClockNow] @ NodesUpdateStatus (fst (SetMaintenanceModeCondition 1 sample_evacuating
      ConditionTrue NodeConditionReasonCompleted MaintenanceModeMessageCompleted)) # []"
    by code_simp
  note fin = completed_only_when_evacuated [OF this, unfolded sample_evacuating_name]
  then obtain h0 live where "[NodesGet ''n1'', ClockNow] = h0 @ [NodesGet ''n1'', ClockNow]"
    "nodes_Get (sample_env [] sample_evacuating 0) h0 ''n1'' = Inr live"
    "mm_phase live = Some (ConditionTrue, NodeConditionReasonEvacuating)" by blast
  with fin show ?thesis by auto
qed

text \<open>
  C16. Disabling removes the maintenance condition only from a live node that is Evacuating,
  Completed or in Error with status True and has no drain request, and only after the API server has
  accepted an update of that node, as it was read directly before, that uncordons it, removes the drain
  taint and clears the request; every VM it updates was tracked for the node.
\<close>

theorem disable_removes_condition_last:
  assumes "issued (disableMaintenanceMode e name) = pre @ c # post"
  shows "(\<forall>n'. c = NodesUpdateStatus n' \<longrightarrow> mm_phase n' = None \<and>
      (\<exists>h0 live r. pre = h0 @ [NodesGet name] \<and> nodes_Get e h0 name = Inr live \<and>
         mm_phase live = Some (ConditionTrue, r) \<and> \<not> HasDrainRequest live \<and>
         (r = NodeConditionReasonEvacuating \<or> r = NodeConditionReasonCompleted \<or> r = NodeConditionReasonError)) \<and>
      (\<exists>h0 live u h1 x. pre = h0 @ NodesGet name # NodesUpdate u # h1 \<and> nodes_Get e h0 name = Inr live \<and>
         nodes_Update e (h0 @ [NodesGet name]) u = Inr x \<and> node_Name u = node_Name live \<and>
         node_ResourceVersion u = node_ResourceVersion live \<and> \<not> node_Unschedulable u \<and> \<not> HasDrainRequest u \<and>
         \<not> IsForcedDrainRequested u \<and> (\<forall>t \<in> set (node_Taints u). taint_Key t \<noteq> UpgradeNodeDrainTaintKey))) \<and>
    (\<forall>v'. c = VMsUpdate v' \<longrightarrow> restart_write e name pre v')"
proof -
  have cleared: "\<not> node_Unschedulable (disableMaintenanceModeFunc n)" "\<not> HasDrainRequest (disableMaintenanceModeFunc n)"
    "\<not> IsForcedDrainRequested (disableMaintenanceModeFunc n)"
    "\<forall>t \<in> set (node_Taints (disableMaintenanceModeFunc n)). taint_Key t \<noteq> UpgradeNodeDrainTaintKey"
    "node_Name (disableMaintenanceModeFunc n) = node_Name n"
    "node_ResourceVersion (disableMaintenanceModeFunc n) = node_ResourceVersion n" for n
    by (simp_all add: disableMaintenanceModeFunc_def)
  have policy: "disable_policy e name pre c" by (rule emits_issued [OF emits_disable assms])
  have "\<exists>h0 live u h1 x. pre = h0 @ NodesGet name # NodesUpdate u # h1 \<and> nodes_Get e h0 name = Inr live \<and>
      nodes_Update e (h0 @ [NodesGet name]) u = Inr x \<and> node_Name u = node_Name live \<and>
      node_ResourceVersion u = node_ResourceVersion live \<and> \<not> node_Unschedulable u \<and> \<not> HasDrainRequest u \<and>
      \<not> IsForcedDrainRequested u \<and> (\<forall>t \<in> set (node_Taints u). taint_Key t \<noteq> UpgradeNodeDrainTaintKey)"
    if "restored e name pre"
    using that cleared unfolding restored_def by blast
  with policy show ?thesis
    by (auto simp: disable_policy_def removal_write_def split: mm_call.splits)
qed

theorem disable_removes_condition_last_witness:
  "\<exists>h0 live r. [NodesGet ''n1'', NodesGet ''n1'', NodesUpdate (sample_evacuating), NodesGet ''n1''] = h0 @ [NodesGet ''n1''] \<and>
     nodes_Get (sample_env [] sample_evacuating 0) h0 ''n1'' = Inr live \<and> mm_phase live = Some (ConditionTrue, r)"
proof -
  have "issued (disableMaintenanceMode (sample_env [] sample_evacuating 0) ''n1'') =
    [NodesGet ''n1'', NodesGet ''n1'', NodesUpdate (sample_evacuating), NodesGet ''n1''] @
    NodesUpdateStatus (fst (RemoveMaintenanceModeCondition sample_evacuating)) # []"
    by code_simp
  from disable_removes_condition_last [OF this] show ?thesis by blast
qed

text \<open>
  Clearing removes the condition only from a live node in Error with status False whose drain
  request has been cleaned up.
\<close>

theorem clear_only_precheck_errors:
  assumes "issued (clearMaintenanceMode e name) = pre @ NodesUpdateStatus n' # post"
  shows "mm_phase n' = None \<and> (\<exists>h0 live. pre = h0 @ [NodesGet name] \<and> nodes_Get e h0 name = Inr live \<and>
     mm_phase live = Some (ConditionFalse, NodeConditionReasonError) \<and>
     \<not> HasDrainRequest live \<and> \<not> IsForcedDrainRequested live)"
proof -
  have "emits (\<lambda>h c. \<forall>n'. c = NodesUpdateStatus n' \<longrightarrow> removal_write e name True h n') (clearMaintenanceMode e name) []"
    unfolding clearMaintenanceMode_def by (rule emits_remove) auto
  from emits_issued [OF this assms] show ?thesis by (auto simp: removal_write_def)
qed

definition sample_failed :: node where
  "sample_failed = sample_node ''n1'' [] [] [sample_condition ConditionFalse NodeConditionReasonError]"

theorem clear_only_precheck_errors_witness:
  "mm_phase (fst (RemoveMaintenanceModeCondition sample_failed)) = None \<and>
   (\<exists>h0 live. [NodesGet ''n1''] = h0 @ [NodesGet ''n1''] \<and>
     nodes_Get (sample_env [] sample_failed 0) h0 ''n1'' = Inr live \<and>
     mm_phase live = Some (ConditionFalse, NodeConditionReasonError))"
proof -
  have "issued (clearMaintenanceMode (sample_env [] sample_failed 0) ''n1'') =
    [NodesGet ''n1''] @ NodesUpdateStatus (fst (RemoveMaintenanceModeCondition sample_failed)) # []"
    by code_simp
  from clear_only_precheck_errors [OF this] show ?thesis by blast
qed

text \<open>
  The maintenance actions offered for a node are the ones its handlers act on: as long as the
  live node is the one shown and writes succeed, enabling is offered exactly when the handler
  accepts it, disabling exactly when the handler uncordons the node, and clearing exactly when
  the handler removes the condition.
\<close>

lemma offered_actions_are_accepted:
  assumes "\<And>h. nodes_Get e h (node_Name n) = Inr n" and "\<And>h m. nodes_Update e h m = Inr m"
    and "\<And>h m. nodes_UpdateStatus e h m = Inr m"
  shows "(''enableMaintenanceMode'' \<in> set (Formatter_actions True (Inr n)) \<longleftrightarrow>
      outcome (enableMaintenanceMode e (Inr force) (node_Name n)) = Inr ()) \<and>
    (''disableMaintenanceMode'' \<in> set (Formatter_actions True (Inr n)) \<longleftrightarrow>
      NodesUpdate (disableMaintenanceModeFunc n) \<in> set (issued (disableMaintenanceMode e (node_Name n)))) \<and>
    (''clearMaintenanceMode'' \<in> set (Formatter_actions True (Inr n)) \<longleftrightarrow>
      NodesUpdateStatus (fst (RemoveMaintenanceModeCondition n)) \<in> set (issued (clearMaintenanceMode e (node_Name n))))"
proof (intro conjI)
  show "''enableMaintenanceMode'' \<in> set (Formatter_actions True (Inr n)) \<longleftrightarrow>
      outcome (enableMaintenanceMode e (Inr force) (node_Name n)) = Inr ()"
    by (simp add: offered_enable enable_outcome [OF assms(1,2)])
  show "''disableMaintenanceMode'' \<in> set (Formatter_actions True (Inr n)) \<longleftrightarrow>
      NodesUpdate (disableMaintenanceModeFunc n) \<in> set (issued (disableMaintenanceMode e (node_Name n)))"
    by (simp add: offered_disable disable_issued [OF assms(1,2)])
  show "''clearMaintenanceMode'' \<in> set (Formatter_actions True (Inr n)) \<longleftrightarrow>
      NodesUpdateStatus (fst (RemoveMaintenanceModeCondition n)) \<in> set (issued (clearMaintenanceMode e (node_Name n)))"
    by (simp add: offered_clear clear_issued [OF assms(1,3)])
qed

lemma offered_actions_are_accepted_witness:
  "''disableMaintenanceMode'' \<in> set (Formatter_actions True (Inr sample_evacuating)) \<and>
   NodesUpdate (disableMaintenanceModeFunc sample_evacuating) \<in>
     set (issued (disableMaintenanceMode (sample_env [] sample_evacuating 0) ''n1''))"
proof -
  have "''disableMaintenanceMode'' \<in> set (Formatter_actions True (Inr sample_evacuating))"
    by code_simp
  then show ?thesis
    using offered_actions_are_accepted [of "sample_env [] sample_evacuating 0" sample_evacuating]
    by (simp add: sample_env_def sample_evacuating_name)
qed

end
