(* ===== verification/Node_Power.thy ===== *)
theory Node_Power
  imports Node_Maintain
begin

text \<open>
  Power actions of the node API (\<^verbatim>\<open>powerActionPossible\<close>, \<^verbatim>\<open>powerAction\<close> and \<^verbatim>\<open>fetchInventoryObject\<close>
  of \<^verbatim>\<open>pkg/api/node/formatter.go\<close>).

  The seeder inventory is an unstructured object; \<open>inventory\<close> holds what the nested accessors
  return for the three paths the code reads: nothing, a value of the expected type, or an error.
  \<open>inv_setStatus\<close> is the outcome of \<^verbatim>\<open>SetNestedMap\<close> on \<^verbatim>\<open>.status\<close>, and \<open>inv_setSpec\<close> that of
  \<^verbatim>\<open>SetNestedField\<close> on \<^verbatim>\<open>.spec\<close>. Both handlers talk to the API server only through the requests
  of \<open>power_call\<close>.
\<close>

datatype 'a nested = Missing | Present 'a | Malformed go_error

record inventory =
  inv_Name :: string
  inv_status :: "string nested"
  inv_powerAction :: "(string \<times> string) list nested"
  inv_powerActionRequested :: "string nested"
  inv_setSpec :: "unit result"
  inv_setStatus :: "unit result"

datatype power_call =
    LiveNodeGet string
  | InventoryGet string
  | InventoryUpdate inventory
  | InventoryUpdateStatus inventory

record power_env =
  live_node :: "power_call list \<Rightarrow> string \<Rightarrow> node result"
  inventory_Get :: "power_call list \<Rightarrow> string \<Rightarrow> inventory result"
  inventory_Update :: "power_call list \<Rightarrow> inventory \<Rightarrow> inventory result"
  inventory_UpdateStatus :: "power_call list \<Rightarrow> inventory \<Rightarrow> inventory result"
  seederAddon_Enabled :: "bool result"

definition fetchInventoryObject :: "power_env \<Rightarrow> string \<Rightarrow> (power_call, inventory result) act" where
  "fetchInventoryObject e name = request (InventoryGet name) (\<lambda>h. inventory_Get e h name)"

definition possiblePowerActions :: "string list" where
  "possiblePowerActions = [''shutdown'', ''poweron'', ''reboot'']"

text \<open>The result pairs the HTTP status code that is written, if any, with the returned error.\<close>

definition powerActionPossible :: "power_env \<Rightarrow> string \<Rightarrow> (power_call, nat option \<times> unit result) act" where
  "powerActionPossible e name =
     (case seederAddon_Enabled e of
        Inl err \<Rightarrow> if is_not_found err then ret (Some 424, Inr ()) else ret (None, Inl err)
      | Inr enabled \<Rightarrow>
          if \<not> enabled then ret (Some 424, Inr ())
          else do {
            r \<leftarrow> fetchInventoryObject e name;
            case r of
              Inl err \<Rightarrow> if is_not_found err then ret (Some 424, Inr ()) else ret (None, Inl err)
            | Inr inventoryObject \<Rightarrow>
                (case inv_status inventoryObject of
                   Malformed err \<Rightarrow> ret (Some 409, Inl err)
                 | Missing \<Rightarrow> ret (Some 409, Inl (ErrorString (''no field .status.status present in inventory object: '' @ name)))
                 | Present val \<Rightarrow>
                     if val \<noteq> ''inventoryNodeReady''
                     then ret (Some 409, Inl (ErrorString (''expected to find inventory '' @ name @
                            '' status inventoryNodeReady, but current status is: '' @ val)))
                     else ret (Some 204, Inr ())) })"

definition powerAction :: "power_env \<Rightarrow> node \<Rightarrow> string \<Rightarrow> (power_call, unit result) act" where
  "powerAction e n operation =
     andthen (request (LiveNodeGet (node_Name n)) (\<lambda>h. live_node e h (node_Name n))) (\<lambda>liveNode.
       if \<not> IsNodeMaintenanceModeDrainComplete liveNode
       then ret (Inl (api_error ''Power actions are unavailable in the current maintenance mode state''))
       else if operation \<notin> set possiblePowerActions
       then ret (Inl (ErrorString (''operation '' @ operation @ '' is not a valid power opreation. valid values need to be in [shutdown poweron reboot]'')))
       else andthen (fetchInventoryObject e (node_Name liveNode)) (\<lambda>iObj.
         case inv_powerAction iObj of
           Malformed err \<Rightarrow> ret (Inl err)
         | pa \<Rightarrow>
             (case inv_powerActionRequested iObj of
                Malformed err \<Rightarrow> ret (Inl err)
              | old \<Rightarrow>
                  let powerActionMap = (case pa of Present m \<Rightarrow> m | _ \<Rightarrow> []);
                      waiting = (case old of
                          Present oldPowerAction \<Rightarrow>
                            (case map_of powerActionMap ''actionStatus'' of
                               None \<Rightarrow> Some oldPowerAction
                             | Some val \<Rightarrow> if val = [] then Some oldPowerAction else None)
                        | _ \<Rightarrow> None)
                  in (case waiting of
                        Some oldPowerAction \<Rightarrow>
                          ret (Inl (ErrorString (''waiting for power action status for action '' @ oldPowerAction @
                             '' for node '' @ node_Name liveNode @ '' to be populated'')))
                      | None \<Rightarrow>
                          (case inv_setSpec iObj of
                             Inl err \<Rightarrow> ret (Inl err)
                           | Inr _ \<Rightarrow>
                               let requested = iObj\<lparr>inv_powerActionRequested := Present operation\<rparr>
                               in andthen (request (InventoryUpdate requested) (\<lambda>h. inventory_Update e h requested)) (\<lambda>iObjUpdate.
                                    case inv_setStatus iObjUpdate of
                                      Inl err \<Rightarrow> ret (Inl err)
                                    | Inr _ \<Rightarrow>
                                        let final = iObjUpdate\<lparr>inv_powerAction := Present (AList.update ''lastJobName'' [] powerActionMap)\<rparr>
                                        in andthen (request (InventoryUpdateStatus final) (\<lambda>h. inventory_UpdateStatus e h final))
                                             (\<lambda>_. ret (Inr ()))))))))"

section \<open>Lemmas\<close>

definition power_policy :: "power_env \<Rightarrow> string \<Rightarrow> power_call list \<Rightarrow> power_call \<Rightarrow> bool" where
  "power_policy e operation h c =
     (case c of
        InventoryUpdate i \<Rightarrow>
          (\<exists>name live iObj. h = [LiveNodeGet name, InventoryGet (node_Name live)] \<and> live_node e [] name = Inr live \<and>
             (\<exists>r \<in> {NodeConditionReasonEvacuating, NodeConditionReasonCompleted}. mm_phase live = Some (ConditionTrue, r)) \<and>
             operation \<in> set possiblePowerActions \<and>
             inventory_Get e [LiveNodeGet name] (node_Name live) = Inr iObj \<and>
             (inv_powerActionRequested iObj = Missing \<or>
              (\<exists>m s. inv_powerAction iObj = Present m \<and> map_of m ''actionStatus'' = Some s \<and> s \<noteq> [])) \<and>
             i = iObj\<lparr>inv_powerActionRequested := Present operation\<rparr>)
      | InventoryUpdateStatus i \<Rightarrow>
          (\<exists>m. inv_powerAction i = Present m \<and> map_of m ''lastJobName'' = Some []) \<and>
          (\<exists>u. InventoryUpdate u \<in> set h)
      | _ \<Rightarrow> True)"

lemma IsNodeMaintenanceModeDrainComplete_phase:
  "IsNodeMaintenanceModeDrainComplete n \<longleftrightarrow>
     (\<exists>r \<in> {NodeConditionReasonEvacuating, NodeConditionReasonCompleted}. mm_phase n = Some (ConditionTrue, r))"
  by (simp add: IsNodeMaintenanceModeDrainComplete_def IsMaintenanceModeDrainComplete_def IsMaintenanceModeCondition_phase)

lemma emits_powerAction: "emits (power_policy e operation) (powerAction e n operation) []"
  unfolding powerAction_def fetchInventoryObject_def Let_def
  by (auto intro!: emits_request_andthen emits_return emits_request
      simp: power_policy_def IsNodeMaintenanceModeDrainComplete_phase update_conv'
      split: nested.splits option.splits sum.splits if_splits)

section \<open>Properties\<close>

text \<open>
  A power action is requested only for a valid operation on a node whose live maintenance
  phase is Evacuating or Completed, and only when no earlier request is still waiting for its
  status; the job name is reset only after the request has been written.
\<close>

theorem power_action_guarded:
  assumes "issued (powerAction e n operation) = pre @ c # post"
  shows "power_policy e operation pre c"
  by (rule emits_issued [OF emits_powerAction assms])

definition sample_inventory :: inventory where
  "sample_inventory = \<lparr>inv_Name = ''n1'', inv_status = Present ''inventoryNodeReady'',
     inv_powerAction = Present [(''actionStatus'', ''complete'')], inv_powerActionRequested = Present ''reboot'',
     inv_setSpec = Inr (), inv_setStatus = Inr ()\<rparr>"

definition sample_power_env :: power_env where
  "sample_power_env = \<lparr>live_node = \<lambda>h name. Inr sample_evacuating, inventory_Get = \<lambda>h name. Inr sample_inventory,
     inventory_Update = \<lambda>h i. Inr i, inventory_UpdateStatus = \<lambda>h i. Inr i, seederAddon_Enabled = Inr True\<rparr>"

theorem power_action_guarded_witness:
  "power_policy sample_power_env ''shutdown'' [LiveNodeGet ''n1'', InventoryGet ''n1'']
     (InventoryUpdate (sample_inventory\<lparr>inv_powerActionRequested := Present ''shutdown''\<rparr>))"
proof -
  have "issued (powerAction sample_power_env sample_evacuating ''shutdown'') =
    [LiveNodeGet ''n1'', InventoryGet ''n1''] @
    InventoryUpdate (sample_inventory\<lparr>inv_powerActionRequested := Present ''shutdown''\<rparr>) #
    [InventoryUpdateStatus (sample_inventory\<lparr>inv_powerActionRequested := Present ''shutdown'',
       inv_powerAction := Present [(''actionStatus'', ''complete''), (''lastJobName'', [])]\<rparr>)]"
    by code_simp
  then show ?thesis by (rule power_action_guarded)
qed

end
