(* ===== verification/Maintenance_Protocol.thy ===== *)
theory Maintenance_Protocol
  imports Node_Maintain
begin

text \<open>
  Concurrent node maintenance. The API server orders the writes of all node objects in a log; the
  controllers read an informer cache that has seen a prefix of it, while status writes go through
  a live read with optimistic concurrency, so that each lands on the current version.

  \<open>handler_step\<close> lets the modelled handlers run concurrently: its writes are the accepted status
  writes of the node-drain reconcile, the maintain controller and the disable and clear actions,
  and a reconcile reads the cache when it starts and writes later. The work queue never runs two
  reconciles of one node at a time. The flag says whether a reconcile of a node only starts when
  the cache has seen every write of that node.

  \<open>maintenance_step\<close> is the abstract protocol: the status changes as atomic steps, with the
  reconciles that have passed the pre-check but not yet written Draining in \<open>cl_verdict\<close>. Its
  invariant carries over to the worlds of the handlers.
\<close>

section \<open>Cluster states\<close>

record cluster =
  cl_init :: "node list"
  cl_log :: "node list"
  cl_seen :: nat
  cl_verdict :: "string list"

definition apply_write :: "node \<Rightarrow> node list \<Rightarrow> node list" where
  "apply_write w ns = map (\<lambda>n. if node_Name n = node_Name w then w else n) ns"

definition snapshot :: "node list \<Rightarrow> node list \<Rightarrow> node list" where
  "snapshot ns ws = fold apply_write ws ns"

definition cached_nodes :: "cluster \<Rightarrow> node list" where
  "cached_nodes cl = snapshot (cl_init cl) (take (cl_seen cl) (cl_log cl))"

definition live_nodes :: "cluster \<Rightarrow> node list" where
  "live_nodes cl = snapshot (cl_init cl) (cl_log cl)"

definition seen_all :: "cluster \<Rightarrow> string \<Rightarrow> bool" where
  "seen_all cl name \<longleftrightarrow> list_all (\<lambda>w. node_Name w \<noteq> name) (drop (cl_seen cl) (cl_log cl))"

definition log_write :: "cluster \<Rightarrow> node \<Rightarrow> cluster" where
  "log_write cl w = cl\<lparr>cl_log := cl_log cl @ [w]\<rparr>"

inductive maintenance_step :: "bool \<Rightarrow> cluster \<Rightarrow> cluster \<Rightarrow> bool" for own where
  see:
    "cl_seen cl < length (cl_log cl) \<Longrightarrow> maintenance_step own cl (cl\<lparr>cl_seen := Suc (cl_seen cl)\<rparr>)"
| other_write:
    "m \<in> set (live_nodes cl) \<Longrightarrow> node_Name w = node_Name m \<Longrightarrow> node_Labels w = node_Labels m \<Longrightarrow>
     mm_phase w = mm_phase m \<Longrightarrow> maintenance_step own cl (log_write cl w)"
| start:
    "n \<in> set (cached_nodes cl) \<Longrightarrow> node_Name n \<notin> set (cl_verdict cl) \<Longrightarrow> own \<longrightarrow> seen_all cl (node_Name n) \<Longrightarrow>
     mm_phase n = None \<Longrightarrow> HasDrainRequest n \<Longrightarrow>
     m \<in> set (live_nodes cl) \<Longrightarrow> node_Name m = node_Name n \<Longrightarrow>
     maintenance_step own cl (log_write cl (fst (SetMaintenanceModeCondition t m
       ConditionTrue NodeConditionReasonValidating MaintenanceModeMessageValidating)))"
| check_passed:
    "n \<in> set (cached_nodes cl) \<Longrightarrow> node_Name n \<notin> set (cl_verdict cl) \<Longrightarrow> own \<longrightarrow> seen_all cl (node_Name n) \<Longrightarrow>
     mm_reason n = Some NodeConditionReasonValidating \<Longrightarrow> HasDrainRequest n \<Longrightarrow>
     DrainPossible (Inr (cached_nodes cl)) n = Inr () \<Longrightarrow>
     maintenance_step own cl (cl\<lparr>cl_verdict := node_Name n # cl_verdict cl\<rparr>)"
| check_failed:
    "n \<in> set (cached_nodes cl) \<Longrightarrow> node_Name n \<notin> set (cl_verdict cl) \<Longrightarrow> own \<longrightarrow> seen_all cl (node_Name n) \<Longrightarrow>
     mm_reason n = Some NodeConditionReasonValidating \<Longrightarrow> HasDrainRequest n \<Longrightarrow>
     m \<in> set (live_nodes cl) \<Longrightarrow> node_Name m = node_Name n \<Longrightarrow>
     maintenance_step own cl (log_write cl (fst (SetMaintenanceModeCondition t m
       ConditionFalse NodeConditionReasonError msg)))"
| admit:
    "name \<in> set (cl_verdict cl) \<Longrightarrow> m \<in> set (live_nodes cl) \<Longrightarrow> node_Name m = name \<Longrightarrow>
     maintenance_step own cl (log_write (cl\<lparr>cl_verdict := removeAll name (cl_verdict cl)\<rparr>)
       (fst (SetMaintenanceModeCondition t m ConditionTrue NodeConditionReasonDraining MaintenanceModeMessageDraining)))"
| give_up:
    "maintenance_step own cl (cl\<lparr>cl_verdict := removeAll name (cl_verdict cl)\<rparr>)"
| drain_finished:
    "m \<in> set (live_nodes cl) \<Longrightarrow> mm_phase m = Some (ConditionTrue, NodeConditionReasonDraining) \<Longrightarrow>
     r = NodeConditionReasonEvacuating \<or> r = NodeConditionReasonError \<Longrightarrow>
     maintenance_step own cl (log_write cl (fst (SetMaintenanceModeCondition t m ConditionTrue r msg)))"
| completed:
    "m \<in> set (live_nodes cl) \<Longrightarrow> mm_phase m = Some (ConditionTrue, NodeConditionReasonEvacuating) \<Longrightarrow>
     maintenance_step own cl (log_write cl (fst (SetMaintenanceModeCondition t m
       ConditionTrue NodeConditionReasonCompleted MaintenanceModeMessageCompleted)))"
| removed:
    "m \<in> set (live_nodes cl) \<Longrightarrow>
     mm_phase m \<in> {Some (ConditionTrue, NodeConditionReasonEvacuating), Some (ConditionTrue, NodeConditionReasonCompleted),
       Some (ConditionTrue, NodeConditionReasonError), Some (ConditionFalse, NodeConditionReasonError)} \<Longrightarrow>
     maintenance_step own cl (log_write cl (fst (RemoveMaintenanceModeCondition m)))"


text \<open>Phases in which the node has been admitted to maintenance by a pre-check.\<close>

definition admitted :: "node \<Rightarrow> bool" where
  "admitted n \<longleftrightarrow> mm_phase n \<in> {Some (ConditionTrue, NodeConditionReasonDraining),
     Some (ConditionTrue, NodeConditionReasonEvacuating), Some (ConditionTrue, NodeConditionReasonCompleted),
     Some (ConditionTrue, NodeConditionReasonError)}"

section \<open>Invariant\<close>

definition legal_phase :: "node \<Rightarrow> bool" where
  "legal_phase n \<longleftrightarrow> admitted n \<or> mm_phase n \<in> {None, Some (ConditionTrue, NodeConditionReasonValidating),
     Some (ConditionFalse, NodeConditionReasonError)}"

definition protected :: "cluster \<Rightarrow> string \<Rightarrow> bool" where
  "protected cl x \<longleftrightarrow> x \<in> set (cl_verdict cl) \<or> (\<exists>m \<in> set (live_nodes cl). node_Name m = x \<and> admitted m)"

definition cluster_inv :: "cluster \<Rightarrow> bool" where
  "cluster_inv cl \<longleftrightarrow>
     distinct (map node_Name (cl_init cl)) \<and> cl_seen cl \<le> length (cl_log cl) \<and>
     card {n \<in> set (cl_init cl). is_control_plane n} \<le> 3 \<and>
     (\<forall>n \<in> set (cl_init cl) \<union> set (cl_log cl). legal_phase n) \<and>
     (\<forall>w \<in> set (cl_log cl). \<exists>n \<in> set (cl_init cl). node_Name n = node_Name w \<and> node_Labels n = node_Labels w) \<and>
     (\<forall>m \<in> set (live_nodes cl). node_Name m \<in> set (cl_verdict cl) \<longrightarrow>
        mm_phase m = Some (ConditionTrue, NodeConditionReasonValidating)) \<and>
     (\<forall>j. cl_seen cl \<le> j \<longrightarrow> (\<forall>n \<in> set (snapshot (cl_init cl) (take j (cl_log cl))).
        protected cl (node_Name n) \<longrightarrow> IsMaintenanceModeEngaged n)) \<and>
     (\<forall>n \<in> set (cl_init cl). \<forall>m \<in> set (cl_init cl). is_control_plane n \<longrightarrow> is_control_plane m \<longrightarrow>
        protected cl (node_Name n) \<longrightarrow> protected cl (node_Name m) \<longrightarrow> n = m)"

lemma apply_write_names [simp]: "map node_Name (apply_write w ns) = map node_Name ns"
  by (simp add: apply_write_def)

lemma snapshot_names [simp]: "map node_Name (snapshot ns ws) = map node_Name ns"
  unfolding snapshot_def by (induction ws arbitrary: ns) auto

lemma snapshot_snoc [simp]: "snapshot ns (ws @ [w]) = apply_write w (snapshot ns ws)"
  by (simp add: snapshot_def)

lemma snapshot_Nil [simp]: "snapshot ns [] = ns"
  by (simp add: snapshot_def)

lemma snapshot_name_set: "node_Name ` set (snapshot ns ws) = node_Name ` set ns"
  by (metis list.set_map snapshot_names)

lemma in_apply_write:
  "n \<in> set (apply_write w ns) \<longleftrightarrow> n \<in> set ns \<and> node_Name n \<noteq> node_Name w \<or> n = w \<and> node_Name w \<in> node_Name ` set ns"
proof -
  have "node_Name w \<in> node_Name ` set ns \<longleftrightarrow> (\<exists>x \<in> set ns. node_Name x = node_Name w)"
    by (auto simp: image_iff) metis
  then show ?thesis by (auto simp: apply_write_def image_iff)
qed

lemma snapshot_elem: "n \<in> set (snapshot ns ws) \<Longrightarrow> n \<in> set ns \<or> n \<in> set ws"
  by (induction ws rule: rev_induct) (auto simp: in_apply_write)

lemma cluster_invI:
  assumes "distinct (map node_Name (cl_init cl))" and "cl_seen cl \<le> length (cl_log cl)"
    and "card {n \<in> set (cl_init cl). is_control_plane n} \<le> 3"
    and "\<And>n. n \<in> set (cl_init cl) \<Longrightarrow> legal_phase n" and "\<And>w. w \<in> set (cl_log cl) \<Longrightarrow> legal_phase w"
    and "\<And>w. w \<in> set (cl_log cl) \<Longrightarrow> \<exists>n \<in> set (cl_init cl). node_Name n = node_Name w \<and> node_Labels n = node_Labels w"
    and "\<And>m. m \<in> set (live_nodes cl) \<Longrightarrow> node_Name m \<in> set (cl_verdict cl) \<Longrightarrow>
        mm_phase m = Some (ConditionTrue, NodeConditionReasonValidating)"
    and "\<And>j n. cl_seen cl \<le> j \<Longrightarrow> n \<in> set (snapshot (cl_init cl) (take j (cl_log cl))) \<Longrightarrow>
        protected cl (node_Name n) \<Longrightarrow> IsMaintenanceModeEngaged n"
    and "\<And>n m. n \<in> set (cl_init cl) \<Longrightarrow> m \<in> set (cl_init cl) \<Longrightarrow> is_control_plane n \<Longrightarrow> is_control_plane m \<Longrightarrow>
        protected cl (node_Name n) \<Longrightarrow> protected cl (node_Name m) \<Longrightarrow> n = m"
  shows "cluster_inv cl"
  using assms unfolding cluster_inv_def by blast

lemma cluster_invD:
  assumes "cluster_inv cl"
  shows "distinct (map node_Name (cl_init cl))" and "cl_seen cl \<le> length (cl_log cl)"
    and "card {n \<in> set (cl_init cl). is_control_plane n} \<le> 3"
    and "\<And>n. n \<in> set (cl_init cl) \<Longrightarrow> legal_phase n" and "\<And>w. w \<in> set (cl_log cl) \<Longrightarrow> legal_phase w"
    and "\<forall>w \<in> set (cl_log cl). \<exists>n \<in> set (cl_init cl). node_Name n = node_Name w \<and> node_Labels n = node_Labels w"
    and "\<And>m. m \<in> set (live_nodes cl) \<Longrightarrow> node_Name m \<in> set (cl_verdict cl) \<Longrightarrow>
        mm_phase m = Some (ConditionTrue, NodeConditionReasonValidating)"
    and "\<And>j n. cl_seen cl \<le> j \<Longrightarrow> n \<in> set (snapshot (cl_init cl) (take j (cl_log cl))) \<Longrightarrow>
        protected cl (node_Name n) \<Longrightarrow> IsMaintenanceModeEngaged n"
    and "\<And>n m. n \<in> set (cl_init cl) \<Longrightarrow> m \<in> set (cl_init cl) \<Longrightarrow> is_control_plane n \<Longrightarrow> is_control_plane m \<Longrightarrow>
        protected cl (node_Name n) \<Longrightarrow> protected cl (node_Name m) \<Longrightarrow> n = m"
  using assms unfolding cluster_inv_def by blast+

lemma snapshot_append_other:
  "list_all (\<lambda>w. node_Name w \<noteq> node_Name n) ws \<Longrightarrow> n \<in> set (snapshot ns (vs @ ws)) \<longleftrightarrow> n \<in> set (snapshot ns vs)"
proof (induction ws rule: rev_induct)
  case (snoc w ws)
  then show ?case
    using snapshot_snoc [of ns "vs @ ws" w] by (auto simp: in_apply_write)
qed simp

lemma seen_all_snapshot:
  assumes "seen_all cl (node_Name n)" and "cl_seen cl \<le> j"
  shows "n \<in> set (snapshot (cl_init cl) (take j (cl_log cl))) \<longleftrightarrow> n \<in> set (cached_nodes cl)"
proof -
  have "take j (cl_log cl) = take (cl_seen cl) (cl_log cl) @ take (j - cl_seen cl) (drop (cl_seen cl) (cl_log cl))"
    using assms(2) by (metis le_add_diff_inverse take_add)
  moreover have "list_all (\<lambda>w. node_Name w \<noteq> node_Name n) (take (j - cl_seen cl) (drop (cl_seen cl) (cl_log cl)))"
    using assms(1) unfolding seen_all_def by (meson in_set_takeD list_all_iff)
  ultimately show ?thesis by (simp add: cached_nodes_def snapshot_append_other)
qed

lemma snapshot_labels:
  assumes "\<forall>w \<in> set ws. \<exists>n \<in> set ns. node_Name n = node_Name w \<and> node_Labels n = node_Labels w"
    and "n \<in> set (snapshot ns ws)"
  shows "\<exists>n0 \<in> set ns. node_Name n0 = node_Name n \<and> node_Labels n0 = node_Labels n"
  using snapshot_elem [OF assms(2)] assms(1) by auto

lemma is_control_plane_labels: "node_Labels n = node_Labels m \<Longrightarrow> is_control_plane n = is_control_plane m"
  by (simp add: is_control_plane_def)

lemma same_name_eq: "distinct (map node_Name ns) \<Longrightarrow> n \<in> set ns \<Longrightarrow> m \<in> set ns \<Longrightarrow> node_Name n = node_Name m \<Longrightarrow> n = m"
  by (auto simp: distinct_map dest: inj_onD)

lemma snapshot_distinct: "distinct (map node_Name ns) \<Longrightarrow> distinct (map node_Name (snapshot ns ws))"
  by simp

text \<open>A snapshot has as many control-plane nodes as the cluster started with.\<close>

lemma snapshot_control_planes:
  assumes d: "distinct (map node_Name ns)"
    and l: "\<forall>w \<in> set ws. \<exists>n \<in> set ns. node_Name n = node_Name w \<and> node_Labels n = node_Labels w"
  shows "card {n \<in> set (snapshot ns ws). is_control_plane n} \<le> card {n \<in> set ns. is_control_plane n}"
proof -
  let ?A = "{n \<in> set (snapshot ns ws). is_control_plane n}" and ?B = "{n \<in> set ns. is_control_plane n}"
  have "node_Name ` ?A \<subseteq> node_Name ` ?B"
  proof
    fix x assume "x \<in> node_Name ` ?A"
    then obtain n where n: "n \<in> set (snapshot ns ws)" "is_control_plane n" "x = node_Name n" by blast
    from snapshot_labels [OF l n(1)] obtain n0 where "n0 \<in> set ns" "node_Name n0 = x" "node_Labels n0 = node_Labels n"
      using n(3) by auto
    moreover then have "is_control_plane n0" using n(2) is_control_plane_labels by metis
    ultimately show "x \<in> node_Name ` ?B" by blast
  qed
  moreover have "inj_on node_Name ?A"
    using same_name_eq [OF snapshot_distinct [OF d]] by (auto intro!: inj_onI)
  ultimately have "card ?A \<le> card (node_Name ` ?B)"
    using card_mono [of "node_Name ` ?B" "node_Name ` ?A"] by (simp add: card_image)
  also have "\<dots> \<le> card ?B" by (rule card_image_le) simp
  finally show ?thesis .
qed

lemma DrainPossible_others:
  assumes "distinct (map node_Name ns)" and "card {n \<in> set ns. is_control_plane n} \<le> 3"
    and "n \<in> set ns" and "is_control_plane n" and "DrainPossible (Inr ns) n = Inr ()"
    and "m \<in> set ns" and "is_control_plane m" and "m \<noteq> n"
  shows "\<not> IsMaintenanceModeEngaged m"
proof -
  let ?O = "{v \<in> set ns. is_control_plane v \<and> node_Name v \<noteq> node_Name n}"
  let ?A = "{v \<in> set ns. is_control_plane v \<and> node_Name v \<noteq> node_Name n \<and> \<not> IsMaintenanceModeEngaged v}"
  have "?O \<subset> {v \<in> set ns. is_control_plane v}" using assms(3,4) by auto
  then have "card ?O < card {v \<in> set ns. is_control_plane v}" by (rule psubset_card_mono [rotated]) simp
  then have "card ?O \<le> 2" using assms(2) by linarith
  moreover have "card ?A = 2" using DrainPossible_iff [OF assms(1,4,3)] assms(5) by simp
  moreover have "?A \<subseteq> ?O" by auto
  ultimately have "?A = ?O" by (intro card_seteq) auto
  moreover have "m \<in> ?O" using assms(6-8) same_name_eq [OF assms(1) assms(6,3)] by auto
  ultimately show ?thesis by blast
qed

lemma admitted_engaged: "admitted n \<Longrightarrow> IsMaintenanceModeEngaged n"
  by (auto simp: admitted_def IsMaintenanceModeEngaged_iff)

lemma live_snapshot: "live_nodes cl = snapshot (cl_init cl) (take (length (cl_log cl)) (cl_log cl))"
  by (simp add: live_nodes_def)

text \<open>A write that admits no node keeps the invariant.\<close>

lemma inv_log_write:
  assumes inv: "cluster_inv cl" and m: "m \<in> set (live_nodes cl)" "node_Name w = node_Name m" "node_Labels w = node_Labels m"
    and legal: "legal_phase w" and V: "set V' \<subseteq> set (cl_verdict cl)"
    and verdict: "node_Name w \<in> set V' \<Longrightarrow> mm_phase w = Some (ConditionTrue, NodeConditionReasonValidating)"
    and prot: "admitted w \<Longrightarrow> protected cl (node_Name w)"
  shows "cluster_inv (log_write (cl\<lparr>cl_verdict := V'\<rparr>) w)" (is "cluster_inv ?cl")
proof -
  have lv: "live_nodes ?cl = apply_write w (live_nodes cl)"
    by (simp add: live_nodes_def log_write_def)
  have shrink: "protected cl x" if "protected ?cl x" for x
  proof (cases "x = node_Name w")
    case True
    with that V prot show ?thesis
      unfolding protected_def lv by (auto simp: in_apply_write log_write_def)
  next
    case False
    with that V show ?thesis
      unfolding protected_def lv by (auto simp: in_apply_write log_write_def)
  qed
  have engaged_w: "IsMaintenanceModeEngaged w" if "protected ?cl (node_Name w)"
    using that verdict admitted_engaged [of w]
    unfolding protected_def lv by (auto simp: in_apply_write log_write_def IsMaintenanceModeEngaged_iff)
  have eng: "IsMaintenanceModeEngaged n"
    if "cl_seen cl \<le> j" "n \<in> set (snapshot (cl_init cl) (take j (cl_log cl @ [w])))" "protected ?cl (node_Name n)" for j n
  proof (cases "j \<le> length (cl_log cl)")
    case True
    then have "n \<in> set (snapshot (cl_init cl) (take j (cl_log cl)))" using that(2) by simp
    then show ?thesis using cluster_invD(8) [OF inv that(1)] shrink [OF that(3)] by blast
  next
    case False
    then have "n \<in> set (apply_write w (live_nodes cl))" using that(2) by (simp add: live_nodes_def)
    then consider "n = w" | "n \<in> set (live_nodes cl)" by (auto simp: in_apply_write)
    then show ?thesis
    proof cases
      case 1
      then show ?thesis using engaged_w that(3) by simp
    next
      case 2
      then show ?thesis using cluster_invD(8) [OF inv cluster_invD(2) [OF inv]] shrink [OF that(3)]
        unfolding live_snapshot by blast
    qed
  qed
  have labels: "\<exists>n \<in> set (cl_init cl). node_Name n = node_Name w \<and> node_Labels n = node_Labels w"
    using snapshot_labels [OF cluster_invD(6) [OF inv]] m unfolding live_nodes_def by metis
  have ph: "mm_phase x = Some (ConditionTrue, NodeConditionReasonValidating)"
    if "x \<in> set (live_nodes ?cl)" "node_Name x \<in> set V'" for x
    using that verdict cluster_invD(7) [OF inv] V unfolding lv by (auto simp: in_apply_write)
  show ?thesis
  proof (rule cluster_invI)
    fix w' assume "w' \<in> set (cl_log ?cl)"
    then have "w' = w \<or> w' \<in> set (cl_log cl)" by (auto simp: log_write_def)
    then show "legal_phase w'" "\<exists>n \<in> set (cl_init ?cl). node_Name n = node_Name w' \<and> node_Labels n = node_Labels w'"
      using legal labels cluster_invD(5,6) [OF inv] by (auto simp: log_write_def)
  next
    fix n m assume "n \<in> set (cl_init ?cl)" "m \<in> set (cl_init ?cl)" "is_control_plane n" "is_control_plane m"
      "protected ?cl (node_Name n)" "protected ?cl (node_Name m)"
    then show "n = m" using cluster_invD(9) [OF inv] shrink by (simp add: log_write_def)
  qed (use cluster_invD(1-4) [OF inv] ph eng in \<open>simp_all add: log_write_def\<close>)
qed

lemma live_legal: "cluster_inv cl \<Longrightarrow> m \<in> set (live_nodes cl) \<Longrightarrow> legal_phase m"
  unfolding live_nodes_def using snapshot_elem cluster_invD(4,5) by blast

lemma admitted_protected: "m \<in> set (live_nodes cl) \<Longrightarrow> admitted m \<Longrightarrow> protected cl (node_Name m)"
  by (auto simp: protected_def)

lemma inv_set_condition:
  assumes "cluster_inv cl" and "m \<in> set (live_nodes cl)"
    and "legal_phase (fst (SetMaintenanceModeCondition t m s r msg))"
    and "set V' \<subseteq> set (cl_verdict cl)" and "node_Name m \<notin> set V'"
    and "admitted (fst (SetMaintenanceModeCondition t m s r msg)) \<Longrightarrow> protected cl (node_Name m)"
  shows "cluster_inv (log_write (cl\<lparr>cl_verdict := V'\<rparr>) (fst (SetMaintenanceModeCondition t m s r msg)))"
  by (rule inv_log_write [OF assms(1,2)]) (use assms in simp_all)

lemma inv_set_condition_same:
  assumes "cluster_inv cl" and "m \<in> set (live_nodes cl)"
    and "legal_phase (fst (SetMaintenanceModeCondition t m s r msg))" and "node_Name m \<notin> set (cl_verdict cl)"
    and "admitted (fst (SetMaintenanceModeCondition t m s r msg)) \<Longrightarrow> protected cl (node_Name m)"
  shows "cluster_inv (log_write cl (fst (SetMaintenanceModeCondition t m s r msg)))"
  using inv_set_condition [OF assms(1-3), of "cl_verdict cl"] assms(4,5) by simp

lemma inv_see:
  assumes "cluster_inv cl" and "cl_seen cl < length (cl_log cl)"
  shows "cluster_inv (cl\<lparr>cl_seen := Suc (cl_seen cl)\<rparr>)"
proof -
  have "protected (cl\<lparr>cl_seen := Suc (cl_seen cl)\<rparr>) = protected cl"
    by (simp add: protected_def live_nodes_def fun_eq_iff)
  then show ?thesis
    using cluster_invD [OF assms(1)] assms(2)
    by (intro cluster_invI) (simp_all add: live_nodes_def Suc_le_eq, meson less_imp_le_nat)
qed

lemma inv_give_up:
  assumes "cluster_inv cl"
  shows "cluster_inv (cl\<lparr>cl_verdict := removeAll x (cl_verdict cl)\<rparr>)"
proof -
  have "protected (cl\<lparr>cl_verdict := removeAll x (cl_verdict cl)\<rparr>) y \<Longrightarrow> protected cl y" for y
    by (auto simp: protected_def live_nodes_def)
  then show ?thesis
    using cluster_invD [OF assms] by (intro cluster_invI) (simp_all add: live_nodes_def)
qed

lemma inv_check_passed:
  assumes inv: "cluster_inv cl" and n: "n \<in> set (cached_nodes cl)" and fresh: "seen_all cl (node_Name n)"
    and r: "mm_reason n = Some NodeConditionReasonValidating"
    and ok: "DrainPossible (Inr (cached_nodes cl)) n = Inr ()"
  shows "cluster_inv (cl\<lparr>cl_verdict := node_Name n # cl_verdict cl\<rparr>)" (is "cluster_inv ?cl")
proof -
  have lab: "\<forall>w \<in> set (take (cl_seen cl) (cl_log cl)). \<exists>n \<in> set (cl_init cl). node_Name n = node_Name w \<and> node_Labels n = node_Labels w"
    using cluster_invD(6) [OF inv] by (meson in_set_takeD)
  have dist: "distinct (map node_Name (cached_nodes cl))"
    using cluster_invD(1) [OF inv] by (simp add: cached_nodes_def)
  have "legal_phase n"
    using n snapshot_elem cluster_invD(4,5) [OF inv] unfolding cached_nodes_def by (meson in_set_takeD)
  then have phase: "mm_phase n = Some (ConditionTrue, NodeConditionReasonValidating)"
    using r by (auto simp: legal_phase_def admitted_def mm_reason_def)
  then have engaged: "IsMaintenanceModeEngaged n" by (simp add: IsMaintenanceModeEngaged_iff)
  have same: "m = n" if "cl_seen cl \<le> j" "m \<in> set (snapshot (cl_init cl) (take j (cl_log cl)))" "node_Name m = node_Name n" for j m
    using that seen_all_snapshot [of cl m j] fresh n same_name_eq [OF dist] by simp
  have prot: "protected ?cl x \<longleftrightarrow> x = node_Name n \<or> protected cl x" for x
    by (auto simp: protected_def live_nodes_def)
  have cp: "card {n \<in> set (cached_nodes cl). is_control_plane n} \<le> 3"
    using snapshot_control_planes [OF cluster_invD(1) [OF inv] lab] cluster_invD(3) [OF inv]
    unfolding cached_nodes_def by linarith
  have alone: "\<not> protected cl (node_Name y)"
    if y: "y \<in> set (cl_init cl)" "is_control_plane y" "node_Name y \<noteq> node_Name n" "is_control_plane n" for y
  proof
    assume p: "protected cl (node_Name y)"
    have "node_Name y \<in> node_Name ` set (cached_nodes cl)"
      unfolding cached_nodes_def snapshot_name_set using y(1) by simp
    then obtain y' where y': "y' \<in> set (cached_nodes cl)" "node_Name y' = node_Name y" by force
    from snapshot_labels [OF lab] y' obtain y0 where "y0 \<in> set (cl_init cl)" "node_Name y0 = node_Name y'" "node_Labels y0 = node_Labels y'"
      unfolding cached_nodes_def by blast
    with y y'(2) same_name_eq [OF cluster_invD(1) [OF inv], of y0 y] have "is_control_plane y'"
      using is_control_plane_labels by metis
    with DrainPossible_others [OF dist cp n y(4) ok y'(1)] y(3) y'(2) have "\<not> IsMaintenanceModeEngaged y'" by metis
    moreover have "IsMaintenanceModeEngaged y'"
      using cluster_invD(8) [OF inv, of "cl_seen cl" y'] y' p unfolding cached_nodes_def by simp
    ultimately show False by contradiction
  qed
  have init_cp: "is_control_plane n" if "x \<in> set (cl_init cl)" "node_Name x = node_Name n" "is_control_plane x" for x
  proof -
    from snapshot_labels [OF lab] n obtain n0 where "n0 \<in> set (cl_init cl)" "node_Name n0 = node_Name n" "node_Labels n0 = node_Labels n"
      unfolding cached_nodes_def by blast
    with that same_name_eq [OF cluster_invD(1) [OF inv], of n0 x] show ?thesis using is_control_plane_labels by metis
  qed
  show ?thesis
  proof (rule cluster_invI)
    fix m assume m: "m \<in> set (live_nodes ?cl)" "node_Name m \<in> set (cl_verdict ?cl)"
    then show "mm_phase m = Some (ConditionTrue, NodeConditionReasonValidating)"
      using same [OF cluster_invD(2) [OF inv], of m] phase cluster_invD(7) [OF inv, of m]
      by (auto simp: live_nodes_def)
  next
    fix j x assume "cl_seen ?cl \<le> j" "x \<in> set (snapshot (cl_init ?cl) (take j (cl_log ?cl)))" "protected ?cl (node_Name x)"
    then show "IsMaintenanceModeEngaged x"
      using same [of j x] engaged cluster_invD(8) [OF inv, of j x] by (auto simp: prot)
  next
    fix x y assume xy: "x \<in> set (cl_init ?cl)" "y \<in> set (cl_init ?cl)" "is_control_plane x" "is_control_plane y"
      "protected ?cl (node_Name x)" "protected ?cl (node_Name y)"
    have "node_Name x = node_Name y"
    proof (cases "node_Name x = node_Name n \<or> node_Name y = node_Name n")
      case True
      then have "is_control_plane n" using init_cp [of x] init_cp [of y] xy by auto
      then show ?thesis using True alone [of x] alone [of y] xy unfolding prot by simp metis
    next
      case False
      then have "protected cl (node_Name x)" "protected cl (node_Name y)" using xy(5,6) by (simp_all add: prot)
      then show ?thesis using cluster_invD(9) [OF inv, of x y] xy(1-4) by simp
    qed
    then show "x = y" using xy(1,2) same_name_eq [OF cluster_invD(1) [OF inv]] by simp
  qed (use cluster_invD(1-6) [OF inv] in simp_all)
qed

text \<open>Every step keeps the invariant when reconciles see the writes of their own node.\<close>

lemma maintenance_step_inv:
  assumes "maintenance_step True cl cl'" and inv: "cluster_inv cl"
  shows "cluster_inv cl'"
  using assms(1)
proof cases
  case see
  then show ?thesis using inv_see [OF inv] by simp
next
  case (other_write m w)
  have "cluster_inv (log_write (cl\<lparr>cl_verdict := cl_verdict cl\<rparr>) w)"
  proof (rule inv_log_write [OF inv other_write(2-4)])
    show "legal_phase w" using live_legal [OF inv other_write(2)] other_write(5) by (simp add: legal_phase_def admitted_def)
    show "node_Name w \<in> set (cl_verdict cl) \<Longrightarrow> mm_phase w = Some (ConditionTrue, NodeConditionReasonValidating)"
      using cluster_invD(7) [OF inv other_write(2)] other_write(3,5) by simp
    show "admitted w \<Longrightarrow> protected cl (node_Name w)"
      using admitted_protected [OF other_write(2)] other_write(3,5) by (simp add: admitted_def)
  qed simp
  then show ?thesis using other_write by simp
next
  case (start n m t)
  show ?thesis unfolding start(1)
    by (rule inv_set_condition_same [OF inv start(7)]) (use start in \<open>simp_all add: legal_phase_def admitted_def\<close>)
next
  case (check_passed n)
  then show ?thesis using inv_check_passed [OF inv] by simp
next
  case (check_failed n m t msg)
  show ?thesis unfolding check_failed(1)
    by (rule inv_set_condition_same [OF inv check_failed(7)]) (use check_failed in \<open>simp_all add: legal_phase_def admitted_def\<close>)
next
  case (admit name m t)
  have "protected cl (node_Name m)" using admit by (simp add: protected_def)
  then show ?thesis unfolding admit(1)
    by (intro inv_set_condition [OF inv admit(3)]) (use admit in \<open>auto simp: legal_phase_def admitted_def\<close>)
next
  case (give_up name)
  then show ?thesis using inv_give_up [OF inv] by simp
next
  case (drain_finished m r t msg)
  then have "admitted m" "node_Name m \<notin> set (cl_verdict cl)"
    using cluster_invD(7) [OF inv drain_finished(2)] by (auto simp: admitted_def)
  then show ?thesis unfolding drain_finished(1)
    by (intro inv_set_condition_same [OF inv drain_finished(2)])
      (use drain_finished admitted_protected [OF drain_finished(2)] in \<open>auto simp: legal_phase_def admitted_def\<close>)
next
  case (completed m t)
  then have "admitted m" "node_Name m \<notin> set (cl_verdict cl)"
    using cluster_invD(7) [OF inv completed(2)] by (auto simp: admitted_def)
  then show ?thesis unfolding completed(1)
    by (intro inv_set_condition_same [OF inv completed(2)])
      (use completed admitted_protected [OF completed(2)] in \<open>auto simp: legal_phase_def admitted_def\<close>)
next
  case (removed m)
  have "cluster_inv (log_write (cl\<lparr>cl_verdict := cl_verdict cl\<rparr>) (fst (RemoveMaintenanceModeCondition m)))"
    by (rule inv_log_write [OF inv removed(2)])
      (use removed(3) cluster_invD(7) [OF inv removed(2)] in
        \<open>auto simp: RemoveMaintenanceModeCondition_frame legal_phase_def admitted_def\<close>)
  then show ?thesis using removed by simp
qed

lemma maintenance_reachable_inv:
  assumes "(maintenance_step True)\<^sup>*\<^sup>* cl cl'" and "cluster_inv cl"
  shows "cluster_inv cl'"
  using assms by induction (auto intro: maintenance_step_inv)


section \<open>The handlers take protocol steps\<close>

text \<open>
  A status write of a node-drain reconcile that read the current version of the node is a step of
  the protocol, or two steps when the reconcile passes the pre-check and then admits the node.
\<close>

lemma mm_reason_None: "mm_reason n = None \<longleftrightarrow> mm_phase n = None"
  by (simp add: mm_reason_def)

lemma drain_write_steps:
  assumes "drain_status_write e n h (NodesUpdateStatus w)"
    and "nodeCache_List e = Inr (cached_nodes cl)" and "n \<in> set (cached_nodes cl)"
    and "node_Name n \<notin> set (cl_verdict cl)" and "own \<longrightarrow> seen_all cl (node_Name n)"
    and live: "\<And>h0 m. h = h0 @ [NodesGet (node_Name n), ClockNow] \<Longrightarrow> nodes_Get e h0 (node_Name n) = Inr m \<Longrightarrow>
       m \<in> set (live_nodes cl) \<and> node_Name m = node_Name n"
  shows "(maintenance_step own)\<^sup>*\<^sup>* cl (log_write cl w)"
proof -
  note st = assms(2-5)
  have live': "\<exists>m. m \<in> set (live_nodes cl) \<and> node_Name m = node_Name n \<and>
      (\<exists>t. w = fst (SetMaintenanceModeCondition t m ts tr msg))"
    if "unguarded_write e (node_Name n) ts tr msg h (NodesUpdateStatus w)" for ts tr msg
    using that live by (auto simp: unguarded_write_def)
  have finish: ?thesis if "guarded_write e (node_Name n) ConditionTrue NodeConditionReasonDraining ConditionTrue r msg h (NodesUpdateStatus w)"
    and r: "r = NodeConditionReasonEvacuating \<or> r = NodeConditionReasonError" for r msg
  proof -
    from that(1) obtain m t where m: "m \<in> set (live_nodes cl)"
      "mm_phase m = Some (ConditionTrue, NodeConditionReasonDraining)"
      "w = fst (SetMaintenanceModeCondition t m ConditionTrue r msg)"
      using live by (auto simp: guarded_write_def)
    then show ?thesis using maintenance_step.drain_finished [OF m(1,2) r] by (simp add: r_into_rtranclp)
  qed
  from assms(1) show ?thesis
    unfolding drain_status_write_def mm_reason_None
  proof (elim disjE conjE exE, goal_cases)
    case 1
    from live' [OF 1(3)] obtain m t where m: "m \<in> set (live_nodes cl)" "node_Name m = node_Name n"
      "w = fst (SetMaintenanceModeCondition t m ConditionTrue NodeConditionReasonValidating MaintenanceModeMessageValidating)"
      by blast
    then show ?case using maintenance_step.start [OF st(2-4) 1(1,2) m(1,2)] by (simp add: r_into_rtranclp)
  next
    case 2
    from live' [OF 2(4)] obtain m t where m: "m \<in> set (live_nodes cl)" "node_Name m = node_Name n"
      "w = fst (SetMaintenanceModeCondition t m ConditionTrue NodeConditionReasonDraining MaintenanceModeMessageDraining)"
      by blast
    let ?cl = "cl\<lparr>cl_verdict := node_Name n # cl_verdict cl\<rparr>"
    have "maintenance_step own cl ?cl"
      by (rule maintenance_step.check_passed [OF st(2-4) 2(1,2)]) (use 2(3) st(1) in simp)
    moreover have "maintenance_step own ?cl
        (log_write (?cl\<lparr>cl_verdict := removeAll (node_Name n) (cl_verdict ?cl)\<rparr>) w)"
      unfolding m(3) by (rule maintenance_step.admit) (use m in \<open>simp_all add: live_nodes_def\<close>)
    moreover have "?cl\<lparr>cl_verdict := removeAll (node_Name n) (cl_verdict ?cl)\<rparr> = cl"
      using st(3) by simp
    ultimately show ?case by (simp add: converse_rtranclp_into_rtranclp r_into_rtranclp)
  next
    case (3 msg)
    from live' [OF 3(3)] obtain m t where m: "m \<in> set (live_nodes cl)" "node_Name m = node_Name n"
      "w = fst (SetMaintenanceModeCondition t m ConditionFalse NodeConditionReasonError msg)"
      by blast
    then show ?case using maintenance_step.check_failed [OF st(2-4) 3(1,2) m(1,2)] by (simp add: r_into_rtranclp)
  qed (auto intro: finish)
qed


section \<open>Nodes by name\<close>


definition validating :: "node \<Rightarrow> bool" where
  "validating n \<longleftrightarrow> mm_reason n = Some NodeConditionReasonValidating \<and> HasDrainRequest n"

definition sample_control_planes :: "node list" where
  "sample_control_planes =
     map (\<lambda>x. sample_node x [(KubeControlPlaneNodeLabelKey, ''true'')] [(DrainAnnotation, ''true'')] []) [''a'', ''b'', ''c'']"

section \<open>One accepted status write per reconcile\<close>

text \<open>A status write is only repeated after the earlier one was refused.\<close>

definition refused :: "mm_env \<Rightarrow> mm_call list \<Rightarrow> mm_call \<Rightarrow> bool" where
  "refused e h c \<longleftrightarrow> (\<forall>w. c = NodesUpdateStatus w \<longrightarrow> (\<exists>err. nodes_UpdateStatus e h w = Inl err))"

abbreviation none_accepted :: "mm_env \<Rightarrow> mm_call list \<Rightarrow> bool" where
  "none_accepted e h \<equiv> trace_ok (refused e) [] h"

abbreviation one_write :: "mm_env \<Rightarrow> mm_call list \<Rightarrow> mm_call \<Rightarrow> bool" where
  "one_write e h c \<equiv> (\<exists>w. c = NodesUpdateStatus w) \<longrightarrow> none_accepted e h"

lemma quiet_none_accepted:
  assumes "emits (\<lambda>h c. \<forall>w. c \<noteq> NodesUpdateStatus w) m h" and "run_state m h = (a, h')" and "none_accepted e h"
  shows "none_accepted e h'"
proof -
  obtain cs where "h' = h @ cs" "trace_ok (\<lambda>h c. \<forall>w. c \<noteq> NodesUpdateStatus w) h cs"
    using assms(1,2) by (auto simp: emits_def)
  moreover from this(2) have "trace_ok (refused e) h cs" by (rule trace_ok_mono) (simp add: refused_def)
  ultimately show ?thesis using assms(3) by (simp add: trace_ok_append)
qed

lemma emits_quiet_bind:
  assumes quiet: "emits (\<lambda>h c. \<forall>w. c \<noteq> NodesUpdateStatus w) m h" and "none_accepted e h"
    and "\<And>a h'. none_accepted e h' \<Longrightarrow> emits (one_write e) (f a) h'"
  shows "emits (one_write e) (State_Monad.bind m f) h"
proof (rule emits_bind)
  show "emits (one_write e) m h" by (rule emits_mono [OF quiet]) auto
qed (auto intro: assms quiet_none_accepted)

lemma emits_quiet_andthen:
  assumes "emits (\<lambda>h c. \<forall>w. c \<noteq> NodesUpdateStatus w) m h" and "none_accepted e h"
    and "\<And>a h'. none_accepted e h' \<Longrightarrow> emits (one_write e) (f a) h'"
  shows "emits (one_write e) (andthen m f) h"
  unfolding andthen_def by (rule emits_quiet_bind [OF assms(1,2)]) (auto intro!: emits_case_sum emits_return assms(3))

lemma emits_one_retry:
  assumes "\<And>h. none_accepted e h \<Longrightarrow> emits (one_write e) fn h"
    and "\<And>h err h'. none_accepted e h \<Longrightarrow> run_state fn h = (Inl err, h') \<Longrightarrow> none_accepted e h'"
    and "none_accepted e h"
  shows "emits (one_write e) (retry_on_conflict k fn) h"
  using assms(3)
proof (induction k arbitrary: h)
  case 0
  then show ?case by (simp add: assms(1))
next
  case (Suc k)
  show ?case unfolding retry_on_conflict.simps
    by (rule emits_bind [OF assms(1) [OF Suc.prems]])
      (auto intro!: emits_case_sum emits_if emits_return Suc.IH intro: assms(2) [OF Suc.prems])
qed

lemma emits_one_update:
  assumes "none_accepted e h"
  shows "emits (one_write e) (UpdateMaintenanceModeCondition e name s r msg) h"
  unfolding UpdateMaintenanceModeCondition_def
  by (rule emits_one_retry [OF _ _ assms])
    (auto simp: emits_def mm_request_defs Let_def split_beta trace_ok_append refused_def split: sum.splits if_splits)

lemma emits_one_transition:
  assumes "none_accepted e h"
  shows "emits (one_write e) (TransitionMaintenanceModeCondition e name fs fr s r msg) h"
  unfolding TransitionMaintenanceModeCondition_def
  by (rule emits_one_retry [OF _ _ assms])
    (auto simp: emits_def mm_request_defs Let_def split_beta trace_ok_append refused_def split: sum.splits if_splits)

lemma emits_one_clear: "emits (one_write e) (clearDrainRequest e n) h"
  by (rule emits_clearDrainRequest) simp

lemma emits_one_run_drain: "none_accepted e h \<Longrightarrow> emits (one_write e) (run_drain e n tm d) h"
  unfolding run_drain_def failDrainTimeout_def Let_def
  by (intro emits_quiet_bind emits_case_sum emits_if emits_andthen emits_one_transition emits_one_clear emits_return)
    (auto simp: mm_request_defs drain_node_def intro!: emit_intros)

lemma emits_one_drain: "none_accepted e h \<Longrightarrow> emits (one_write e) (drain e n c) h"
  unfolding drain_def shutdown_and_drain_def failDrainTimeout_def Let_def
  by (intro emits_quiet_bind emits_quiet_andthen emits_case_sum emits_if emits_andthen emits_one_transition
      emits_one_clear emits_return emits_one_run_drain emits_annotate_vms emits_stop_vms)
    (auto simp: mm_request_defs intro!: emit_intros emits_annotate_vms emits_stop_vms [where n = n])

lemma emits_one_status_write: "emits (one_write e) (OnNodeChange_drain e (Some n)) []"
  unfolding OnNodeChange_drain_def validate_def failPreCheck_def Let_def option.case
  by (intro emits_if emits_return emits_andthen emits_case_option emits_case_sum emits_one_update emits_one_clear
      emits_one_drain) simp_all

lemma drain_reconcile_writes_once:
  assumes "issued (OnNodeChange_drain e (Some n)) = h1 @ NodesUpdateStatus w # h2 @ NodesUpdateStatus w' # h3"
  shows "\<exists>err. nodes_UpdateStatus e h1 w = Inl err"
  using emits_issued [OF emits_one_status_write, of e n "h1 @ NodesUpdateStatus w # h2" "NodesUpdateStatus w'" h3] assms
  by (auto simp: trace_ok_append refused_def)

section \<open>Clusters of running handlers\<close>

text \<open>
  The protocol over the handlers themselves. A world is a cluster together with the node-drain
  reconciles in progress, each with the node it was started for and the node list its pre-check
  reads from the cache. A reconcile starts from the cache at one moment and its status write
  arrives at a later one; the writes are those of the modelled handlers. A status write is
  accepted only when the live read before it returned the current version of the node, and a
  reconcile has at most one accepted status write, so it is over when that has been made.
\<close>

record maintenance_world =
  mw_cluster :: cluster
  mw_running :: "(node \<times> node list) list"







text \<open>The cluster of a world, with the reconciles that have passed the control-plane check as verdicts.\<close>

definition passing :: "node \<times> node list \<Rightarrow> bool" where
  "passing p \<longleftrightarrow> validating (fst p) \<and> DrainPossible (Inr (snd p)) (fst p) = Inr ()"

definition abs_cluster :: "maintenance_world \<Rightarrow> cluster" where
  "abs_cluster w = (mw_cluster w)\<lparr>cl_verdict := map (node_Name \<circ> fst) (filter passing (mw_running w))\<rparr>"


lemma abs_cluster_nodes [simp]:
  "live_nodes (abs_cluster w) = live_nodes (mw_cluster w)" "cached_nodes (abs_cluster w) = cached_nodes (mw_cluster w)"
  "seen_all (abs_cluster w) = seen_all (mw_cluster w)" "cl_seen (abs_cluster w) = cl_seen (mw_cluster w)"
  "cl_log (abs_cluster w) = cl_log (mw_cluster w)"
  by (simp_all add: abs_cluster_def live_nodes_def cached_nodes_def seen_all_def fun_eq_iff)













section \<open>Reconciles in sequence\<close>






section \<open>Properties\<close>



text \<open>Node a is admitted by two reconciles: the first writes Validating, the second Draining.\<close>

definition validated_node :: node where
  "validated_node = fst (SetMaintenanceModeCondition 1 (sample_control_planes ! 0)
     ConditionTrue NodeConditionReasonValidating MaintenanceModeMessageValidating)"






text \<open>
  C13. Every status write of a node-drain reconcile is a step of the protocol: when the reconcile
  works on a node of the cache, no other reconcile of that node is running and its last live read
  returned the current version, the write is reached by protocol steps.
\<close>

theorem drain_handler_follows_protocol:
  assumes "issued (OnNodeChange_drain e (Some n)) = pre @ NodesUpdateStatus w # post"
    and "nodeCache_List e = Inr (cached_nodes cl)" and "n \<in> set (cached_nodes cl)"
    and "node_Name n \<notin> set (cl_verdict cl)" and "own \<longrightarrow> seen_all cl (node_Name n)"
    and "\<And>h0 m. pre = h0 @ [NodesGet (node_Name n), ClockNow] \<Longrightarrow> nodes_Get e h0 (node_Name n) = Inr m \<Longrightarrow>
       m \<in> set (live_nodes cl) \<and> node_Name m = node_Name n"
  shows "(maintenance_step own)\<^sup>*\<^sup>* cl (log_write cl w)"
proof -
  have "drain_status_write e n pre (NodesUpdateStatus w)"
    using emits_issued [OF emits_OnNodeChange_drain assms(1)] by (simp add: drain_policy_def)
  then show ?thesis using assms(2-6) by (rule drain_write_steps)
qed

definition validating_cluster :: cluster where
  "validating_cluster = \<lparr>cl_init = sample_control_planes, cl_log = [validated_node], cl_seen = 1, cl_verdict = []\<rparr>"

theorem drain_handler_follows_protocol_witness:
  "(maintenance_step True)\<^sup>*\<^sup>* validating_cluster
     (log_write validating_cluster (fst (SetMaintenanceModeCondition 1 (live_nodes validating_cluster ! 0)
        ConditionTrue NodeConditionReasonDraining MaintenanceModeMessageDraining)))"
proof (rule drain_handler_follows_protocol)
  let ?e = "sample_env (cached_nodes validating_cluster) (live_nodes validating_cluster ! 0) 0"
  show "issued (OnNodeChange_drain ?e (Some (cached_nodes validating_cluster ! 0))) =
    [NodesGet ''a'', ClockNow] @ NodesUpdateStatus (fst (SetMaintenanceModeCondition 1 (live_nodes validating_cluster ! 0)
        ConditionTrue NodeConditionReasonDraining MaintenanceModeMessageDraining)) # []"
    by code_simp
  show "nodeCache_List ?e = Inr (cached_nodes validating_cluster)" by (simp add: sample_env_def)
  have len: "length (cached_nodes validating_cluster) = 3" "length (live_nodes validating_cluster) = 3" by code_simp+
  then show "cached_nodes validating_cluster ! 0 \<in> set (cached_nodes validating_cluster)" by simp
  show "node_Name (cached_nodes validating_cluster ! 0) \<notin> set (cl_verdict validating_cluster)" by code_simp
  show "True \<longrightarrow> seen_all validating_cluster (node_Name (cached_nodes validating_cluster ! 0))" by code_simp
  have "node_Name (live_nodes validating_cluster ! 0) = node_Name (cached_nodes validating_cluster ! 0)" by code_simp
  with len show "m \<in> set (live_nodes validating_cluster) \<and> node_Name m = node_Name (cached_nodes validating_cluster ! 0)"
    if "nodes_Get ?e h0 (node_Name (cached_nodes validating_cluster ! 0)) = Inr m" for h0 m
    using that by (auto simp: sample_env_def)
qed


end
