(* ===== verification/Go_Names.thy ===== *)
theory Go_Names
  imports Harvester_Prelude "HOL-Library.Word"
begin

text \<open>
  Object names built from parts: \<^verbatim>\<open>name.SafeConcatName\<close> of wrangler, which shortens a name of more than
  63 characters and appends some digits of its SHA-256 digest, with \<^verbatim>\<open>crypto/sha256\<close> and
  \<^verbatim>\<open>encoding/hex\<close> of the Go standard library over 32-bit words and bytes.
\<close>

unbundle bit_operations_syntax

type_synonym word32 = "32 word"
type_synonym byte = "8 word"

section \<open>SHA-256\<close>

text \<open>
  The tables of the digest are the first 32 bits of the fractional parts of the cube roots of the first 64 primes
  and of the square roots of the first eight. \<open>iroot d k n\<close> is the integer part of the \<open>d\<close>-th root of \<open>n < 2 ^ (d * k)\<close>,
  one bit at a time.
\<close>

fun iroot :: "nat \<Rightarrow> nat \<Rightarrow> int \<Rightarrow> int" where
  "iroot d 0 n = 0"
| "iroot d (Suc k) n = (let r = 2 * iroot d k (n div 2 ^ d) in if (r + 1) ^ d \<le> n then r + 1 else r)"

definition small_primes :: "nat list" where
  "small_primes = [2, 3, 5, 7, 11, 13, 17, 19, 23, 29, 31, 37, 41, 43, 47, 53, 59, 61, 67, 71, 73, 79,
     83, 89, 97, 101, 103, 107, 109, 113, 127, 131, 137, 139, 149, 151, 157, 163, 167, 173, 179, 181, 191, 193,
     197, 199, 211, 223, 227, 229, 233, 239, 241, 251, 257, 263, 269, 271, 277, 281, 283, 293, 307, 311]"

definition fraction_bits :: "nat \<Rightarrow> nat \<Rightarrow> word32" where
  "fraction_bits d p = word_of_int (iroot d 36 (int p * 2 ^ (32 * d)))"

definition sha256_k :: "word32 list" where
  "sha256_k = map (fraction_bits 3) small_primes"

definition sha256_init :: "word32 list" where
  "sha256_init = map (fraction_bits 2) (take 8 small_primes)"

text \<open>The message, a bit 1, zeros up to 56 bytes modulo 64 and the length in bits as eight bytes.\<close>

definition sha256_pad :: "byte list \<Rightarrow> byte list" where
  "sha256_pad m = (let l = length m
     in m @ 0x80 # replicate ((119 - l mod 64) mod 64) 0 @
        map (\<lambda>i. word_of_int (8 * int l div 256 ^ i)) [7, 6, 5, 4, 3, 2, 1, 0])"

definition be_word :: "byte list \<Rightarrow> word32" where
  "be_word bs = foldl (\<lambda>w b. (push_bit 8 w) OR ucast b) 0 bs"

fun groups :: "nat \<Rightarrow> 'a list \<Rightarrow> 'a list list" where
  "groups n xs = (if n = 0 \<or> xs = [] then [] else take n xs # groups n (drop n xs))"

declare groups.simps [simp del]

text \<open>The message schedule: sixteen words of the block, then 48 more. The newest word is at the head.\<close>

fun sha256_schedule :: "nat \<Rightarrow> word32 list \<Rightarrow> word32 list" where
  "sha256_schedule 0 ws = ws"
| "sha256_schedule (Suc n) ws =
     (let v1 = ws ! 1; v2 = ws ! 14;
          t1 = word_rotr 17 v1 XOR word_rotr 19 v1 XOR drop_bit 10 v1;
          t2 = word_rotr 7 v2 XOR word_rotr 18 v2 XOR drop_bit 3 v2
      in sha256_schedule n ((t1 + ws ! 6 + t2 + ws ! 15) # ws))"

fun sha256_round :: "word32 \<times> word32 \<Rightarrow> word32 list \<Rightarrow> word32 list" where
  "sha256_round (k, w) [a, b, c, d, e, f, g, h] =
     (let t1 = h + (word_rotr 6 e XOR word_rotr 11 e XOR word_rotr 25 e) + ((e AND f) XOR (NOT e AND g)) + k + w;
          t2 = (word_rotr 2 a XOR word_rotr 13 a XOR word_rotr 22 a) + ((a AND b) XOR (a AND c) XOR (b AND c))
      in [t1 + t2, a, b, c, d + t1, e, f, g])"
| "sha256_round _ s = s"

definition sha256_block :: "byte list \<Rightarrow> word32 list \<Rightarrow> word32 list" where
  "sha256_block p s = (let ws = rev (sha256_schedule 48 (rev (map be_word (groups 4 p))))
     in map2 (+) s (fold sha256_round (zip sha256_k ws) s))"

definition sha256_sum :: "byte list \<Rightarrow> byte list" where
  "sha256_sum m = concat (map (\<lambda>w. map (\<lambda>i. ucast (drop_bit i w)) [24, 16, 8, 0])
     (fold sha256_block (groups 64 (sha256_pad m)) sha256_init))"

text \<open>The root is exact.\<close>

lemma iroot_nonneg: "0 \<le> iroot d k n"
  by (induction k arbitrary: n) (simp_all add: Let_def)

lemma iroot_exact:
  assumes "0 < d" and "0 \<le> n" and "n < 2 ^ (d * k)"
  shows "iroot d k n ^ d \<le> n \<and> n < (iroot d k n + 1) ^ d"
  using assms(2,3)
proof (induction k arbitrary: n)
  case 0
  then show ?case using assms(1) by (simp add: zero_power)
next
  case (Suc k)
  let ?q = "n div 2 ^ d" and ?r = "iroot d k (n div 2 ^ d)"
  have "n = 2 ^ d * ?q + n mod 2 ^ d" "0 \<le> n mod 2 ^ d" "n mod 2 ^ d < 2 ^ d" by simp_all
  then have q: "2 ^ d * ?q \<le> n" "n < 2 ^ d * ?q + 2 ^ d" by linarith+
  have "n < 2 ^ d * 2 ^ (d * k)" using Suc.prems(2) by (simp add: power_add)
  with q(1) have "2 ^ d * ?q < 2 ^ d * 2 ^ (d * k)" by (rule le_less_trans)
  then have "?q < 2 ^ (d * k)" by (rule mult_left_less_imp_less) simp
  then have IH: "?r ^ d \<le> ?q" "?q < (?r + 1) ^ d"
    using Suc.IH [of ?q] Suc.prems(1) by (simp_all add: pos_imp_zdiv_nonneg_iff)
  have "(2 * ?r) ^ d = 2 ^ d * ?r ^ d" by (simp add: power_mult_distrib)
  also have "\<dots> \<le> 2 ^ d * ?q" using IH(1) by (rule mult_left_mono) simp
  also note q(1)
  finally have lo: "(2 * ?r) ^ d \<le> n" .
  have "2 ^ d * ?q + 2 ^ d = 2 ^ d * (?q + 1)" by (simp add: algebra_simps)
  also have "\<dots> \<le> 2 ^ d * (?r + 1) ^ d" using IH(2) by (intro mult_left_mono) simp_all
  also have "\<dots> = (2 * ?r + 1 + 1) ^ d" by (simp add: power_mult_distrib [symmetric] algebra_simps)
  finally have "n < (2 * ?r + 1 + 1) ^ d" using q(2) by linarith
  with lo show ?case by (simp add: Let_def)
qed

section \<open>Hexadecimal encoding\<close>

definition hex_digit :: "byte \<Rightarrow> char" where
  "hex_digit b = ''0123456789abcdef'' ! unat b"

definition hex_EncodeToString :: "byte list \<Rightarrow> string" where
  "hex_EncodeToString bs = concat (map (\<lambda>b. [hex_digit (drop_bit 4 b), hex_digit (b AND 0xf)]) bs)"

definition string_bytes :: "string \<Rightarrow> byte list" where
  "string_bytes s = map of_char s"

section \<open>Names\<close>

definition SafeConcatName :: "string list \<Rightarrow> string" where
  "SafeConcatName parts =
     (let fullPath = join ''-'' parts
      in if length fullPath < 64 then fullPath
         else let digest = hex_EncodeToString (sha256_sum (string_bytes fullPath));
                  c = fullPath ! 56
              in if CHR ''a'' \<le> c \<and> c \<le> CHR ''z'' \<or> CHR ''0'' \<le> c \<and> c \<le> CHR ''9''
                 then take 57 fullPath @ ''-'' @ take 5 digest
                 else take 56 fullPath @ ''-'' @ take 6 digest)"

lemma length_sha256_schedule: "length (sha256_schedule n ws) = n + length ws"
  by (induction n ws rule: sha256_schedule.induct) (simp_all add: Let_def)

lemma length_sha256_round [simp]: "length (sha256_round p s) = length s"
  by (induction p s rule: sha256_round.induct) (simp_all add: Let_def)

lemma length_fold_round [simp]: "length (fold sha256_round ps s) = length s"
  by (induction ps arbitrary: s) simp_all

lemma length_sha256_block [simp]: "length (sha256_block p s) = length s"
  by (simp add: sha256_block_def Let_def)

lemma length_fold_block [simp]: "length (fold sha256_block ps s) = length s"
  by (induction ps arbitrary: s) simp_all

lemma length_small_primes: "length small_primes = 64"
  by (simp add: small_primes_def)

lemma length_sha256_sum: "length (sha256_sum m) = 32"
  by (simp add: sha256_sum_def length_concat sha256_init_def comp_def sum_list_triv length_small_primes)

lemma length_hex: "length (hex_EncodeToString bs) = 2 * length bs"
  by (induction bs) (simp_all add: hex_EncodeToString_def)

text \<open>A name is never longer than the 63 characters a label value may have.\<close>

lemma SafeConcatName_length: "length (SafeConcatName parts) \<le> 63"
  by (simp add: SafeConcatName_def Let_def length_hex length_sha256_sum)

lemma SafeConcatName_short: "length (join ''-'' parts) < 64 \<Longrightarrow> SafeConcatName parts = join ''-'' parts"
  by (simp add: SafeConcatName_def)

text \<open>The digest of \<open>abc\<close> is the published test vector.\<close>

lemma sha256_abc:
  "hex_EncodeToString (sha256_sum (string_bytes ''abc'')) = ''ba7816bf8f01cfea414140de5dae2223b00361a396177a9cb410ff61f20015ad''"
  by code_simp

end
