(* ===== verification/Node_Promotion.thy ===== *)
theory Node_Promotion
  imports Maintenance_Mode Go_Names
begin

text \<open>
  The promote controller (\<^verbatim>\<open>pkg/controller/master/node/promote_controller.go\<close>): it selects a
  worker or witness node for promotion to a management node, marks it, starts the promote job and
  records the result.

  The image lookup in the Helm values is a parameter (\<open>fetchImage\<close>).
  \<^verbatim>\<open>len(map)\<close> of the two zone sets is the number of distinct keys of an association list.
\<close>

section \<open>Selection\<close>

abbreviation defaultSpecManagementNumber :: nat where "defaultSpecManagementNumber \<equiv> 3"

definition isWorkerPreferredNode :: "node \<Rightarrow> bool" where
  "isWorkerPreferredNode n = shas (node_Labels n) HarvesterWorkerNodeLabelKey"

definition isHarvesterNode :: "node \<Rightarrow> bool" where
  "isHarvesterNode n = shas (node_Labels n) HarvesterManagedNodeLabelKey"

definition isExtraWitnessNode :: "node \<Rightarrow> nat \<Rightarrow> bool \<Rightarrow> bool" where
  "isExtraWitnessNode n numOfWitnessNode promotedWitnessNode =
     (if numOfWitnessNode = 0 \<and> \<not> promotedWitnessNode then False
      else shas (node_Labels n) HarvesterWitnessNodeLabelKey)"

record scan =
  sc_workers :: "node list"
  sc_management :: "node list"
  sc_witness :: "node list"
  sc_allZones :: "(string \<times> bool) list"
  sc_managementZones :: "(string \<times> bool) list"
  sc_managementNumber :: nat
  sc_witnessPromoted :: bool
  sc_canBeManagement :: int

definition scan_init :: "nat \<Rightarrow> scan" where
  "scan_init nodeNumber =
     \<lparr>sc_workers = [], sc_management = [], sc_witness = [], sc_allZones = [], sc_managementZones = [],
      sc_managementNumber = 0, sc_witnessPromoted = False, sc_canBeManagement = int nodeNumber\<rparr>"

text \<open>
  One pass of the loop over the nodes: the counters, the early returns, and the classification of
  the node; \<open>None\<close> is \<^verbatim>\<open>return nil\<close>.
\<close>

definition scan_count :: "node \<Rightarrow> scan \<Rightarrow> scan" where
  "scan_count n s =
     (let isManagement = IsManagementRole n
      in s\<lparr>sc_managementNumber := (if isManagement then sc_managementNumber s + 1 else sc_managementNumber s),
           sc_witnessPromoted := (sc_witnessPromoted s \<or> IsWitnessNode n isManagement)\<rparr>)"

definition scan_stops :: "nat \<Rightarrow> node \<Rightarrow> scan \<Rightarrow> bool" where
  "scan_stops nodeNumber n s \<longleftrightarrow>
     sc_managementNumber s =
       (if nodeNumber < defaultSpecManagementNumber then nodeNumber else defaultSpecManagementNumber) \<or>
     \<not> IsManagementRole n \<and> IsPromoteStatusIn n [PromoteStatusComplete] \<or>
     IsPromoteStatusIn n [PromoteStatusRunning, PromoteStatusFailed, PromoteStatusUnknown]"

definition scan_candidate :: "node \<Rightarrow> scan \<Rightarrow> bool" where
  "scan_candidate n s \<longleftrightarrow>
     IsHealthyNode n \<and> isHarvesterNode n \<and> \<not> node_Unschedulable n \<and> \<not> isWorkerPreferredNode n \<and>
     \<not> isExtraWitnessNode n (length (sc_witness s)) (sc_witnessPromoted s)"

definition scan_classify :: "node \<Rightarrow> scan \<Rightarrow> scan" where
  "scan_classify n s =
     (let zone = sval (node_Labels n) LabelTopologyZone
      in if IsManagementRole n
         then (if zone \<noteq> []
               then s\<lparr>sc_managementZones := AList.update zone True (sc_managementZones s),
                      sc_allZones := AList.update zone True (sc_allZones s)\<rparr>
               else s)
         else if scan_candidate n s
         then let s' = (if zone \<noteq> [] then s\<lparr>sc_allZones := AList.update zone True (sc_allZones s)\<rparr> else s)
              in if shas (node_Labels n) HarvesterMgmtNodeLabelKey
                 then s'\<lparr>sc_management := sc_management s' @ [n]\<rparr>
                 else if shas (node_Labels n) HarvesterWitnessNodeLabelKey
                 then s'\<lparr>sc_witness := sc_witness s' @ [n]\<rparr>
                 else s'\<lparr>sc_workers := sc_workers s' @ [n]\<rparr>
         else s\<lparr>sc_canBeManagement := sc_canBeManagement s - 1\<rparr>)"

definition scan_node :: "nat \<Rightarrow> node \<Rightarrow> scan \<Rightarrow> scan option" where
  "scan_node nodeNumber n s =
     (let s2 = scan_count n s
      in if scan_stops nodeNumber n s2 then None
         else let s3 = scan_classify n s2
              in if sc_canBeManagement s3 < int defaultSpecManagementNumber then None else Some s3)"

fun scan_nodes :: "nat \<Rightarrow> node list \<Rightarrow> scan \<Rightarrow> scan option" where
  "scan_nodes nodeNumber [] s = Some s"
| "scan_nodes nodeNumber (n # ns) s =
     (case scan_node nodeNumber n s of None \<Rightarrow> None | Some s' \<Rightarrow> scan_nodes nodeNumber ns s')"

definition new_zone :: "(string \<times> bool) list \<Rightarrow> node \<Rightarrow> bool" where
  "new_zone managementZones n =
     (let zone = sval (node_Labels n) LabelTopologyZone
      in zone \<noteq> [] \<and> \<not> (case map_of managementZones zone of None \<Rightarrow> False | Some b \<Rightarrow> b))"

definition pick_oldest :: "(node \<Rightarrow> bool) \<Rightarrow> node \<Rightarrow> node option \<Rightarrow> node option" where
  "pick_oldest ok n best =
     (if ok n
      then (case best of
              None \<Rightarrow> Some n
            | Some b \<Rightarrow> if node_CreationTimestamp n < node_CreationTimestamp b then Some n else best)
      else best)"

definition selectPromoteNode :: "node list \<Rightarrow> node option" where
  "selectPromoteNode nodeList =
     (case scan_nodes (length nodeList) nodeList (scan_init (length nodeList)) of
        None \<Rightarrow> None
      | Some s \<Rightarrow>
          let witnessPreferred = (if sc_witnessPromoted s then [] else sc_witness s);
              hasZones = sc_managementZones s \<noteq> [];
              hasEnoughZones = defaultSpecManagementNumber \<le> length (sc_allZones s)
          in if hasZones \<and> \<not> hasEnoughZones then None
             else let candidates = (if sc_management s \<noteq> [] then sc_management s
                                    else if witnessPreferred \<noteq> [] then witnessPreferred
                                    else sc_workers s)
                  in fold (pick_oldest (\<lambda>n. \<not> hasZones \<or> new_zone (sc_managementZones s) n)) candidates None)"

section \<open>Requests and environment\<close>

record promote_job =
  pj_Name :: string
  pj_Namespace :: string
  pj_Labels :: smap
  pj_OwnerReferences :: "owner_ref list"
  pj_DeletionTimestamp :: "time option"
  pj_Conditions :: "(string \<times> string) list"
  pj_BackoffLimit :: int
  pj_PodLabels :: smap
  pj_HostNamespaces :: "string list"
  pj_DNSPolicy :: string
  pj_NodeAffinity :: "string \<times> string \<times> string list"
  pj_PodAntiAffinity :: "string \<times> string \<times> string list \<times> string"
  pj_Tolerations :: "(string \<times> string) list"
  pj_RestartPolicy :: string
  pj_HostPathVolumes :: "(string \<times> string \<times> string) list"
  pj_ConfigMapVolumes :: "(string \<times> string) list"
  pj_ServiceAccountName :: string
  pj_ContainerName :: string
  pj_Image :: string
  pj_Command :: "string list"
  pj_Args :: "string list"
  pj_VolumeMounts :: "(string \<times> string) list"
  pj_ImagePullPolicy :: string
  pj_Privileged :: bool
  pj_Env :: "(string \<times> string) list"

datatype promote_call =
    PromoteNodeUpdate node
  | PromoteJobCreate promote_job
  | PromoteJobDelete string string
  | PromoteEvent string string string string
  | PromoteEnqueueAfter string int

record promote_env =
  pe_nodeCache_List :: "node list result"
  pe_nodeCache_Get :: "string \<Rightarrow> node result"
  pe_nodes_Update :: "promote_call list \<Rightarrow> node \<Rightarrow> node result"
  pe_jobs_Create :: "promote_call list \<Rightarrow> promote_job \<Rightarrow> promote_job result"
  pe_jobs_Delete :: "promote_call list \<Rightarrow> string \<Rightarrow> string \<Rightarrow> unit result"
  fetchImage :: "string result"
  pe_namespace :: string

section \<open>Promotion\<close>

definition buildPromoteJobName :: "string \<Rightarrow> string" where
  "buildPromoteJobName nodeName = SafeConcatName [''harvester'', ''promote'', nodeName]"

definition buildPromoteJob :: "promote_env \<Rightarrow> node \<Rightarrow> string \<Rightarrow> promote_job" where
  "buildPromoteJob e n promoteImage =
     (let nodeName = node_Name n;
          promoteParameter = (if sval (node_Labels n) HarvesterWitnessNodeLabelKey = ''true''
                              then ''rke.cattle.io/etcd-role=true'' else [])
      in \<lparr>pj_Name = buildPromoteJobName nodeName, pj_Namespace = pe_namespace e,
          pj_Labels = Some [(HarvesterPromoteNodeLabelKey, nodeName)],
          pj_OwnerReferences = [\<lparr>or_APIVersion = node_APIVersion n, or_Kind = node_Kind n,
             or_Name = nodeName, or_UID = node_UID n\<rparr>],
          pj_DeletionTimestamp = None, pj_Conditions = [], pj_BackoffLimit = 2,
          pj_PodLabels = Some [(HarvesterPromoteNodeLabelKey, nodeName)],
          pj_HostNamespaces = [''ipc'', ''pid'', ''network''],
          pj_DNSPolicy = ''ClusterFirstWithHostNet'',
          pj_NodeAffinity = (LabelHostname, ''In'', [nodeName]),
          pj_PodAntiAffinity = (HarvesterPromoteNodeLabelKey, ''In'', [nodeName], LabelHostname),
          pj_Tolerations = [(''Exists'', ''NoSchedule''), (''Exists'', ''NoExecute'')],
          pj_RestartPolicy = ''Never'',
          pj_HostPathVolumes = [(''host-root'', ''/'', ''Directory'')],
          pj_ConfigMapVolumes = [(''helpers'', ''harvester-helpers'')],
          pj_ServiceAccountName = ''harvester'', pj_ContainerName = ''promote'',
          pj_Image = promoteImage, pj_Command = [''sh''],
          pj_Args = [''-e'', ''/harvester-helpers/promote.sh'', promoteParameter],
          pj_VolumeMounts = [(''host-root'', ''/host''), (''helpers'', ''/harvester-helpers'')],
          pj_ImagePullPolicy = ''IfNotPresent'', pj_Privileged = True,
          pj_Env = [(''HARVESTER_PROMOTE_NODE_NAME'', nodeName)]\<rparr>)"

definition createPromoteJob :: "promote_env \<Rightarrow> node \<Rightarrow> (promote_call, promote_job result) act" where
  "createPromoteJob e n =
     (case fetchImage e of
        Inl err \<Rightarrow> ret (Inl (errorf_v ''failed to get harvester image (): '' err))
      | Inr promoteImage \<Rightarrow>
          let job = buildPromoteJob e n promoteImage
          in request (PromoteJobCreate job) (\<lambda>h. pe_jobs_Create e h job))"

definition deleteJob :: "promote_env \<Rightarrow> promote_job \<Rightarrow> (promote_call, unit result) act" where
  "deleteJob e j = request (PromoteJobDelete (pj_Namespace j) (pj_Name j))
     (\<lambda>h. pe_jobs_Delete e h (pj_Namespace j) (pj_Name j))"

text \<open>\<^verbatim>\<open>cases.Title\<close> on the one-word status values.\<close>

fun title_word :: "string \<Rightarrow> string" where
  "title_word [] = []"
| "title_word (c # cs) = (if 97 \<le> (of_char c :: nat) \<and> (of_char c :: nat) \<le> 122 then char_of (of_char c - 32 :: nat) else c) # cs"

definition logPromoteEvent :: "node \<Rightarrow> string \<Rightarrow> (promote_call, unit) act" where
  "logPromoteEvent n status =
     (let preStatus = sval (node_Annotations n) HarvesterPromoteStatusAnnotationKey;
          eventType = (if status = PromoteStatusUnknown \<or> status = PromoteStatusFailed then ''Warning'' else ''Normal'')
      in request (PromoteEvent (node_Name n) eventType (''NodePromote'' @ title_word status)
           (''Node '' @ node_Name n @ '' promote status change: '' @ preStatus @ '' => '' @ status)) (\<lambda>h. ()))"

definition promote_update :: "promote_env \<Rightarrow> node \<Rightarrow> (promote_call, node result) act" where
  "promote_update e n = request (PromoteNodeUpdate n) (\<lambda>h. pe_nodes_Update e h n)"

definition setPromoteStart :: "promote_env \<Rightarrow> node \<Rightarrow> (promote_call, node result) act" where
  "setPromoteStart e n =
     (if sval (node_Annotations n) HarvesterPromoteStatusAnnotationKey = PromoteStatusRunning then ret (Inr n)
      else do {
        _ \<leftarrow> logPromoteEvent n PromoteStatusRunning;
        case swrite (node_Annotations n) HarvesterPromoteStatusAnnotationKey PromoteStatusRunning of
          Inl err \<Rightarrow> ret (Inl err)
        | Inr annotations \<Rightarrow>
            promote_update e (n\<lparr>node_Annotations := annotations, node_Unschedulable := True\<rparr>) })"

definition setPromoteResult :: "promote_env \<Rightarrow> promote_job \<Rightarrow> node \<Rightarrow> string \<Rightarrow> (promote_call, promote_job option result) act" where
  "setPromoteResult e job n status =
     (if sval (node_Annotations n) HarvesterPromoteStatusAnnotationKey = status then ret (Inr (Some job))
      else do {
        _ \<leftarrow> logPromoteEvent n status;
        case swrite (node_Annotations n) HarvesterPromoteStatusAnnotationKey status of
          Inl err \<Rightarrow> ret (Inl err)
        | Inr annotations \<Rightarrow>
            let toUpdate = n\<lparr>node_Annotations := annotations\<rparr>;
                toUpdate' = (if status = PromoteStatusComplete then toUpdate\<lparr>node_Unschedulable := False\<rparr> else toUpdate)
            in andthen (promote_update e toUpdate') (\<lambda>_. ret (Inr (Some job))) })"

definition promote :: "promote_env \<Rightarrow> node \<Rightarrow> (promote_call, node result) act" where
  "promote e n =
     andthen (setPromoteStart e n) (\<lambda>startedNode.
       andthen (createPromoteJob e n) (\<lambda>_. ret (Inr startedNode)))"

definition reconcileInstallCordonedNode :: "node \<Rightarrow> node list \<Rightarrow> node" where
  "reconcileInstallCordonedNode n nodeList =
     (let toUpdate = (if \<not> node_Unschedulable n \<and> IsOtherNodeAvailable (node_Name n) nodeList
                      then n\<lparr>node_Unschedulable := True\<rparr> else n)
      in toUpdate\<lparr>node_Annotations :=
           sset (node_Annotations toUpdate) HarvesterInstallCordonedProcessedAnnotation ''true''\<rparr>)"

section \<open>Handlers\<close>

definition OnNodeChanged_promote :: "promote_env \<Rightarrow> node option \<Rightarrow> (promote_call, node option result) act" where
  "OnNodeChanged_promote e arg =
     (case arg of
        None \<Rightarrow> ret (Inr None)
      | Some n \<Rightarrow>
          if node_DeletionTimestamp n \<noteq> None then ret (Inr (Some n))
          else case pe_nodeCache_List e of
            Inl err \<Rightarrow> ret (Inl err)
          | Inr nodeList \<Rightarrow>
              if sval (node_Labels n) HarvesterInstallCordonedLabel = ''true'' \<and>
                 sval (node_Annotations n) HarvesterInstallCordonedProcessedAnnotation \<noteq> ''true''
              then andthen (promote_update e (reconcileInstallCordonedNode n nodeList)) (\<lambda>u. ret (Inr (Some u)))
              else if length nodeList < defaultSpecManagementNumber then ret (Inr (Some n))
              else (case selectPromoteNode nodeList of
                      None \<Rightarrow> ret (Inr (Some n))
                    | Some promoteNode \<Rightarrow>
                        if node_Kind promoteNode = [] \<or> node_APIVersion promoteNode = []
                        then do {
                          _ \<leftarrow> request (PromoteEnqueueAfter (node_Name n) (10 * 1000000000)) (\<lambda>h. ());
                          ret (Inr (Some n)) }
                        else andthen (promote e promoteNode) (\<lambda>_. ret (Inr (Some n)))))"

definition job_condition_true :: "promote_job \<Rightarrow> string \<Rightarrow> bool" where
  "job_condition_true j c = (map_of (pj_Conditions j) c = Some ''True'')"

definition OnJobChanged_promote :: "promote_env \<Rightarrow> promote_job option \<Rightarrow> (promote_call, promote_job option result) act" where
  "OnJobChanged_promote e arg =
     (case arg of
        None \<Rightarrow> ret (Inr None)
      | Some job \<Rightarrow>
          if pj_DeletionTimestamp job \<noteq> None then ret (Inr (Some job))
          else case sget (pj_Labels job) HarvesterPromoteNodeLabelKey of
            None \<Rightarrow> ret (Inr (Some job))
          | Some nodeName \<Rightarrow>
              (case pe_nodeCache_Get e nodeName of
                 Inl err \<Rightarrow>
                   if is_not_found err then andthen (deleteJob e job) (\<lambda>_. ret (Inr (Some job)))
                   else ret (Inl err)
               | Inr n \<Rightarrow>
                   if job_condition_true job ''Complete'' then setPromoteResult e job n PromoteStatusComplete
                   else if job_condition_true job ''Failed'' then setPromoteResult e job n PromoteStatusFailed
                   else ret (Inr (Some job))))"

definition OnJobRemove_promote :: "promote_env \<Rightarrow> promote_job option \<Rightarrow> (promote_call, promote_job option result) act" where
  "OnJobRemove_promote e arg =
     (case arg of
        None \<Rightarrow> ret (Inr None)
      | Some job \<Rightarrow>
          (case sget (pj_Labels job) HarvesterPromoteNodeLabelKey of
             None \<Rightarrow> ret (Inr (Some job))
           | Some nodeName \<Rightarrow>
               if job_condition_true job ''Failed'' \<or> job_condition_true job ''Complete'' then ret (Inr (Some job))
               else case pe_nodeCache_Get e nodeName of
                 Inl err \<Rightarrow> if is_not_found err then ret (Inr (Some job)) else ret (Inl err)
               | Inr n \<Rightarrow>
                   if IsPromoteStatusIn n [PromoteStatusRunning]
                   then setPromoteResult e job n PromoteStatusUnknown
                   else ret (Inr (Some job))))"

section \<open>Lemmas\<close>

definition base_eligible :: "node \<Rightarrow> bool" where
  "base_eligible n \<longleftrightarrow> \<not> IsManagementRole n \<and> IsHealthyNode n \<and> isHarvesterNode n \<and>
     \<not> node_Unschedulable n \<and> \<not> isWorkerPreferredNode n"

abbreviation mgmt_label :: "node \<Rightarrow> bool" where
  "mgmt_label n \<equiv> shas (node_Labels n) HarvesterMgmtNodeLabelKey"

abbreviation witness_label :: "node \<Rightarrow> bool" where
  "witness_label n \<equiv> shas (node_Labels n) HarvesterWitnessNodeLabelKey"

abbreviation zone_of :: "node \<Rightarrow> string" where
  "zone_of n \<equiv> sval (node_Labels n) LabelTopologyZone"

definition promotion_idle :: "node \<Rightarrow> bool" where
  "promotion_idle n \<longleftrightarrow> \<not> IsPromoteStatusIn n [PromoteStatusRunning, PromoteStatusFailed, PromoteStatusUnknown] \<and>
     (IsManagementRole n \<or> \<not> IsPromoteStatusIn n [PromoteStatusComplete])"

lemma IsManagementRole_candidate: "scan_candidate n s \<Longrightarrow> \<not> IsManagementRole n \<Longrightarrow> base_eligible n"
  by (simp add: scan_candidate_def base_eligible_def)

lemma base_eligible_candidate: "base_eligible n \<Longrightarrow> \<not> witness_label n \<Longrightarrow> scan_candidate n s \<and> \<not> IsManagementRole n"
  by (simp add: scan_candidate_def base_eligible_def isExtraWitnessNode_def)

lemma scan_count_simps [simp]:
  "sc_workers (scan_count n s) = sc_workers s" "sc_management (scan_count n s) = sc_management s"
  "sc_witness (scan_count n s) = sc_witness s" "sc_managementZones (scan_count n s) = sc_managementZones s"
  "sc_managementNumber (scan_count n s) = sc_managementNumber s + (if IsManagementRole n then 1 else 0)"
  "sc_witnessPromoted (scan_count n s) = (sc_witnessPromoted s \<or> IsWitnessNode n (IsManagementRole n))"
  by (simp_all add: scan_count_def Let_def)

lemma scan_classify_simps [simp]:
  "sc_managementNumber (scan_classify n s) = sc_managementNumber s"
  "sc_witnessPromoted (scan_classify n s) = sc_witnessPromoted s"
  by (simp_all add: scan_classify_def Let_def)

lemma scan_classify_lists:
  "sc_management (scan_classify n s) =
     sc_management s @ (if \<not> IsManagementRole n \<and> scan_candidate n s \<and> mgmt_label n then [n] else [])"
  "sc_witness (scan_classify n s) =
     sc_witness s @ (if \<not> IsManagementRole n \<and> scan_candidate n s \<and> \<not> mgmt_label n \<and> witness_label n then [n] else [])"
  "sc_workers (scan_classify n s) =
     sc_workers s @ (if \<not> IsManagementRole n \<and> scan_candidate n s \<and> \<not> mgmt_label n \<and> \<not> witness_label n then [n] else [])"
  "sc_managementZones (scan_classify n s) =
     (if IsManagementRole n \<and> zone_of n \<noteq> [] then AList.update (zone_of n) True (sc_managementZones s) else sc_managementZones s)"
  by (simp_all add: scan_classify_def Let_def)

lemma scan_node_Some:
  "scan_node N n s = Some s' \<Longrightarrow> \<not> scan_stops N n (scan_count n s) \<and> s' = scan_classify n (scan_count n s)"
  by (auto simp: scan_node_def Let_def split: if_splits)

text \<open>What a completed scan has collected.\<close>

lemma scan_nodes_induct:
  assumes "scan_nodes N ns s = Some s'" and "Q [] s"
    and "\<And>n ms s. Q ms s \<Longrightarrow> \<not> scan_stops N n (scan_count n s) \<Longrightarrow> Q (ms @ [n]) (scan_classify n (scan_count n s))"
  shows "Q ns s'"
proof -
  have "Q (ms @ ns) s'" if "Q ms s" "scan_nodes N ns s = Some s'" for ms ns s
    using that
  proof (induction ns arbitrary: ms s)
    case (Cons n ns)
    then obtain s1 where "scan_node N n s = Some s1" "scan_nodes N ns s1 = Some s'" by (auto split: option.splits)
    with scan_node_Some [of N n s s1] assms(3) [OF Cons.prems(1)] Cons.IH [of "ms @ [n]" s1] show ?case by auto
  qed simp
  from this [OF assms(2,1)] show ?thesis by simp
qed

lemma scan_nodes_idle:
  "scan_nodes N ns s = Some s' \<Longrightarrow> list_all promotion_idle ns"
  by (erule scan_nodes_induct) (auto simp: scan_stops_def promotion_idle_def)

lemma scan_nodes_number:
  assumes "scan_nodes N ns (scan_init N) = Some s'" and "3 \<le> N"
  shows "sc_managementNumber s' = length (filter IsManagementRole ns)" and "length (filter IsManagementRole ns) < 3"
proof -
  have "sc_managementNumber s' = length (filter IsManagementRole ns) \<and> sc_managementNumber s' < 3"
    by (rule scan_nodes_induct [OF assms(1)])
      (use assms(2) in \<open>auto simp: scan_stops_def scan_init_def split: if_splits\<close>)
  then show "sc_managementNumber s' = length (filter IsManagementRole ns)" "length (filter IsManagementRole ns) < 3" by simp_all
qed

lemma scan_nodes_witness:
  "scan_nodes N ns (scan_init N) = Some s' \<Longrightarrow>
   sc_witnessPromoted s' \<longleftrightarrow> (\<exists>n \<in> set ns. IsWitnessNode n (IsManagementRole n))"
  by (erule scan_nodes_induct) (auto simp: scan_init_def)

lemma scan_nodes_management:
  "scan_nodes N ns (scan_init N) = Some s' \<Longrightarrow>
   set (sc_management s') \<subseteq> {n \<in> set ns. base_eligible n \<and> mgmt_label n} \<and>
   {n \<in> set ns. base_eligible n \<and> mgmt_label n \<and> \<not> witness_label n} \<subseteq> set (sc_management s')"
  by (erule scan_nodes_induct)
    (auto simp: scan_init_def scan_classify_lists dest: IsManagementRole_candidate base_eligible_candidate)

lemma scan_nodes_witnesses:
  "scan_nodes N ns (scan_init N) = Some s' \<Longrightarrow>
   set (sc_witness s') \<subseteq> {n \<in> set ns. base_eligible n \<and> \<not> mgmt_label n \<and> witness_label n}"
  by (erule scan_nodes_induct) (auto simp: scan_init_def scan_classify_lists dest: IsManagementRole_candidate)

lemma scan_nodes_workers:
  "scan_nodes N ns (scan_init N) = Some s' \<Longrightarrow>
   set (sc_workers s') = {n \<in> set ns. base_eligible n \<and> \<not> mgmt_label n \<and> \<not> witness_label n}"
  by (erule scan_nodes_induct)
    (auto simp: scan_init_def scan_classify_lists dest: IsManagementRole_candidate base_eligible_candidate)

lemma scan_nodes_zones:
  "scan_nodes N ns (scan_init N) = Some s' \<Longrightarrow>
   map_of (sc_managementZones s') z =
     (if \<exists>n \<in> set ns. IsManagementRole n \<and> zone_of n = z \<and> z \<noteq> [] then Some True else None)"
  by (erule scan_nodes_induct) (auto simp: scan_init_def scan_classify_lists update_conv')

lemma pick_oldest_fold:
  "fold (pick_oldest ok) ns best = Some n \<Longrightarrow>
    (n \<in> set ns \<and> ok n \<or> best = Some n) \<and>
    (\<forall>m \<in> set ns. ok m \<longrightarrow> node_CreationTimestamp n \<le> node_CreationTimestamp m) \<and>
    (\<forall>b. best = Some b \<longrightarrow> node_CreationTimestamp n \<le> node_CreationTimestamp b)"
proof (induction ns arbitrary: best)
  case (Cons x ns)
  then have "fold (pick_oldest ok) ns (pick_oldest ok x best) = Some n" by simp
  from Cons.IH [OF this] show ?case
    by (fastforce simp: pick_oldest_def split: if_splits option.splits)
qed simp

lemma new_zone_scan:
  assumes "scan_nodes N ns (scan_init N) = Some s"
  shows "new_zone (sc_managementZones s) n \<longleftrightarrow>
    zone_of n \<noteq> [] \<and> \<not> (\<exists>m \<in> set ns. IsManagementRole m \<and> zone_of m = zone_of n)"
  by (auto simp: new_zone_def Let_def scan_nodes_zones [OF assms])

lemma has_zones_scan:
  assumes "scan_nodes N ns (scan_init N) = Some s"
  shows "sc_managementZones s \<noteq> [] \<longleftrightarrow> (\<exists>m \<in> set ns. IsManagementRole m \<and> zone_of m \<noteq> [])"
proof -
  have "sc_managementZones s = [] \<longleftrightarrow> (\<forall>z. map_of (sc_managementZones s) z = None)"
    by (cases "sc_managementZones s") (auto split: prod.splits)
  then show ?thesis by (auto simp: scan_nodes_zones [OF assms])
qed

text \<open>The zone rule of a promotion: with zoned management nodes, only a zone of its own will do.\<close>

definition zone_ok :: "node list \<Rightarrow> node \<Rightarrow> bool" where
  "zone_ok ns n \<longleftrightarrow>
     list_ex (\<lambda>m. IsManagementRole m \<and> zone_of m \<noteq> []) ns \<longrightarrow>
     zone_of n \<noteq> [] \<and> \<not> list_ex (\<lambda>m. IsManagementRole m \<and> zone_of m = zone_of n) ns"

lemma zone_ok_scan:
  assumes "scan_nodes N ns (scan_init N) = Some s"
  shows "(\<lambda>n. \<not> sc_managementZones s \<noteq> [] \<or> new_zone (sc_managementZones s) n) = zone_ok ns"
  using has_zones_scan [OF assms] new_zone_scan [OF assms] by (auto simp: zone_ok_def list_ex_iff fun_eq_iff)

lemma selectPromoteNode_SomeE:
  assumes "selectPromoteNode ns = Some n"
  obtains s where "scan_nodes (length ns) ns (scan_init (length ns)) = Some s"
    and "fold (pick_oldest (zone_ok ns))
       (if sc_management s \<noteq> [] then sc_management s
        else if \<not> sc_witnessPromoted s \<and> sc_witness s \<noteq> [] then sc_witness s else sc_workers s) None = Some n"
proof -
  from assms obtain s where s: "scan_nodes (length ns) ns (scan_init (length ns)) = Some s"
    unfolding selectPromoteNode_def by (auto split: option.splits)
  with assms zone_ok_scan [OF s] that [OF s] show thesis
    unfolding selectPromoteNode_def by (auto simp: Let_def split: if_splits)
qed

lemma selected_eligible:
  assumes "selectPromoteNode ns = Some n"
  shows "n \<in> set ns" and "base_eligible n" and "zone_ok ns n" and "list_all promotion_idle ns"
proof -
  obtain s where s: "scan_nodes (length ns) ns (scan_init (length ns)) = Some s"
    and pick: "fold (pick_oldest (zone_ok ns))
       (if sc_management s \<noteq> [] then sc_management s
        else if \<not> sc_witnessPromoted s \<and> sc_witness s \<noteq> [] then sc_witness s else sc_workers s) None = Some n"
    by (rule selectPromoteNode_SomeE [OF assms])
  from pick_oldest_fold [OF pick] scan_nodes_management [OF s] scan_nodes_witnesses [OF s] scan_nodes_workers [OF s]
  show "n \<in> set ns" "base_eligible n" "zone_ok ns n" by (auto split: if_splits)
  from scan_nodes_idle [OF s] show "list_all promotion_idle ns" .
qed

section \<open>Properties\<close>

text \<open>
  C17. The node selected for promotion is one of the nodes, is healthy, managed by Harvester,
  schedulable, not reserved for worker duty and not yet a management node; fewer than three
  management nodes exist, no node is in the middle of a promotion or has a failed one, and when
  management nodes are spread over zones the new one opens a zone of its own.
\<close>

theorem promoted_node_eligible:
  assumes "selectPromoteNode ns = Some n" and "3 \<le> length ns"
  shows "n \<in> set ns \<and> base_eligible n \<and> zone_ok ns n \<and> list_all promotion_idle ns \<and>
    length (filter IsManagementRole ns) < 3"
  using selected_eligible [OF assms(1)] selectPromoteNode_SomeE [OF assms(1)] scan_nodes_number(2) [OF _ assms(2)]
  by blast

definition cp_node :: node where
  "cp_node = sample_node ''n1'' [(KubeControlPlaneNodeLabelKey, ''true''), (HarvesterManagedNodeLabelKey, ''true'')] [] []"

definition worker_node :: "string \<Rightarrow> int \<Rightarrow> node" where
  "worker_node name created =
     (sample_node name [(HarvesterManagedNodeLabelKey, ''true'')] [] [])\<lparr>node_CreationTimestamp := created\<rparr>"

definition promotion_cluster :: "node list" where
  "promotion_cluster = [cp_node, worker_node ''n2'' 3, worker_node ''n3'' 2]"

lemma promotion_cluster_selects: "selectPromoteNode promotion_cluster = Some (worker_node ''n3'' 2)"
  by code_simp

theorem promoted_node_eligible_witness:
  "base_eligible (worker_node ''n3'' 2) \<and> list_all promotion_idle promotion_cluster"
  using promoted_node_eligible [OF promotion_cluster_selects] by (simp add: promotion_cluster_def)

text \<open>
  Among the nodes that may be promoted, management-preferred ones come first, within a class
  the oldest wins, and a witness node is taken only when no witness has been promoted before.
\<close>

theorem promotion_priority:
  assumes "selectPromoteNode ns = Some n" and "m \<in> set ns" and "base_eligible m" and "zone_ok ns m"
    and "\<not> witness_label m"
  shows "(mgmt_label m \<longrightarrow> mgmt_label n) \<and>
    (mgmt_label m = mgmt_label n \<and> \<not> witness_label n \<longrightarrow> node_CreationTimestamp n \<le> node_CreationTimestamp m) \<and>
    (witness_label n \<and> \<not> mgmt_label n \<longrightarrow> \<not> list_ex (\<lambda>k. IsWitnessNode k (IsManagementRole k)) ns)"
proof -
  obtain s where s: "scan_nodes (length ns) ns (scan_init (length ns)) = Some s"
    and pick: "fold (pick_oldest (zone_ok ns))
       (if sc_management s \<noteq> [] then sc_management s
        else if \<not> sc_witnessPromoted s \<and> sc_witness s \<noteq> [] then sc_witness s else sc_workers s) None = Some n"
    by (rule selectPromoteNode_SomeE [OF assms(1)])
  have mgmt: "set (sc_management s) \<subseteq> {n. mgmt_label n}" "mgmt_label m \<Longrightarrow> m \<in> set (sc_management s)"
    and work: "set (sc_workers s) \<subseteq> {n. \<not> mgmt_label n \<and> \<not> witness_label n}" "\<not> mgmt_label m \<Longrightarrow> m \<in> set (sc_workers s)"
    and wit: "set (sc_witness s) \<subseteq> {n. \<not> mgmt_label n \<and> witness_label n}"
    using scan_nodes_management [OF s] scan_nodes_witnesses [OF s] scan_nodes_workers [OF s] assms(2,3,5) by auto
  note pick' = pick_oldest_fold [OF pick]
  have "mgmt_label m \<Longrightarrow> mgmt_label n" using pick' mgmt by (auto split: if_splits)
  moreover have "node_CreationTimestamp n \<le> node_CreationTimestamp m"
    if "mgmt_label m = mgmt_label n" "\<not> witness_label n"
    using pick' mgmt work wit that assms(4) by (fastforce split: if_splits)
  moreover have "\<not> list_ex (\<lambda>k. IsWitnessNode k (IsManagementRole k)) ns" if "witness_label n" "\<not> mgmt_label n"
    using pick' mgmt(1) work(1) that scan_nodes_witness [OF s] by (auto simp: list_ex_iff split: if_splits)
  ultimately show ?thesis by blast
qed

theorem promotion_priority_witness:
  "node_CreationTimestamp (worker_node ''n3'' 2) \<le> node_CreationTimestamp (worker_node ''n2'' 3)"
proof -
  have "base_eligible (worker_node ''n2'' 3)" "zone_ok promotion_cluster (worker_node ''n2'' 3)"
    "\<not> witness_label (worker_node ''n2'' 3)" "\<not> witness_label (worker_node ''n3'' 2)"
    "mgmt_label (worker_node ''n2'' 3) = mgmt_label (worker_node ''n3'' 2)"
    by code_simp+
  moreover have "worker_node ''n2'' 3 \<in> set promotion_cluster" by (simp add: promotion_cluster_def)
  ultimately show ?thesis using promotion_priority [OF promotion_cluster_selects] by blast
qed

text \<open>
  What the promote handler may ask for: the one-time cordon of a node installed as cordoned; the
  mark on the selected node; and the job on that same node, once the server has accepted the mark.
\<close>

definition promotion_mark :: "node \<Rightarrow> node" where
  "promotion_mark n = n\<lparr>node_Annotations := sset (node_Annotations n) HarvesterPromoteStatusAnnotationKey PromoteStatusRunning,
     node_Unschedulable := True\<rparr>"

definition promote_policy :: "promote_env \<Rightarrow> node \<Rightarrow> promote_call list \<Rightarrow> promote_call \<Rightarrow> bool" where
  "promote_policy e n h c =
     (\<exists>ns. pe_nodeCache_List e = Inr ns \<and>
       (case c of
          PromoteNodeUpdate u \<Rightarrow>
            h = [] \<and> u = reconcileInstallCordonedNode n ns \<and>
              sval (node_Annotations n) HarvesterInstallCordonedProcessedAnnotation \<noteq> ''true'' \<or>
            (\<exists>p. selectPromoteNode ns = Some p \<and> u = promotion_mark p \<and> node_Annotations p \<noteq> None)
        | PromoteJobCreate j \<Rightarrow>
            (\<exists>p h' r promoteImage. h = h' @ [PromoteNodeUpdate (promotion_mark p)] \<and> selectPromoteNode ns = Some p \<and>
               pe_nodes_Update e h' (promotion_mark p) = Inr r \<and>
               fetchImage e = Inr promoteImage \<and> j = buildPromoteJob e p promoteImage)
        | PromoteJobDelete a b \<Rightarrow> False
        | _ \<Rightarrow> True))"

lemma selected_not_running:
  assumes "selectPromoteNode ns = Some p"
  shows "sval (node_Annotations p) HarvesterPromoteStatusAnnotationKey \<noteq> PromoteStatusRunning"
proof -
  from selected_eligible(1,4) [OF assms] have "promotion_idle p" by (simp add: list_all_iff)
  then show ?thesis by (auto simp: promotion_idle_def IsPromoteStatusIn_def sval_def split: option.splits)
qed

lemma emits_promote:
  assumes "pe_nodeCache_List e = Inr ns" and "selectPromoteNode ns = Some p"
  shows "emits (promote_policy e n) (promote e p) []"
proof (cases "node_Annotations p")
  case None
  with selected_not_running [OF assms(2)] assms show ?thesis
    unfolding promote_def setPromoteStart_def logPromoteEvent_def Let_def
    by (auto simp: swrite_def promote_policy_def andthen_def intro!: emit_intros)
next
  case (Some l)
  let ?mark = "PromoteNodeUpdate (promotion_mark p)"
  have start: "setPromoteStart e p = State_Monad.bind (logPromoteEvent p PromoteStatusRunning) (\<lambda>_. promote_update e (promotion_mark p))"
    using selected_not_running [OF assms(2)] Some by (simp add: setPromoteStart_def swrite_def promotion_mark_def sset_def)
  obtain c where c: "logPromoteEvent p PromoteStatusRunning = request c (\<lambda>h. ())"
    and event: "promote_policy e n h c" for h
    by (auto simp: logPromoteEvent_def promote_policy_def Let_def assms)
  have "promote_policy e n [c] ?mark" using assms Some by (auto simp: promote_policy_def)
  moreover have "emits (promote_policy e n) (andthen (createPromoteJob e p) (\<lambda>_. ret (Inr u))) [c, ?mark]"
    if "pe_nodes_Update e [c] (promotion_mark p) = Inr u" for u
    unfolding createPromoteJob_def Let_def
    using assms that by (auto intro!: emit_intros simp: promote_policy_def andthen_def split: sum.splits)
  ultimately show ?thesis
    unfolding promote_def start c promote_update_def andthen_def bind_assoc
    by (auto intro!: emits_request_bind emits_case_sum emits_return event)
qed

lemma emits_OnNodeChanged_promote:
  "emits (promote_policy e n) (OnNodeChanged_promote e (Some n)) []"
  unfolding OnNodeChanged_promote_def promote_update_def option.case
  by (intro emits_if emits_case_sum emits_case_option emits_return emits_andthen emits_bindI emits_request emits_promote)
    (simp_all add: promote_policy_def)

text \<open>
  C18. The promote handler creates a promote job only for the selected node, right after the server
  has accepted the update that marks the node as running its promotion and cordons it; apart from
  that it only cordons a node that was installed as cordoned and has not been processed yet.
\<close>

theorem promotion_marked_before_job:
  assumes "issued (OnNodeChanged_promote e (Some n)) = pre @ c # post"
  shows "promote_policy e n pre c"
  by (rule emits_issued [OF emits_OnNodeChanged_promote assms])

definition sample_promote_env :: "node list \<Rightarrow> promote_env" where
  "sample_promote_env ns =
     \<lparr>pe_nodeCache_List = Inr ns, pe_nodeCache_Get = \<lambda>name. Inl (ErrorString name),
      pe_nodes_Update = \<lambda>h n. Inr n, pe_jobs_Create = \<lambda>h j. Inr j, pe_jobs_Delete = \<lambda>h ns name. Inr (),
      fetchImage = Inr ''image'', pe_namespace = ''harvester-system''\<rparr>"

lemma sample_promotion:
  "issued (OnNodeChanged_promote (sample_promote_env promotion_cluster) (Some cp_node)) =
    [PromoteEvent ''n3'' ''Normal'' ''NodePromoteRunning'' ''Node n3 promote status change:  => running'',
     PromoteNodeUpdate (promotion_mark (worker_node ''n3'' 2))] @
    PromoteJobCreate (buildPromoteJob (sample_promote_env promotion_cluster) (worker_node ''n3'' 2) ''image'') # []"
  by code_simp

theorem promotion_marked_before_job_witness:
  "promote_policy (sample_promote_env promotion_cluster) cp_node
     [PromoteEvent ''n3'' ''Normal'' ''NodePromoteRunning'' ''Node n3 promote status change:  => running'',
      PromoteNodeUpdate (promotion_mark (worker_node ''n3'' 2))]
     (PromoteJobCreate (buildPromoteJob (sample_promote_env promotion_cluster) (worker_node ''n3'' 2) ''image''))"
  by (rule promotion_marked_before_job [OF sample_promotion])

text \<open>
  A node without any annotation stops the handler: the mark is written into a nil map, which
  panics after the event has been recorded and before anything has been sent to the server.
\<close>

lemma promotion_of_bare_node_panics:
  assumes "pe_nodeCache_List e = Inr ns" and "3 \<le> length ns" and "selectPromoteNode ns = Some p"
    and "node_Annotations p = None" and "node_Kind p \<noteq> []" and "node_APIVersion p \<noteq> []"
    and "node_DeletionTimestamp n = None" and "sval (node_Labels n) HarvesterInstallCordonedLabel \<noteq> ''true''"
  shows "outcome (OnNodeChanged_promote e (Some n)) = Inl (Panic ''assignment to entry in nil map'') \<and>
    list_all (\<lambda>c. case c of PromoteEvent _ _ _ _ \<Rightarrow> True | _ \<Rightarrow> False) (issued (OnNodeChanged_promote e (Some n)))"
proof -
  have "promote e p = State_Monad.bind (logPromoteEvent p PromoteStatusRunning)
      (\<lambda>_. ret (Inl (Panic ''assignment to entry in nil map'')))"
    using assms(4) by (simp add: promote_def setPromoteStart_def swrite_def andthen_def bind_assoc)
  with assms show ?thesis
    by (simp add: OnNodeChanged_promote_def andthen_def bind_assoc logPromoteEvent_def outcome_def issued_def)
qed

definition bare_node :: node where
  "bare_node = (worker_node ''n3'' 2)\<lparr>node_Annotations := None\<rparr>"

lemma promotion_of_bare_node_panics_witness:
  "outcome (OnNodeChanged_promote (sample_promote_env [cp_node, worker_node ''n2'' 3, bare_node]) (Some cp_node)) =
     Inl (Panic ''assignment to entry in nil map'')"
proof -
  let ?ns = "[cp_node, worker_node ''n2'' 3, bare_node]"
  have "selectPromoteNode ?ns = Some bare_node" by code_simp
  moreover have "node_Annotations bare_node = None" "node_Kind bare_node \<noteq> []" "node_APIVersion bare_node \<noteq> []"
    "node_DeletionTimestamp cp_node = None" "sval (node_Labels cp_node) HarvesterInstallCordonedLabel \<noteq> ''true''"
    by code_simp+
  ultimately show ?thesis using promotion_of_bare_node_panics [of "sample_promote_env ?ns" ?ns bare_node cp_node]
    by (simp add: sample_promote_env_def)
qed

definition promote_result_ok :: "promote_env \<Rightarrow> promote_job \<Rightarrow> promote_call \<Rightarrow> bool" where
  "promote_result_ok e job c =
     (case c of
        PromoteNodeUpdate u \<Rightarrow>
          (\<exists>name n status. sget (pj_Labels job) HarvesterPromoteNodeLabelKey = Some name \<and>
             pe_nodeCache_Get e name = Inr n \<and>
             u = n\<lparr>node_Annotations := sset (node_Annotations n) HarvesterPromoteStatusAnnotationKey status,
                   node_Unschedulable := (status \<noteq> PromoteStatusComplete \<and> node_Unschedulable n)\<rparr> \<and>
             (status = PromoteStatusComplete \<and> job_condition_true job ''Complete'' \<or>
              status = PromoteStatusFailed \<and> job_condition_true job ''Failed'' \<or>
              status = PromoteStatusUnknown \<and> IsPromoteStatusIn n [PromoteStatusRunning]))
      | PromoteJobDelete ns name \<Rightarrow> ns = pj_Namespace job \<and> name = pj_Name job
      | PromoteEvent _ _ _ _ \<Rightarrow> True
      | _ \<Rightarrow> False)"

lemma emits_setPromoteResult:
  assumes "sget (pj_Labels job) HarvesterPromoteNodeLabelKey = Some name" and "pe_nodeCache_Get e name = Inr n"
    and "status = PromoteStatusComplete \<and> job_condition_true job ''Complete'' \<or>
         status = PromoteStatusFailed \<and> job_condition_true job ''Failed'' \<or>
         status = PromoteStatusUnknown \<and> IsPromoteStatusIn n [PromoteStatusRunning]"
  shows "emits (\<lambda>_. promote_result_ok e job) (setPromoteResult e job n status) h"
proof -
  have upd: "promote_result_ok e job (PromoteNodeUpdate (if status = PromoteStatusComplete
      then n\<lparr>node_Annotations := a, node_Unschedulable := False\<rparr> else n\<lparr>node_Annotations := a\<rparr>))"
    if "swrite (node_Annotations n) HarvesterPromoteStatusAnnotationKey status = Inr a" for a
  proof -
    have "a = sset (node_Annotations n) HarvesterPromoteStatusAnnotationKey status"
      using that by (cases "node_Annotations n") (auto simp: swrite_def sset_def)
    then show ?thesis
      unfolding promote_result_ok_def promote_call.case
      by (intro exI [of _ name] exI [of _ n] exI [of _ status] conjI assms) simp
  qed
  then show ?thesis
    unfolding setPromoteResult_def logPromoteEvent_def promote_update_def Let_def
    by (intro emit_intros) (simp_all only: promote_call.case promote_result_ok_def upd [unfolded if_distrib])
qed

lemma emits_OnJobChanged_promote: "emits (\<lambda>_. promote_result_ok e job) (OnJobChanged_promote e (Some job)) []"
  unfolding OnJobChanged_promote_def deleteJob_def option.case
  by (intro emits_if emits_case_option emits_case_sum emits_return emits_andthen emits_request emits_setPromoteResult)
    (simp_all add: promote_result_ok_def)

lemma emits_OnJobRemove_promote: "emits (\<lambda>_. promote_result_ok e job) (OnJobRemove_promote e (Some job)) []"
  unfolding OnJobRemove_promote_def option.case
  by (intro emits_if emits_case_option emits_case_sum emits_return emits_setPromoteResult) simp_all

text \<open>
  The job handlers write a promotion result only for the node named by the job's label, and
  uncordon the node only when its job is complete.
\<close>

theorem promotion_results_match_job:
  assumes "c \<in> set (issued (OnJobChanged_promote e (Some job))) \<union> set (issued (OnJobRemove_promote e (Some job)))"
  shows "promote_result_ok e job c"
  using assms emits_issued_all [OF emits_OnJobChanged_promote] emits_issued_all [OF emits_OnJobRemove_promote] by blast

definition sample_promote_job :: promote_job where
  "sample_promote_job =
     (buildPromoteJob (sample_promote_env []) (worker_node ''n3'' 2) ''image'')\<lparr>pj_Conditions := [(''Complete'', ''True'')]\<rparr>"

definition promoted_env :: promote_env where
  "promoted_env = (sample_promote_env [])\<lparr>pe_nodeCache_Get := \<lambda>name. Inr (promotion_mark (worker_node name 2))\<rparr>"

theorem promotion_results_match_job_witness:
  "promote_result_ok promoted_env sample_promote_job
     (PromoteNodeUpdate ((worker_node ''n3'' 2)\<lparr>node_Annotations := Some [(HarvesterPromoteStatusAnnotationKey, PromoteStatusComplete)]\<rparr>))"
proof -
  have "issued (OnJobChanged_promote promoted_env (Some sample_promote_job)) =
    [PromoteEvent ''n3'' ''Normal'' ''NodePromoteComplete'' ''Node n3 promote status change: running => complete'',
     PromoteNodeUpdate ((worker_node ''n3'' 2)\<lparr>node_Annotations := Some [(HarvesterPromoteStatusAnnotationKey, PromoteStatusComplete)]\<rparr>)]"
    by code_simp
  then show ?thesis by (intro promotion_results_match_job) simp
qed

end
