(* ===== verification/Node_Down.thy ===== *)
theory Node_Down
  imports Node_Util
begin

text \<open>
  The node-down controller (\<^verbatim>\<open>pkg/controller/master/node/node_down_controller.go\<close>) and the setting it
  reads (\<^verbatim>\<open>DecodeVMForceResetPolicy\<close> in \<^verbatim>\<open>pkg/settings/settings_helper.go\<close>): when the Ready condition
  of a node is Unknown it first taints the node so that KubeVirt migrates the VMs away, and later
  taints it as out of service so that what is stuck there is deleted.

  Parameters: JSON decoding of the setting (\<open>policy_Unmarshal\<close>) and the \<^verbatim>\<open>currentPhase\<close> of the
  upgrade plans, as the dynamic client returns it. Upgrades are the label maps of the Upgrade
  objects; the \<^verbatim>\<open>NotIn\<close> selector is written out. A dereference of a nil condition is \<open>Panic\<close>.
\<close>

section \<open>Settings\<close>

record vm_force_reset_policy =
  vp_Enable :: bool
  vp_Period :: int
  vp_VMMigrationTimeout :: int

definition DecodeVMForceResetPolicy ::
  "(string \<Rightarrow> vm_force_reset_policy result) \<Rightarrow> string \<Rightarrow> vm_force_reset_policy result" where
  "DecodeVMForceResetPolicy unmarshal value =
     (case unmarshal value of
        Inl err \<Rightarrow> Inl (WrapError ''unmarshal failed, error: '' err ('', value: '' @ value))
      | Inr policy \<Rightarrow>
          if vp_Period policy \<le> 0
          then Inl (ErrorString (''period value should be greater than 0, value: '' @ int_str (vp_Period policy)))
          else if vp_VMMigrationTimeout policy < 0
          then Inl (ErrorString (''vmMigrationTimeout value should be greater than 0, value: '' @ int_str (vp_VMMigrationTimeout policy)))
          else if vp_VMMigrationTimeout policy = 0 then Inr (policy\<lparr>vp_VMMigrationTimeout := 180\<rparr>)
          else Inr policy)"

section \<open>Requests and environment\<close>

datatype nd_call =
    DownNodeUpdate node
  | DownNodeUpdateStatus node
  | DownEnqueueAfter string int

record nd_env =
  nd_Update :: "nd_call list \<Rightarrow> node \<Rightarrow> node result"
  nd_UpdateStatus :: "nd_call list \<Rightarrow> node \<Rightarrow> node result"
  nd_now :: "nd_call list \<Rightarrow> time"
  nd_upgrades_List :: "smap list result"
  nd_dynamicClient :: "string list result option"
  policy_Unmarshal :: "string \<Rightarrow> vm_force_reset_policy result"
  nd_policy_setting :: string

definition NodeDrainTaintDefaultKey :: string where
  "NodeDrainTaintDefaultKey = ''kubevirt.io/drain''"
definition TaintNodeOutOfService :: string where
  "TaintNodeOutOfService = ''node.kubernetes.io/out-of-service''"
definition LabelHarvesterUpgradeState :: string where
  "LabelHarvesterUpgradeState = ''harvesterhci.io/upgradeState''"

definition kubevirtDrainTaint :: taint where
  "kubevirtDrainTaint = \<lparr>taint_Key = NodeDrainTaintDefaultKey, taint_Value = [], taint_Effect = ''NoSchedule''\<rparr>"
definition nonGracefulTaint :: taint where
  "nonGracefulTaint = \<lparr>taint_Key = TaintNodeOutOfService, taint_Value = [], taint_Effect = ''NoExecute''\<rparr>"

abbreviation HarvesterNodeCondDrained :: string where "HarvesterNodeCondDrained \<equiv> ''Drained''"
abbreviation ReasonDraining :: string where "ReasonDraining \<equiv> ''HarvesterNodeIsDraining''"
abbreviation ReasonDrained :: string where "ReasonDrained \<equiv> ''HarvesterNodeIsDrained''"
definition HarvesterNodeDrainedCondMsg :: string where
  "HarvesterNodeDrainedCondMsg = ''Node is draining due to kubelet/node not ready.''"

section \<open>Helpers\<close>

fun getNodeTaint :: "taint list \<Rightarrow> string \<Rightarrow> taint option" where
  "getNodeTaint [] taintKey = None"
| "getNodeTaint (t # ts) taintKey = (if taint_Key t = taintKey then Some t else getNodeTaint ts taintKey)"

definition isOnUpgradeV1 :: "smap list result \<Rightarrow> bool" where
  "isOnUpgradeV1 upgrades =
     (case upgrades of
        Inl err \<Rightarrow> False
      | Inr items \<Rightarrow>
          filter (\<lambda>labels. case sget labels LabelHarvesterUpgradeState of
                      None \<Rightarrow> True
                    | Some state \<Rightarrow> state \<noteq> ''Succeeded'' \<and> state \<noteq> ''Failed'') items \<noteq> [])"

definition isOnUpgradeV2 :: "string list result option \<Rightarrow> bool" where
  "isOnUpgradeV2 dynamicClient =
     (case dynamicClient of
        None \<Rightarrow> False
      | Some (Inl err) \<Rightarrow> False
      | Some (Inr phases) \<Rightarrow> list_ex (\<lambda>phase. \<not> (phase = ''Succeeded'' \<or> phase = ''Failed'')) phases)"

definition isOnUpgrade :: "nd_env \<Rightarrow> bool" where
  "isOnUpgrade e = (if isOnUpgradeV1 (nd_upgrades_List e) then True else isOnUpgradeV2 (nd_dynamicClient e))"

definition fetchVMForceResetPolicy :: "nd_env \<Rightarrow> vm_force_reset_policy result" where
  "fetchVMForceResetPolicy e =
     (case DecodeVMForceResetPolicy (policy_Unmarshal e) (nd_policy_setting e) of
        Inl err \<Rightarrow> Inl (errorf_w ''failed to decode VMForceResetPolicy setting: '' err)
      | Inr policy \<Rightarrow> Inr policy)"

text \<open>
  \<^verbatim>\<open>time.Duration(timeout) * time.Second\<close> wraps; \<^verbatim>\<open>time.Until\<close> saturates.
\<close>

definition calculateRequeueInterval :: "time \<Rightarrow> node_condition \<Rightarrow> int \<Rightarrow> int" where
  "calculateRequeueInterval now cond timeout =
     (let targetInterval = wrap64 (timeout * 1000000000);
          deadline = nc_LastTransitionTime cond + targetInterval
      in sat64 (deadline - now))"

section \<open>Writes\<close>

definition addTaints :: "nd_env \<Rightarrow> node \<Rightarrow> taint list \<Rightarrow> (nd_call, node result) act" where
  "addTaints e n taints =
     (let nodeCpy = n\<lparr>node_Taints := node_Taints n @ taints\<rparr>
      in if node_Taints n \<noteq> node_Taints nodeCpy
         then request (DownNodeUpdate nodeCpy) (\<lambda>h. nd_Update e h nodeCpy)
         else ret (Inr n))"

definition removeTaints :: "nd_env \<Rightarrow> node \<Rightarrow> string list \<Rightarrow> (nd_call, unit result) act" where
  "removeTaints e n taintKeys =
     (let nodeCpy = n\<lparr>node_Taints := filter (\<lambda>t. \<not> list_ex (\<lambda>remove. taint_Key t = remove) taintKeys) (node_Taints n)\<rparr>
      in if node_Taints n \<noteq> node_Taints nodeCpy
         then andthen (request (DownNodeUpdate nodeCpy) (\<lambda>h. nd_Update e h nodeCpy)) (\<lambda>_. ret (Inr ()))
         else ret (Inr ()))"

definition createOrUpdateNodeCondition ::
  "nd_env \<Rightarrow> node \<Rightarrow> string \<Rightarrow> string \<Rightarrow> string \<Rightarrow> string \<Rightarrow> (nd_call, node result) act" where
  "createOrUpdateNodeCondition e n condType status reason message = do {
     now \<leftarrow> observe (nd_now e);
     let nodeCpy = SetNodeStatusCondition now n condType status reason message;
     request (DownNodeUpdateStatus nodeCpy) (\<lambda>h. nd_UpdateStatus e h nodeCpy) }"

definition removeHarvesterNodeDrainedCond :: "nd_env \<Rightarrow> node \<Rightarrow> (nd_call, unit result) act" where
  "removeHarvesterNodeDrainedCond e n =
     (let nodeCpy = n\<lparr>node_Conditions := filter (\<lambda>c. \<not> nc_Type c = HarvesterNodeCondDrained) (node_Conditions n)\<rparr>
      in andthen (request (DownNodeUpdateStatus nodeCpy) (\<lambda>h. nd_UpdateStatus e h nodeCpy)) (\<lambda>_. ret (Inr ())))"

definition triggerMigration :: "nd_env \<Rightarrow> node \<Rightarrow> (nd_call, unit result) act" where
  "triggerMigration e n =
     andthen (wrap_error (''failed to add kubevirt drain taint to node '' @ node_Name n @ '': '')
                (addTaints e n [kubevirtDrainTaint])) (\<lambda>nodeObj.
       andthen (wrap_error (''failed to create or update HarvesterNodeDrained condition (draining) for node '' @ node_Name n @ '': '')
                  (createOrUpdateNodeCondition e nodeObj HarvesterNodeCondDrained ConditionFalse ReasonDraining HarvesterNodeDrainedCondMsg))
         (\<lambda>_. ret (Inr ())))"

definition forceNodeCleanup :: "nd_env \<Rightarrow> node \<Rightarrow> (nd_call, unit result) act" where
  "forceNodeCleanup e n =
     andthen (wrap_error (''failed to add non-graceful taint to node '' @ node_Name n @ '': '')
                (addTaints e n [nonGracefulTaint])) (\<lambda>_. ret (Inr ()))"

definition addKubevirtTaintAfterExtraTimeout ::
  "nd_env \<Rightarrow> node \<Rightarrow> node_condition \<Rightarrow> int \<Rightarrow> (nd_call, unit result) act" where
  "addKubevirtTaintAfterExtraTimeout e n cond extraTime =
     (if getNodeTaint (node_Taints n) NodeDrainTaintDefaultKey \<noteq> None then ret (Inr ())
      else do {
        now \<leftarrow> observe (nd_now e);
        let requeueInterval = calculateRequeueInterval now cond extraTime;
        if 0 < requeueInterval
        then do {
          _ \<leftarrow> request (DownEnqueueAfter (node_Name n) requeueInterval) (\<lambda>h. ());
          ret (Inr ()) }
        else triggerMigration e n })"

definition waitAndAddOutOfServiceTaint ::
  "nd_env \<Rightarrow> node \<Rightarrow> node_condition option \<Rightarrow> int \<Rightarrow> (nd_call, unit result) act" where
  "waitAndAddOutOfServiceTaint e n condp vmMigrationTimeout =
     (case condp of
        None \<Rightarrow> ret (Inl (Panic ''nil pointer dereference''))
      | Some cond \<Rightarrow> do {
          now \<leftarrow> observe (nd_now e);
          let requeueInterval = calculateRequeueInterval now cond vmMigrationTimeout;
          if 0 < requeueInterval
          then do {
            _ \<leftarrow> request (DownEnqueueAfter (node_Name n) requeueInterval) (\<lambda>h. ());
            ret (Inr ()) }
          else
            andthen (wrap_error (''failed to cleanup stuck resources for node '' @ node_Name n @ '': '') (forceNodeCleanup e n)) (\<lambda>_.
              andthen (createOrUpdateNodeCondition e n HarvesterNodeCondDrained ConditionTrue ReasonDrained HarvesterNodeDrainedCondMsg)
                (\<lambda>_. ret (Inr ()))) })"

section \<open>Handler\<close>

definition node_unknown :: "nd_env \<Rightarrow> node \<Rightarrow> node_condition \<Rightarrow> (nd_call, unit result) act" where
  "node_unknown e n cond =
     (case fetchVMForceResetPolicy e of
        Inl err \<Rightarrow> ret (Inl (errorf_w ''failed to fetch VMForceResetPolicy setting: '' err))
      | Inr vmForceResetPolicy \<Rightarrow>
          if \<not> vp_Enable vmForceResetPolicy then ret (Inr ())
          else
            let drainCondition = FindNodeStatusCondition (node_Conditions n) HarvesterNodeCondDrained;
                hasKubevirtDrainTaint = getNodeTaint (node_Taints n) NodeDrainTaintDefaultKey \<noteq> None;
                hasOutOfServiceTaint = getNodeTaint (node_Taints n) TaintNodeOutOfService \<noteq> None;
                continue =
                  (if getNodeTaint (node_Taints n) NodeDrainTaintDefaultKey = None
                   then addKubevirtTaintAfterExtraTimeout e n cond (vp_Period vmForceResetPolicy)
                   else if getNodeTaint (node_Taints n) TaintNodeOutOfService = None
                   then waitAndAddOutOfServiceTaint e n drainCondition (vp_VMMigrationTimeout vmForceResetPolicy)
                   else ret (Inr ()))
            in if hasKubevirtDrainTaint \<and> hasOutOfServiceTaint
               then (case drainCondition of
                       None \<Rightarrow> ret (Inl (Panic ''nil pointer dereference''))
                     | Some dc \<Rightarrow>
                         if nc_Status dc = ConditionFalse
                         then andthen (createOrUpdateNodeCondition e n HarvesterNodeCondDrained ConditionTrue ReasonDrained HarvesterNodeDrainedCondMsg)
                                (\<lambda>_. ret (Inr ()))
                         else continue)
               else continue)"

definition node_ready :: "nd_env \<Rightarrow> node \<Rightarrow> (nd_call, unit result) act" where
  "node_ready e n =
     andthen (wrap_error (''failed to remove taints ['' @ NodeDrainTaintDefaultKey @ '' '' @ TaintNodeOutOfService @
                ''] from node '' @ node_Name n @ '': '')
                (removeTaints e n [NodeDrainTaintDefaultKey, TaintNodeOutOfService])) (\<lambda>_.
       if FindNodeStatusCondition (node_Conditions n) HarvesterNodeCondDrained \<noteq> None
       then wrap_error (''failed to reset HarvesterNodeFailure condition for node '' @ node_Name n @ '': '')
              (removeHarvesterNodeDrainedCond e n)
       else ret (Inr ()))"

text \<open>A Go \<^verbatim>\<open>switch\<close> does not fall through: the empty case for False ends the function.\<close>

definition checkNodeReady :: "nd_env \<Rightarrow> node \<Rightarrow> (nd_call, unit result) act" where
  "checkNodeReady e n =
     (case FindNodeStatusCondition (node_Conditions n) NodeReady of
        None \<Rightarrow> ret (Inl (ErrorString (''can't find '' @ NodeReady @ '' condition in node '' @ node_Name n)))
      | Some cond \<Rightarrow>
          if isOnUpgrade e then ret (Inr ())
          else if nc_Status cond = ConditionFalse then ret (Inr ())
          else if nc_Status cond = ConditionUnknown then node_unknown e n cond
          else if nc_Status cond = ConditionTrue then node_ready e n
          else ret (Inl (ErrorString (''unknown status '' @ nc_Status cond @ '' for condition '' @ NodeReady @
                 '' in node '' @ node_Name n))))"

definition OnNodeChanged_down :: "nd_env \<Rightarrow> node option \<Rightarrow> (nd_call, node option result) act" where
  "OnNodeChanged_down e arg =
     (case arg of
        None \<Rightarrow> ret (Inr None)
      | Some n \<Rightarrow>
          if node_DeletionTimestamp n \<noteq> None then ret (Inr (Some n))
          else andthen (wrap_error (''failed to check node ready for node '' @ node_Name n @ '': '') (checkNodeReady e n))
                 (\<lambda>_. ret (Inr (Some n))))"

section \<open>Lemmas\<close>

lemma getNodeTaint_None: "getNodeTaint ts k = None \<longleftrightarrow> k \<notin> taint_Key ` set ts"
  by (induction ts) auto

lemma taint_keys [simp]: "taint_Key kubevirtDrainTaint = NodeDrainTaintDefaultKey"
    "taint_Key nonGracefulTaint = TaintNodeOutOfService"
    "NodeDrainTaintDefaultKey \<noteq> TaintNodeOutOfService" "TaintNodeOutOfService \<noteq> NodeDrainTaintDefaultKey"
  by (simp_all add: kubevirtDrainTaint_def nonGracefulTaint_def NodeDrainTaintDefaultKey_def TaintNodeOutOfService_def)

lemma sat64_pos: "0 < sat64 x \<longleftrightarrow> 0 < x"
  by (auto simp: sat64_def)

definition deadline_passed :: "time \<Rightarrow> node_condition \<Rightarrow> int \<Rightarrow> bool" where
  "deadline_passed now cond seconds \<longleftrightarrow> nc_LastTransitionTime cond + wrap64 (seconds * 1000000000) \<le> now"

lemma calculateRequeueInterval_pos: "0 < calculateRequeueInterval now cond s \<longleftrightarrow> \<not> deadline_passed now cond s"
  by (auto simp: calculateRequeueInterval_def deadline_passed_def sat64_pos Let_def)

text \<open>Only the Drained condition of a status write may differ from the node it was built on.\<close>

definition drained_only :: "node \<Rightarrow> node \<Rightarrow> bool" where
  "drained_only n u \<longleftrightarrow> u = n\<lparr>node_Conditions := node_Conditions u\<rparr> \<and>
     (\<forall>t. t \<noteq> HarvesterNodeCondDrained \<longrightarrow>
        FindNodeStatusCondition (node_Conditions u) t = FindNodeStatusCondition (node_Conditions n) t)"

lemma drained_only_set: "drained_only n (SetNodeStatusCondition now n HarvesterNodeCondDrained s r m)"
  unfolding drained_only_def using SetNodeStatusCondition_other
  by (auto simp: SetNodeStatusCondition_def Let_def split: option.splits)

lemma drained_only_remove: "drained_only n (n\<lparr>node_Conditions := filter (\<lambda>c. \<not> nc_Type c = HarvesterNodeCondDrained) (node_Conditions n)\<rparr>)"
  by (auto simp: drained_only_def FindNodeStatusCondition_filter)

definition down_write :: "nd_env \<Rightarrow> node \<Rightarrow> node_condition \<Rightarrow> node \<Rightarrow> bool" where
  "down_write e n ready u \<longleftrightarrow>
     (\<exists>p. nc_Status ready = ConditionUnknown \<and> fetchVMForceResetPolicy e = Inr p \<and> vp_Enable p \<and>
       (getNodeTaint (node_Taints n) NodeDrainTaintDefaultKey = None \<and> deadline_passed (nd_now e []) ready (vp_Period p) \<and>
          u = n\<lparr>node_Taints := node_Taints n @ [kubevirtDrainTaint]\<rparr> \<or>
        (\<exists>drained. getNodeTaint (node_Taints n) NodeDrainTaintDefaultKey \<noteq> None \<and>
          getNodeTaint (node_Taints n) TaintNodeOutOfService = None \<and>
          FindNodeStatusCondition (node_Conditions n) HarvesterNodeCondDrained = Some drained \<and>
          deadline_passed (nd_now e []) drained (vp_VMMigrationTimeout p) \<and>
          u = n\<lparr>node_Taints := node_Taints n @ [nonGracefulTaint]\<rparr>))) \<or>
     nc_Status ready = ConditionTrue \<and>
       u = n\<lparr>node_Taints := filter (\<lambda>t. taint_Key t \<notin> {NodeDrainTaintDefaultKey, TaintNodeOutOfService}) (node_Taints n)\<rparr>"

definition nd_policy :: "nd_env \<Rightarrow> node \<Rightarrow> nd_call list \<Rightarrow> nd_call \<Rightarrow> bool" where
  "nd_policy e n h c \<longleftrightarrow>
     \<not> isOnUpgrade e \<and>
     (\<exists>ready. FindNodeStatusCondition (node_Conditions n) NodeReady = Some ready \<and>
       (case c of
          DownNodeUpdate u \<Rightarrow> h = [] \<and> down_write e n ready u
        | DownNodeUpdateStatus u \<Rightarrow>
            drained_only n u \<or>
            (\<exists>w s. h = [DownNodeUpdate w] \<and> nd_Update e [] w = Inr s \<and> drained_only s u)
        | DownEnqueueAfter name d \<Rightarrow> name = node_Name n \<and> 0 < d \<and> h = []))"

lemma emits_createOrUpdateNodeCondition:
  "(\<And>now. P h (DownNodeUpdateStatus (SetNodeStatusCondition now n t s r m))) \<Longrightarrow>
   emits P (createOrUpdateNodeCondition e n t s r m) h"
  unfolding createOrUpdateNodeCondition_def Let_def
  by (rule emits_bind [OF emits_observe]) (auto intro: emits_request)

lemma emits_node_ready:
  assumes "\<not> isOnUpgrade e" and "FindNodeStatusCondition (node_Conditions n) NodeReady = Some ready"
    and "nc_Status ready = ConditionTrue"
  shows "emits (nd_policy e n) (node_ready e n) []"
proof -
  have upd: "nd_policy e n [] (DownNodeUpdate (n\<lparr>node_Taints := filter (\<lambda>t. \<not> list_ex (\<lambda>remove. taint_Key t = remove)
      [NodeDrainTaintDefaultKey, TaintNodeOutOfService]) (node_Taints n)\<rparr>))"
    using assms by (auto simp: nd_policy_def down_write_def)
  have sta: "nd_policy e n h (DownNodeUpdateStatus (n\<lparr>node_Conditions := filter (\<lambda>c. \<not> nc_Type c = HarvesterNodeCondDrained) (node_Conditions n)\<rparr>))" for h
    using assms drained_only_remove by (auto simp: nd_policy_def)
  show ?thesis
    unfolding node_ready_def removeTaints_def removeHarvesterNodeDrainedCond_def Let_def
    by (intro emits_andthen emits_wrap_error emits_if emits_request emits_return upd sta)
qed

lemma emits_node_unknown:
  assumes "\<not> isOnUpgrade e" and "FindNodeStatusCondition (node_Conditions n) NodeReady = Some ready"
    and "nc_Status ready = ConditionUnknown"
  shows "emits (nd_policy e n) (node_unknown e n ready) []"
proof -
  have cond: "emits (nd_policy e n) (createOrUpdateNodeCondition e n HarvesterNodeCondDrained s r m) h" for s r m h
    using assms drained_only_set by (intro emits_createOrUpdateNodeCondition) (auto simp: nd_policy_def)
  have requeue: "nd_policy e n [] (DownEnqueueAfter (node_Name n) d)" if "0 < d" for d
    using assms that by (simp add: nd_policy_def)
  have migrate: "emits (nd_policy e n) (triggerMigration e n) []"
    if "fetchVMForceResetPolicy e = Inr p" "vp_Enable p" "getNodeTaint (node_Taints n) NodeDrainTaintDefaultKey = None"
      "deadline_passed (nd_now e []) ready (vp_Period p)" for p
  proof -
    let ?w = "n\<lparr>node_Taints := node_Taints n @ [kubevirtDrainTaint]\<rparr>"
    have "nd_policy e n [] (DownNodeUpdate ?w)" using assms that by (simp add: nd_policy_def down_write_def)
    moreover have "emits (nd_policy e n) (andthen (wrap_error msg (createOrUpdateNodeCondition e s HarvesterNodeCondDrained st r m))
        (\<lambda>_. ret (Inr ()))) [DownNodeUpdate ?w]"
      if "nd_Update e [] ?w = Inr s" for msg s st r m
      using assms that drained_only_set
      by (intro emits_andthen emits_wrap_error emits_return emits_createOrUpdateNodeCondition) (auto simp: nd_policy_def)
    ultimately show ?thesis
      unfolding triggerMigration_def addTaints_def Let_def andthen_wrap_error [of _ "if _ then _ else _"]
      by (auto intro!: emits_request_bind emits_case_sum emits_return)
  qed
  have cleanup: "emits (nd_policy e n) (forceNodeCleanup e n) []"
    if "fetchVMForceResetPolicy e = Inr p" "vp_Enable p" "getNodeTaint (node_Taints n) NodeDrainTaintDefaultKey \<noteq> None"
      "getNodeTaint (node_Taints n) TaintNodeOutOfService = None"
      "FindNodeStatusCondition (node_Conditions n) HarvesterNodeCondDrained = Some drained"
      "deadline_passed (nd_now e []) drained (vp_VMMigrationTimeout p)" for p drained
  proof -
    have "nd_policy e n [] (DownNodeUpdate (n\<lparr>node_Taints := node_Taints n @ [nonGracefulTaint]\<rparr>))"
      using assms that by (simp add: nd_policy_def down_write_def)
    then show ?thesis
      unfolding forceNodeCleanup_def addTaints_def Let_def
      by (auto intro!: emits_andthen emits_wrap_error emits_request emits_return)
  qed
  show ?thesis
    unfolding node_unknown_def addKubevirtTaintAfterExtraTimeout_def waitAndAddOutOfServiceTaint_def Let_def
    by (intro emits_case_sum emits_if emits_return emits_case_option emits_andthen emits_wrap_error cond
          emits_bind [OF emits_observe] emits_bindI emits_request)
      (auto simp: calculateRequeueInterval_pos intro!: requeue migrate cleanup)
qed

lemma emits_OnNodeChanged_down: "emits (nd_policy e n) (OnNodeChanged_down e (Some n)) []"
  unfolding OnNodeChanged_down_def checkNodeReady_def option.case
  by (intro emits_if emits_return emits_andthen emits_wrap_error emits_case_option emits_node_ready emits_node_unknown)

text \<open>
  A server with optimistic concurrency: a write is accepted only with the current resource
  version; an update of the node leaves its status alone, and an update of the status changes
  nothing else.
\<close>

fun down_server :: "node \<Rightarrow> nd_call list \<Rightarrow> node" where
  "down_server s [] = s"
| "down_server s (DownNodeUpdate u # h) =
     down_server (if node_ResourceVersion u = node_ResourceVersion s
       then u\<lparr>node_Conditions := node_Conditions s, node_ResourceVersion := node_ResourceVersion s + 1\<rparr> else s) h"
| "down_server s (DownNodeUpdateStatus u # h) =
     down_server (if node_ResourceVersion u = node_ResourceVersion s
       then s\<lparr>node_Conditions := node_Conditions u, node_ResourceVersion := node_ResourceVersion s + 1\<rparr> else s) h"
| "down_server s (DownEnqueueAfter name d # h) = down_server s h"

definition served :: "node \<Rightarrow> nd_call list \<Rightarrow> nd_call \<Rightarrow> node \<Rightarrow> node result" where
  "served s h c u =
     (if node_ResourceVersion u = node_ResourceVersion (down_server s h) then Inr (down_server s (h @ [c]))
      else Inl (ApiStatus Conflict ''the object has been modified''))"

definition down_env :: "nd_env \<Rightarrow> node \<Rightarrow> time \<Rightarrow> nd_env" where
  "down_env e s now = e\<lparr>nd_Update := \<lambda>h u. served s h (DownNodeUpdate u) u,
     nd_UpdateStatus := \<lambda>h u. served s h (DownNodeUpdateStatus u) u, nd_now := \<lambda>h. now\<rparr>"

definition reconcile_down :: "nd_env \<Rightarrow> time \<Rightarrow> node \<Rightarrow> node" where
  "reconcile_down e now s = down_server s (issued (OnNodeChanged_down (down_env e s now) (Some s)))"

lemma down_env_simps [simp]:
  "isOnUpgrade (down_env e s now) = isOnUpgrade e" "fetchVMForceResetPolicy (down_env e s now) = fetchVMForceResetPolicy e"
  "nd_now (down_env e s now) h = now" "nd_Update (down_env e s now) h u = served s h (DownNodeUpdate u) u"
  "nd_UpdateStatus (down_env e s now) h u = served s h (DownNodeUpdateStatus u) u"
  by (simp_all add: down_env_def isOnUpgrade_def fetchVMForceResetPolicy_def)

lemma SetNodeStatusCondition_rv [simp]:
  "node_ResourceVersion (SetNodeStatusCondition now n t s r m) = node_ResourceVersion n"
  "node_DeletionTimestamp (SetNodeStatusCondition now n t s r m) = node_DeletionTimestamp n"
  by (simp_all add: SetNodeStatusCondition_def Let_def split: option.splits)

definition down_node :: "nd_env \<Rightarrow> vm_force_reset_policy \<Rightarrow> node_condition \<Rightarrow> node \<Rightarrow> bool" where
  "down_node e p ready s \<longleftrightarrow> node_DeletionTimestamp s = None \<and> \<not> isOnUpgrade e \<and>
     FindNodeStatusCondition (node_Conditions s) NodeReady = Some ready \<and> nc_Status ready = ConditionUnknown \<and>
     fetchVMForceResetPolicy e = Inr p \<and> vp_Enable p"

lemmas down_defs = reconcile_down_def issued_def OnNodeChanged_down_def checkNodeReady_def node_unknown_def down_node_def Let_def

abbreviation with_drained :: "time \<Rightarrow> node \<Rightarrow> string \<Rightarrow> string \<Rightarrow> node_condition list" where
  "with_drained now s status reason \<equiv>
     node_Conditions (SetNodeStatusCondition now s HarvesterNodeCondDrained status reason HarvesterNodeDrainedCondMsg)"

lemma SetNodeStatusCondition_conditions:
  "node_Conditions s = node_Conditions s' \<Longrightarrow>
   node_Conditions (SetNodeStatusCondition now s t st r m) = node_Conditions (SetNodeStatusCondition now s' t st r m)"
  by (simp add: SetNodeStatusCondition_def Let_def split: option.splits)

text \<open>The three stages of the escalation, one reconcile each.\<close>

lemma reconcile_down_taints:
  assumes "down_node e p ready s" and "getNodeTaint (node_Taints s) NodeDrainTaintDefaultKey = None"
    and "deadline_passed now ready (vp_Period p)"
  shows "reconcile_down e now s =
    s\<lparr>node_Taints := node_Taints s @ [kubevirtDrainTaint], node_Conditions := with_drained now s ConditionFalse ReasonDraining,
      node_ResourceVersion := node_ResourceVersion s + 2\<rparr>"
  using assms
  by (simp add: down_defs addKubevirtTaintAfterExtraTimeout_def calculateRequeueInterval_pos triggerMigration_def
      addTaints_def createOrUpdateNodeCondition_def served_def)
    (rule arg_cong [of _ _ "\<lambda>cs. s\<lparr>node_Taints := _, node_Conditions := cs, node_ResourceVersion := _\<rparr>"],
     rule SetNodeStatusCondition_conditions, simp)

lemma reconcile_down_cleanup:
  assumes "down_node e p ready s" and "getNodeTaint (node_Taints s) NodeDrainTaintDefaultKey \<noteq> None"
    and "getNodeTaint (node_Taints s) TaintNodeOutOfService = None"
    and "FindNodeStatusCondition (node_Conditions s) HarvesterNodeCondDrained = Some drained"
    and "deadline_passed now drained (vp_VMMigrationTimeout p)"
  shows "reconcile_down e now s =
    s\<lparr>node_Taints := node_Taints s @ [nonGracefulTaint], node_ResourceVersion := node_ResourceVersion s + 1\<rparr>"
  using assms
  by (auto simp: down_defs waitAndAddOutOfServiceTaint_def calculateRequeueInterval_pos forceNodeCleanup_def
      addTaints_def createOrUpdateNodeCondition_def served_def)

lemma reconcile_down_drained:
  assumes "down_node e p ready s" and "getNodeTaint (node_Taints s) NodeDrainTaintDefaultKey \<noteq> None"
    and "getNodeTaint (node_Taints s) TaintNodeOutOfService \<noteq> None"
    and "FindNodeStatusCondition (node_Conditions s) HarvesterNodeCondDrained = Some drained"
    and "nc_Status drained = ConditionFalse"
  shows "reconcile_down e now s =
    s\<lparr>node_Conditions := with_drained now s ConditionTrue ReasonDrained, node_ResourceVersion := node_ResourceVersion s + 1\<rparr>"
  using assms by (auto simp: down_defs createOrUpdateNodeCondition_def served_def)

lemma with_drained_new:
  assumes "FindNodeStatusCondition (node_Conditions s) HarvesterNodeCondDrained = None"
  shows "\<exists>d. FindNodeStatusCondition (with_drained now s status reason) HarvesterNodeCondDrained = Some d \<and>
    nc_Status d = status \<and> nc_LastTransitionTime d = now"
  using assms by (simp add: SetNodeStatusCondition_def FindNodeStatusCondition_append)

section \<open>Properties\<close>

text \<open>
  C19. The node-down controller writes to a node only outside an upgrade. The drain taint is added
  only when the Ready condition has been Unknown for the configured period, the out-of-service
  taint only when the drain taint is already there and the Drained condition is older than the
  migration timeout, and both are removed only when the node is Ready again; a status write changes
  nothing but the Drained condition.
\<close>

theorem node_down_escalation_guarded:
  assumes "issued (OnNodeChanged_down e (Some n)) = pre @ c # post"
  shows "nd_policy e n pre c"
  by (rule emits_issued [OF emits_OnNodeChanged_down assms])

text \<open>
  C20. A node whose Ready condition stays Unknown is tainted for migration by the first reconcile
  after the period, tainted as out of service by the first reconcile after the migration timeout
  has passed since then, and reported as drained by the next one.
\<close>

theorem node_down_escalates:
  assumes "down_node e p ready s"
    and "getNodeTaint (node_Taints s) NodeDrainTaintDefaultKey = None"
    and "getNodeTaint (node_Taints s) TaintNodeOutOfService = None"
    and "FindNodeStatusCondition (node_Conditions s) HarvesterNodeCondDrained = None"
    and "deadline_passed t1 ready (vp_Period p)"
    and "t1 + wrap64 (vp_VMMigrationTimeout p * 1000000000) \<le> t2"
  shows "\<exists>d. node_Taints (reconcile_down e t3 (reconcile_down e t2 (reconcile_down e t1 s))) =
      node_Taints s @ [kubevirtDrainTaint, nonGracefulTaint] \<and>
    FindNodeStatusCondition (node_Conditions (reconcile_down e t3 (reconcile_down e t2 (reconcile_down e t1 s))))
      HarvesterNodeCondDrained = Some d \<and> nc_Status d = ConditionTrue \<and> nc_Reason d = ReasonDrained"
proof -
  let ?s1 = "s\<lparr>node_Taints := node_Taints s @ [kubevirtDrainTaint], node_Conditions := with_drained t1 s ConditionFalse ReasonDraining,
      node_ResourceVersion := node_ResourceVersion s + 2\<rparr>"
  let ?s2 = "?s1\<lparr>node_Taints := node_Taints s @ [kubevirtDrainTaint, nonGracefulTaint], node_ResourceVersion := node_ResourceVersion s + 3\<rparr>"
  have s1: "reconcile_down e t1 s = ?s1" by (rule reconcile_down_taints [OF assms(1,2,5)])
  obtain d1 where d1: "FindNodeStatusCondition (node_Conditions ?s1) HarvesterNodeCondDrained = Some d1"
    "nc_Status d1 = ConditionFalse" "nc_LastTransitionTime d1 = t1"
    using with_drained_new [OF assms(4), of t1 ConditionFalse ReasonDraining] by auto
  have down1: "down_node e p ready ?s1" and down2: "down_node e p ready ?s2"
    using assms(1) by (simp_all add: down_node_def SetNodeStatusCondition_other)
  have drain: "getNodeTaint (node_Taints ?s1) NodeDrainTaintDefaultKey \<noteq> None"
    "getNodeTaint (node_Taints ?s1) TaintNodeOutOfService = None"
    "getNodeTaint (node_Taints ?s2) NodeDrainTaintDefaultKey \<noteq> None"
    "getNodeTaint (node_Taints ?s2) TaintNodeOutOfService \<noteq> None"
    using assms(3) unfolding getNodeTaint_None by auto
  have "reconcile_down e t2 ?s1 = ?s2"
    using reconcile_down_cleanup [OF down1 drain(1,2) d1(1)] d1(3) assms(6) by (simp add: deadline_passed_def)
  moreover have "FindNodeStatusCondition (node_Conditions ?s2) HarvesterNodeCondDrained = Some d1" using d1(1) by simp
  ultimately show ?thesis
    unfolding s1 using reconcile_down_drained [OF down2 drain(3,4) _ d1(2), of t3]
      SetNodeStatusCondition_same [of t3 ?s2 HarvesterNodeCondDrained ConditionTrue ReasonDrained HarvesterNodeDrainedCondMsg]
    by auto
qed

abbreviation foreign_taints :: "node \<Rightarrow> taint list" where
  "foreign_taints s \<equiv> filter (\<lambda>t. taint_Key t \<notin> {NodeDrainTaintDefaultKey, TaintNodeOutOfService}) (node_Taints s)"

abbreviation without_drained :: "node \<Rightarrow> node_condition list" where
  "without_drained s \<equiv> filter (\<lambda>c. nc_Type c \<noteq> HarvesterNodeCondDrained) (node_Conditions s)"

definition ready_node :: "nd_env \<Rightarrow> node \<Rightarrow> bool" where
  "ready_node e s \<longleftrightarrow> node_DeletionTimestamp s = None \<and> \<not> isOnUpgrade e \<and>
     (\<exists>ready. FindNodeStatusCondition (node_Conditions s) NodeReady = Some ready \<and> nc_Status ready = ConditionTrue)"

lemma removed_taints:
  "filter (\<lambda>t. \<not> list_ex (\<lambda>remove. taint_Key t = remove) [NodeDrainTaintDefaultKey, TaintNodeOutOfService]) ts =
   filter (\<lambda>t. taint_Key t \<notin> {NodeDrainTaintDefaultKey, TaintNodeOutOfService}) ts"
  by (intro filter_cong) auto

lemmas ready_defs = reconcile_down_def issued_def OnNodeChanged_down_def checkNodeReady_def node_ready_def ready_node_def
  removeTaints_def removed_taints removeHarvesterNodeDrainedCond_def Let_def

lemma reconcile_ready_tainted:
  assumes "ready_node e s" and "foreign_taints s \<noteq> node_Taints s"
  shows "reconcile_down e now s = s\<lparr>node_Taints := foreign_taints s, node_ResourceVersion := node_ResourceVersion s + 1\<rparr>"
  using assms unfolding ready_defs by (auto simp: served_def)

lemma reconcile_ready_untainted:
  assumes "ready_node e s" and "foreign_taints s = node_Taints s"
  shows "reconcile_down e now s =
    (if FindNodeStatusCondition (node_Conditions s) HarvesterNodeCondDrained = None then s
     else s\<lparr>node_Conditions := without_drained s, node_ResourceVersion := node_ResourceVersion s + 1\<rparr>)"
  using assms unfolding ready_defs by (auto simp: served_def)

lemma without_drained_absent:
  "FindNodeStatusCondition (node_Conditions s) HarvesterNodeCondDrained = None \<Longrightarrow> without_drained s = node_Conditions s"
  by (force simp: FindNodeStatusCondition_None filter_id_conv)

text \<open>
  C21. When a node is Ready again, two reconciles bring it back: both taints and the Drained
  condition are gone, and every other taint and condition is as it was.
\<close>

theorem node_down_recovers:
  assumes "ready_node e s"
  shows "node_Taints (reconcile_down e t2 (reconcile_down e t1 s)) = foreign_taints s \<and>
    node_Conditions (reconcile_down e t2 (reconcile_down e t1 s)) = without_drained s"
proof (cases "foreign_taints s = node_Taints s")
  case True
  have "ready_node e (s\<lparr>node_Conditions := without_drained s, node_ResourceVersion := node_ResourceVersion s + 1\<rparr>)"
    using assms by (auto simp: ready_node_def FindNodeStatusCondition_filter)
  from reconcile_ready_untainted [OF this] reconcile_ready_untainted [OF assms True] without_drained_absent [of s] True
  show ?thesis by (auto simp: FindNodeStatusCondition_filter)
next
  case False
  let ?s1 = "s\<lparr>node_Taints := foreign_taints s, node_ResourceVersion := node_ResourceVersion s + 1\<rparr>"
  have "ready_node e ?s1" using assms by (auto simp: ready_node_def)
  from reconcile_ready_untainted [OF this] reconcile_ready_tainted [OF assms False] without_drained_absent [of s]
  show ?thesis by auto
qed

text \<open>
  A node whose Ready condition is False is left alone: no request is sent at all, although
  the comment on the handler counts False as down.
\<close>

lemma not_ready_false_is_ignored:
  assumes "FindNodeStatusCondition (node_Conditions n) NodeReady = Some ready" and "nc_Status ready = ConditionFalse"
  shows "issued (OnNodeChanged_down e (Some n)) = [] \<and> outcome (OnNodeChanged_down e (Some n)) = Inr (Some n)"
  using assms by (simp add: OnNodeChanged_down_def checkNodeReady_def issued_def outcome_def)

section \<open>Findings\<close>

text \<open>
  The update that adds the out-of-service taint returns a new version of the node, which is
  dropped; the status update that follows is built on the old one and is always rejected.
\<close>

lemma out_of_service_status_conflicts:
  assumes "down_node e p ready s" and "getNodeTaint (node_Taints s) NodeDrainTaintDefaultKey \<noteq> None"
    and "getNodeTaint (node_Taints s) TaintNodeOutOfService = None"
    and "FindNodeStatusCondition (node_Conditions s) HarvesterNodeCondDrained = Some drained"
    and "deadline_passed now drained (vp_VMMigrationTimeout p)"
  shows "\<exists>err. outcome (OnNodeChanged_down (down_env e s now) (Some s)) = Inl err \<and> is_conflict err"
  using assms
  by (auto simp: down_defs outcome_def waitAndAddOutOfServiceTaint_def calculateRequeueInterval_pos forceNodeCleanup_def
      addTaints_def createOrUpdateNodeCondition_def served_def is_conflict_def errorf_w_def)

text \<open>Both taints without the Drained condition, e.g. set by hand, crash the handler.\<close>

lemma tainted_without_condition_panics:
  assumes "down_node e p ready s" and "getNodeTaint (node_Taints s) NodeDrainTaintDefaultKey \<noteq> None"
    and "FindNodeStatusCondition (node_Conditions s) HarvesterNodeCondDrained = None"
  shows "outcome (OnNodeChanged_down e (Some s)) = Inl (Panic ''nil pointer dereference'')"
  using assms
  by (auto simp: down_defs outcome_def waitAndAddOutOfServiceTaint_def)

section \<open>Examples\<close>

definition down_condition :: "string \<Rightarrow> string \<Rightarrow> time \<Rightarrow> node_condition" where
  "down_condition t status since =
     \<lparr>nc_Type = t, nc_Status = status, nc_LastTransitionTime = since, nc_LastHeartbeatTime = since,
      nc_Reason = [], nc_Message = []\<rparr>"

definition down_example :: "taint list \<Rightarrow> node_condition list \<Rightarrow> node" where
  "down_example ts cs =
     \<lparr>node_Kind = ''Node'', node_APIVersion = ''v1'', node_Name = ''n1'', node_UID = ''u1'', node_ResourceVersion = 1,
      node_Labels = None, node_Annotations = None, node_CreationTimestamp = 0, node_DeletionTimestamp = None,
      node_Unschedulable = False, node_Taints = ts, node_Conditions = cs\<rparr>"

definition down_example_env :: nd_env where
  "down_example_env =
     \<lparr>nd_Update = \<lambda>h n. Inr n, nd_UpdateStatus = \<lambda>h n. Inr n, nd_now = \<lambda>h. 20 * 1000000000,
      nd_upgrades_List = Inr [], nd_dynamicClient = None,
      policy_Unmarshal = \<lambda>v. Inr \<lparr>vp_Enable = True, vp_Period = 15, vp_VMMigrationTimeout = 180\<rparr>,
      nd_policy_setting = ''{}''\<rparr>"

abbreviation down_unknown :: node where
  "down_unknown \<equiv> down_example [] [down_condition NodeReady ConditionUnknown 0]"

theorem node_down_escalation_guarded_witness:
  "nd_policy down_example_env down_unknown [] (DownNodeUpdate (down_unknown\<lparr>node_Taints := [kubevirtDrainTaint]\<rparr>))"
proof -
  have "\<exists>post. issued (OnNodeChanged_down down_example_env (Some down_unknown)) =
      [] @ DownNodeUpdate (down_unknown\<lparr>node_Taints := [kubevirtDrainTaint]\<rparr>) # post"
  proof
    show "issued (OnNodeChanged_down down_example_env (Some down_unknown)) =
      [] @ DownNodeUpdate (down_unknown\<lparr>node_Taints := [kubevirtDrainTaint]\<rparr>) #
        [DownNodeUpdateStatus (SetNodeStatusCondition (20 * 1000000000) (down_unknown\<lparr>node_Taints := [kubevirtDrainTaint]\<rparr>)
           HarvesterNodeCondDrained ConditionFalse ReasonDraining HarvesterNodeDrainedCondMsg)]"
      by code_simp
  qed
  then show ?thesis by (blast intro: node_down_escalation_guarded)
qed

lemma down_example_down:
  "down_node down_example_env \<lparr>vp_Enable = True, vp_Period = 15, vp_VMMigrationTimeout = 180\<rparr>
     (down_condition NodeReady ConditionUnknown 0) down_unknown"
proof -
  have "\<not> isOnUpgrade down_example_env"
    "fetchVMForceResetPolicy down_example_env = Inr \<lparr>vp_Enable = True, vp_Period = 15, vp_VMMigrationTimeout = 180\<rparr>"
    by code_simp+
  then show ?thesis by (simp add: down_node_def down_example_def down_condition_def)
qed

theorem node_down_escalates_witness:
  "node_Taints (reconcile_down down_example_env 0 (reconcile_down down_example_env (200 * 1000000000)
     (reconcile_down down_example_env (20 * 1000000000) down_unknown))) = [kubevirtDrainTaint, nonGracefulTaint]"
  using node_down_escalates [OF down_example_down, of "20 * 1000000000" "200 * 1000000000" 0]
  by (auto simp: down_example_def down_condition_def deadline_passed_def)

theorem node_down_recovers_witness:
  "node_Taints (reconcile_down down_example_env 1 (reconcile_down down_example_env 0
     (down_example [kubevirtDrainTaint] [down_condition NodeReady ConditionTrue 0]))) = []"
proof -
  have "\<not> isOnUpgrade down_example_env" by code_simp
  then have "ready_node down_example_env (down_example [kubevirtDrainTaint] [down_condition NodeReady ConditionTrue 0])"
    by (simp add: ready_node_def down_example_def down_condition_def)
  from node_down_recovers [OF this, of 1 0] show ?thesis by (simp add: down_example_def)
qed

lemma not_ready_false_is_ignored_witness:
  "issued (OnNodeChanged_down down_example_env (Some (down_example [] [down_condition NodeReady ConditionFalse 0]))) = []"
  using not_ready_false_is_ignored [of "down_example [] [down_condition NodeReady ConditionFalse 0]"
      "down_condition NodeReady ConditionFalse 0" down_example_env]
  by (simp add: down_example_def down_condition_def)

end
