(* ===== verification/Resource_Quota.thy ===== *)
theory Resource_Quota
  imports Complex_Main Kube_Objects
begin

text \<open>
  Resource quotas: the annotations of \<^verbatim>\<open>pkg/util/resourcequota/utils.go\<close>, the calculator of
  \<^verbatim>\<open>pkg/util/resourcequota/calculator.go\<close>, its errors (\<^verbatim>\<open>error.go\<close>), the annotation keys of
  \<^verbatim>\<open>pkg/util/annotationkey.go\<close> and the memory overhead ratio of \<^verbatim>\<open>pkg/util/setting.go\<close> and
  \<^verbatim>\<open>pkg/settings/settings_helper.go\<close>.

  A \<^verbatim>\<open>resource.Quantity\<close> is an exact decimal; it is an integer number of nano-units, the finest
  precision the library keeps. Its display format plays no part. A \<^verbatim>\<open>corev1.ResourceList\<close> is a map
  from resource names; \<open>None\<close> is the nil map. JSON coding of resource lists and of the Rancher
  annotation, \<^verbatim>\<open>resource.ParseQuantity\<close>, \<^verbatim>\<open>strconv.ParseFloat\<close> and KubeVirt's
  \<^verbatim>\<open>GetMemoryOverhead\<close> are parameters, collected with the caches in \<open>quota_env\<close>; of the entries of a
  volume claim template annotation only the storage request is kept.
\<close>

section \<open>Quantities and resource lists\<close>

type_synonym quantity = int
type_synonym resource_list = "(string \<times> quantity) list option"

definition rl_index :: "resource_list \<Rightarrow> string \<Rightarrow> quantity option" where
  "rl_index rl k = (case rl of None \<Rightarrow> None | Some l \<Rightarrow> map_of l k)"

definition rl_name :: "resource_list \<Rightarrow> string \<Rightarrow> quantity" where
  "rl_name rl k = (case rl_index rl k of None \<Rightarrow> 0 | Some q \<Rightarrow> q)"

definition rl_write :: "resource_list \<Rightarrow> string \<Rightarrow> quantity \<Rightarrow> resource_list result" where
  "rl_write rl k q = (case rl of None \<Rightarrow> Inl (Panic ''assignment to entry in nil map'')
                               | Some l \<Rightarrow> Inr (Some (AList.update k q l)))"

abbreviation ResourceCPU :: string where "ResourceCPU \<equiv> ''cpu''"
abbreviation ResourceMemory :: string where "ResourceMemory \<equiv> ''memory''"
abbreviation ResourceLimitsCPU :: string where "ResourceLimitsCPU \<equiv> ''limits.cpu''"
abbreviation ResourceLimitsMemory :: string where "ResourceLimitsMemory \<equiv> ''limits.memory''"
abbreviation ResourceRequestsStorage :: string where "ResourceRequestsStorage \<equiv> ''requests.storage''"

section \<open>Objects\<close>

record resource_quota =
  rq_Namespace :: string
  rq_Name :: string
  rq_Labels :: smap
  rq_Annotations :: smap
  rq_DeletionTimestamp :: "time option"
  rq_Hard :: resource_list
  rq_Used :: resource_list

record quota_limit =
  ql_Pods :: string
  ql_Services :: string
  ql_ReplicationControllers :: string
  ql_Secrets :: string
  ql_ConfigMaps :: string
  ql_PersistentVolumeClaims :: string
  ql_ServicesNodePorts :: string
  ql_ServicesLoadBalancers :: string
  ql_RequestsCPU :: string
  ql_RequestsMemory :: string
  ql_RequestsStorage :: string
  ql_LimitsCPU :: string
  ql_LimitsMemory :: string

record migration_state =
  ms_MigrationUID :: string
  ms_Completed :: bool
  ms_AbortStatus :: string

record mvmi = vmi +
  vmi_UID :: string
  vmi_Limits :: resource_list
  vmi_DeletionTimestamp :: "time option"
  vmi_MigrationState :: "migration_state option"

text \<open>\<open>vm_Template\<close> is the limits of the domain in the VM template, \<open>None\<close> a nil template.\<close>

record qvm = vm +
  vm_PrintableStatus :: string
  vm_Template :: "resource_list option"

datatype go_float = NaN | PosInf | NegInf | Flt rat

fun flt_less :: "go_float \<Rightarrow> go_float \<Rightarrow> bool" where
  "flt_less (Flt x) (Flt y) = (x < y)"
| "flt_less NegInf (Flt y) = True"
| "flt_less NegInf PosInf = True"
| "flt_less (Flt x) PosInf = True"
| "flt_less _ _ = False"

fun flt_eq :: "go_float \<Rightarrow> go_float \<Rightarrow> bool" where
  "flt_eq NaN _ = False"
| "flt_eq x y = (x = y)"

record quota_env =
  rl_Marshal :: "resource_list \<Rightarrow> string result"
  rl_Unmarshal :: "string \<Rightarrow> resource_list result"
  nrq_Unmarshal :: "string \<Rightarrow> quota_limit option result"
  ParseQuantity :: "string \<Rightarrow> quantity result"
  ParseFloat :: "string \<Rightarrow> go_float result"
  GetMemoryOverhead :: "mvmi \<Rightarrow> string option \<Rightarrow> quantity"
  vct_Unmarshal :: "string \<Rightarrow> quantity list result"
  quota_mapOrder :: "string list \<Rightarrow> string list"
  nsCache_Get :: "string \<Rightarrow> smap result"
  podCache_GetByIndex :: "string \<Rightarrow> string list result"
  rqCache_List :: "string \<Rightarrow> resource_quota list result"
  settingCache :: "setting option result option"

section \<open>Keys\<close>

definition CattleAnnotationResourceQuota :: string where
  "CattleAnnotationResourceQuota = ''field.cattle.io/resourceQuota''"
definition LabelManagementDefaultResourceQuota :: string where
  "LabelManagementDefaultResourceQuota = ''resourcequota.management.cattle.io/default-resource-quota''"
definition AnnotationMigratingNamePrefix :: string where
  "AnnotationMigratingNamePrefix = ''harvesterhci.io/migrating-''"
definition AnnotationMigratingUIDPrefix :: string where
  "AnnotationMigratingUIDPrefix = ''harvesterhci.io/migratingUID-''"
definition AnnotationMigratingCompensation :: string where
  "AnnotationMigratingCompensation = ''harvesterhci.io/migratingCompensation''"
definition AnnotationMigratingScalingResyncNeeded :: string where
  "AnnotationMigratingScalingResyncNeeded = ''harvesterhci.io/migratingScalingResyncNeeded''"
definition AnnotationSkipResourceQuotaAutoScaling :: string where
  "AnnotationSkipResourceQuotaAutoScaling = ''harvesterhci.io/skipResourceQuotaAutoScaling''"
definition AnnotationVolumeClaimTemplates :: string where
  "AnnotationVolumeClaimTemplates = ''harvesterhci.io/volumeClaimTemplates''"

definition GenerateAnnotationKeyMigratingVMName :: "string \<Rightarrow> string" where
  "GenerateAnnotationKeyMigratingVMName vmName = AnnotationMigratingNamePrefix @ vmName"

definition GenerateAnnotationKeyMigratingVMUID :: "string \<Rightarrow> string" where
  "GenerateAnnotationKeyMigratingVMUID vmUID = AnnotationMigratingUIDPrefix @ vmUID"

text \<open>\<^verbatim>\<open>strings.HasPrefix\<close> and \<^verbatim>\<open>strings.TrimPrefix\<close>.\<close>

definition has_prefix :: "string \<Rightarrow> string \<Rightarrow> bool" where
  "has_prefix s p = (take (length p) s = p)"

definition trim_prefix :: "string \<Rightarrow> string \<Rightarrow> string" where
  "trim_prefix s p = (if has_prefix s p then drop (length p) s else s)"

section \<open>Annotations of a quota\<close>

text \<open>The pointer argument \<open>rq\<close> is an option, \<open>None\<close> for nil; functions that write return the new object.\<close>

definition HasMigratingVM :: "resource_quota option \<Rightarrow> bool" where
  "HasMigratingVM rqp =
     (case rqp of
        None \<Rightarrow> False
      | Some rq \<Rightarrow>
          (case rq_Annotations rq of
             None \<Rightarrow> False
           | Some l \<Rightarrow> list_ex (\<lambda>(k, v). has_prefix k AnnotationMigratingUIDPrefix \<or> has_prefix k AnnotationMigratingNamePrefix) l))"

definition mark_migrating :: "string \<Rightarrow> string \<Rightarrow> string \<Rightarrow> resource_quota \<Rightarrow> resource_quota" where
  "mark_migrating vmName vmUID rlb rq =
     (let annotations = (case rq_Annotations rq of None \<Rightarrow> Some [] | Some l \<Rightarrow> Some l)
      in rq\<lparr>rq_Annotations :=
           sset (sdel annotations (GenerateAnnotationKeyMigratingVMName vmName))
             (GenerateAnnotationKeyMigratingVMUID vmUID) rlb\<rparr>)"

definition AddMigratingVM ::
  "quota_env \<Rightarrow> resource_quota option \<Rightarrow> string \<Rightarrow> string \<Rightarrow> resource_list \<Rightarrow> resource_quota result" where
  "AddMigratingVM e rqp vmName vmUID rl =
     (case rqp of
        None \<Rightarrow> Inl (ErrorString ''failed to call AddMigratingVM as input rq is nil'')
      | Some rq \<Rightarrow>
          (case rl_Marshal e rl of
             Inl err \<Rightarrow> Inl err
           | Inr rlb \<Rightarrow> Inr (mark_migrating vmName vmUID rlb rq)))"

definition DeleteMigratingVM :: "resource_quota option \<Rightarrow> string \<Rightarrow> string \<Rightarrow> resource_quota option \<times> bool" where
  "DeleteMigratingVM rqp vmName vmUID =
     (case rqp of
        None \<Rightarrow> (None, False)
      | Some rq \<Rightarrow>
          if rq_Annotations rq = None then (Some rq, False)
          else let annotations = sdel (sdel (rq_Annotations rq) (GenerateAnnotationKeyMigratingVMName vmName))
                     (GenerateAnnotationKeyMigratingVMUID vmUID)
               in (Some (rq\<lparr>rq_Annotations := annotations\<rparr>), slen (rq_Annotations rq) \<noteq> slen annotations))"

definition ContainsMigratingVM :: "resource_quota option \<Rightarrow> string \<Rightarrow> string \<Rightarrow> bool" where
  "ContainsMigratingVM rqp vmName vmUID =
     (case rqp of
        None \<Rightarrow> False
      | Some rq \<Rightarrow>
          if rq_Annotations rq = None then False
          else if shas (rq_Annotations rq) (GenerateAnnotationKeyMigratingVMName vmName) then True
          else shas (rq_Annotations rq) (GenerateAnnotationKeyMigratingVMUID vmUID))"

fun migrating_lists ::
  "quota_env \<Rightarrow> (string \<times> string) list \<Rightarrow> (string \<times> resource_list) list \<Rightarrow> (string \<times> resource_list) list result" where
  "migrating_lists e [] vms = Inr vms"
| "migrating_lists e ((k, v) # rest) vms =
     (if has_prefix k AnnotationMigratingUIDPrefix
      then (case rl_Unmarshal e v of
              Inl err \<Rightarrow> Inl (errorf_w (''failed to unmarshal vm '' @ k @ '' quantity '' @ v @ '' '') err)
            | Inr rl \<Rightarrow> migrating_lists e rest (AList.update (trim_prefix k AnnotationMigratingUIDPrefix) rl vms))
      else if has_prefix k AnnotationMigratingNamePrefix
      then (case rl_Unmarshal e v of
              Inl err \<Rightarrow> Inl (errorf_w (''failed to unmarshal vm '' @ k @ '' quantity '' @ v @ '' '') err)
            | Inr rl \<Rightarrow> migrating_lists e rest (AList.update (trim_prefix k AnnotationMigratingNamePrefix) rl vms))
      else migrating_lists e rest vms)"

definition getResourceListFromMigratingVMs ::
  "quota_env \<Rightarrow> resource_quota option \<Rightarrow> (string \<times> resource_list) list result" where
  "getResourceListFromMigratingVMs e rqp =
     (case rqp of
        None \<Rightarrow> Inr []
      | Some rq \<Rightarrow>
          (case rq_Annotations rq of
             None \<Rightarrow> Inr []
           | Some l \<Rightarrow> migrating_lists e (range_over (quota_mapOrder e) l) []))"

definition HasMigratingCompensation :: "resource_quota option \<Rightarrow> bool" where
  "HasMigratingCompensation rqp =
     (case rqp of None \<Rightarrow> False | Some rq \<Rightarrow> sval (rq_Annotations rq) AnnotationMigratingCompensation \<noteq> [])"

definition AddMigratingCompensation ::
  "quota_env \<Rightarrow> resource_quota option \<Rightarrow> resource_list \<Rightarrow> resource_quota result" where
  "AddMigratingCompensation e rqp rl =
     (case rqp of
        None \<Rightarrow> Inl (ErrorString ''failed to call AddMigratingCompensation as input rq is nil'')
      | Some rq \<Rightarrow>
          (case rl_Marshal e rl of
             Inl err \<Rightarrow> Inl err
           | Inr rlb \<Rightarrow> Inr (rq\<lparr>rq_Annotations := sset (rq_Annotations rq) AnnotationMigratingCompensation rlb\<rparr>)))"

definition DeleteMigratingCompensation :: "resource_quota option \<Rightarrow> resource_quota option \<times> bool" where
  "DeleteMigratingCompensation rqp =
     (case rqp of
        None \<Rightarrow> (None, False)
      | Some rq \<Rightarrow>
          if rq_Annotations rq = None then (Some rq, False)
          else let annotations = sdel (rq_Annotations rq) AnnotationMigratingCompensation
               in (Some (rq\<lparr>rq_Annotations := annotations\<rparr>), slen (rq_Annotations rq) \<noteq> slen annotations))"

definition getResourceListOfMigratingCompensation ::
  "quota_env \<Rightarrow> resource_quota option \<Rightarrow> resource_list result" where
  "getResourceListOfMigratingCompensation e rqp =
     (case rqp of
        None \<Rightarrow> Inr None
      | Some rq \<Rightarrow>
          if rq_Annotations rq = None then Inr None
          else let compensation = sval (rq_Annotations rq) AnnotationMigratingCompensation
               in if compensation = [] then Inr None
                  else (case rl_Unmarshal e compensation of
                          Inl err \<Rightarrow> Inl (errorf_w (''failed to unmarshal compensation quantity '' @ compensation @ '' '') err)
                        | Inr rl \<Rightarrow> Inr rl))"

text \<open>The two writers of the resync flag are only called on a copy, never on nil.\<close>

definition SetAnnotationMigratingScalingResyncNeeded :: "resource_quota \<Rightarrow> resource_quota" where
  "SetAnnotationMigratingScalingResyncNeeded rq =
     rq\<lparr>rq_Annotations := sset (rq_Annotations rq) AnnotationMigratingScalingResyncNeeded ''true''\<rparr>"

definition ClearAnnotationMigratingScalingResyncNeeded :: "resource_quota \<Rightarrow> resource_quota" where
  "ClearAnnotationMigratingScalingResyncNeeded rq =
     (if rq_Annotations rq = None then rq
      else if sget (rq_Annotations rq) AnnotationMigratingScalingResyncNeeded \<noteq> Some ''true'' then rq
      else rq\<lparr>rq_Annotations := sset (rq_Annotations rq) AnnotationMigratingScalingResyncNeeded ''false''\<rparr>)"

definition IsMigratingScalingResyncNeeded :: "resource_quota option \<Rightarrow> bool" where
  "IsMigratingScalingResyncNeeded rqp =
     (case rqp of None \<Rightarrow> False | Some rq \<Rightarrow> sval (rq_Annotations rq) AnnotationMigratingScalingResyncNeeded = ''true'')"

definition IsResourceQuotaAutoScalingDisabled :: "resource_quota option \<Rightarrow> bool" where
  "IsResourceQuotaAutoScalingDisabled rqp =
     (case rqp of None \<Rightarrow> False | Some rq \<Rightarrow> sval (rq_Annotations rq) AnnotationSkipResourceQuotaAutoScaling = ''true'')"

section \<open>Limits\<close>

definition isEmpty :: "resource_quota option \<Rightarrow> bool" where
  "isEmpty rqp =
     (case rqp of
        None \<Rightarrow> True
      | Some rq \<Rightarrow> rq_Hard rq = None \<or> rl_name (rq_Hard rq) ResourceLimitsCPU = 0 \<and> rl_name (rq_Hard rq) ResourceLimitsMemory = 0)"

definition isMemoryLimitEmpty :: "resource_quota option \<Rightarrow> bool" where
  "isMemoryLimitEmpty rqp =
     (case rqp of
        None \<Rightarrow> True
      | Some rq \<Rightarrow> rq_Hard rq = None \<or> rl_name (rq_Hard rq) ResourceLimitsMemory = 0)"

definition IsEmptyResourceQuota :: "resource_quota option \<Rightarrow> bool" where
  "IsEmptyResourceQuota rqp = isEmpty rqp"

definition checkResourceQuotaAndVMI :: "resource_quota option \<Rightarrow> resource_list \<Rightarrow> bool" where
  "checkResourceQuotaAndVMI rqp limits =
     (if isEmpty rqp then False
      else if rl_name limits ResourceCPU = 0 \<and> rl_name limits ResourceMemory = 0 then False
      else True)"

definition GetMemoryLimitsFromRancherNamespaceResourceQuota :: "quota_env \<Rightarrow> quota_limit option \<Rightarrow> quantity result" where
  "GetMemoryLimitsFromRancherNamespaceResourceQuota e nrq =
     (case nrq of
        None \<Rightarrow> Inr 0
      | Some limit \<Rightarrow> if ql_LimitsMemory limit = [] then Inr 0 else ParseQuantity e (ql_LimitsMemory limit))"

definition GetCPUMemoryLimitsFromRancherNamespaceResourceQuota ::
  "quota_env \<Rightarrow> quota_limit option \<Rightarrow> (quantity \<times> quantity) result" where
  "GetCPUMemoryLimitsFromRancherNamespaceResourceQuota e nrq =
     (case nrq of
        None \<Rightarrow> Inr (0, 0)
      | Some limit \<Rightarrow>
          (case (if ql_LimitsCPU limit = [] then Inr 0 else ParseQuantity e (ql_LimitsCPU limit)) of
             Inl err \<Rightarrow> Inl err
           | Inr cpu \<Rightarrow>
               (case (if ql_LimitsMemory limit = [] then Inr 0 else ParseQuantity e (ql_LimitsMemory limit)) of
                  Inl err \<Rightarrow> Inl err
                | Inr mem \<Rightarrow> Inr (cpu, mem))))"

text \<open>The annotation is decoded into a struct, so JSON \<^verbatim>\<open>null\<close> leaves it at its zero value.\<close>

definition zero_limit :: quota_limit where
  "zero_limit = \<lparr>ql_Pods = [], ql_Services = [], ql_ReplicationControllers = [], ql_Secrets = [], ql_ConfigMaps = [],
     ql_PersistentVolumeClaims = [], ql_ServicesNodePorts = [], ql_ServicesLoadBalancers = [], ql_RequestsCPU = [],
     ql_RequestsMemory = [], ql_RequestsStorage = [], ql_LimitsCPU = [], ql_LimitsMemory = []\<rparr>"

definition IsResourceQuotaManagedByNamespaceAnnotation ::
  "quota_env \<Rightarrow> resource_quota option \<Rightarrow> string \<Rightarrow> bool result" where
  "IsResourceQuotaManagedByNamespaceAnnotation e rqp rqStr =
     (if rqStr = [] then Inr False
      else if IsEmptyResourceQuota rqp then Inr False
      else case nrq_Unmarshal e rqStr of
        Inl err \<Rightarrow> Inl err
      | Inr nrq \<Rightarrow>
          let rqBase = (case nrq of None \<Rightarrow> zero_limit | Some limit \<Rightarrow> limit)
          in (case GetCPUMemoryLimitsFromRancherNamespaceResourceQuota e (Some rqBase) of
                Inl err \<Rightarrow> Inl err
              | Inr (rCPULimit, rMemoryLimit) \<Rightarrow> Inr (rCPULimit \<noteq> 0 \<or> rMemoryLimit \<noteq> 0)))"

definition IsResourceQuotaManagedByNamespaceAnnotationWithMemoryLimits ::
  "quota_env \<Rightarrow> resource_quota option \<Rightarrow> string \<Rightarrow> bool result" where
  "IsResourceQuotaManagedByNamespaceAnnotationWithMemoryLimits e rqp rqStr =
     (if rqStr = [] then Inr False
      else if isMemoryLimitEmpty rqp then Inr False
      else case nrq_Unmarshal e rqStr of
        Inl err \<Rightarrow> Inl err
      | Inr nrq \<Rightarrow>
          let rqBase = (case nrq of None \<Rightarrow> zero_limit | Some limit \<Rightarrow> limit)
          in (case GetMemoryLimitsFromRancherNamespaceResourceQuota e (Some rqBase) of
                Inl err \<Rightarrow> Inl err
              | Inr rMemoryLimit \<Rightarrow> Inr (rMemoryLimit \<noteq> 0)))"

section \<open>Memory overhead ratio\<close>

definition AdditionalGuestMemoryOverheadRatioDefault :: string where
  "AdditionalGuestMemoryOverheadRatioDefault = ''1.5''"

record ratio_config =
  rc_value :: string
  rc_ratio :: go_float

definition NewAdditionalGuestMemoryOverheadRatioConfig :: "quota_env \<Rightarrow> string \<Rightarrow> ratio_config result" where
  "NewAdditionalGuestMemoryOverheadRatioConfig e value =
     (if value = [] then Inr \<lparr>rc_value = value, rc_ratio = Flt 0\<rparr>
      else case ParseFloat e value of
        Inl err \<Rightarrow> Inl (errorf_w (''value '' @ value @ '' can't be converted to float64, error:'') err)
      | Inr ratio \<Rightarrow>
          if flt_less ratio (Flt 1) \<and> \<not> flt_eq ratio (Flt 0)
          then Inl (ErrorString (''value '' @ value @ '' can't be less than 1''))
          else if flt_less (Flt 10) ratio
          then Inl (ErrorString (''value '' @ value @ '' can't be greater than 10''))
          else Inr \<lparr>rc_value = value, rc_ratio = ratio\<rparr>)"

definition ratio_IsEmpty :: "ratio_config \<Rightarrow> bool" where
  "ratio_IsEmpty agmorc \<longleftrightarrow> rc_value agmorc = [] \<or> flt_eq (rc_ratio agmorc) (Flt 0)"

definition GetAdditionalGuestMemoryOverheadRatioWithoutError :: "quota_env \<Rightarrow> string" where
  "GetAdditionalGuestMemoryOverheadRatioWithoutError e =
     (case settingCache e of
        None \<Rightarrow> AdditionalGuestMemoryOverheadRatioDefault
      | Some (Inl err) \<Rightarrow> AdditionalGuestMemoryOverheadRatioDefault
      | Some (Inr None) \<Rightarrow> AdditionalGuestMemoryOverheadRatioDefault
      | Some (Inr (Some s)) \<Rightarrow>
          let value = (if set_Value s = [] then set_Default s else set_Value s)
          in if value = [] then AdditionalGuestMemoryOverheadRatioDefault
             else (case NewAdditionalGuestMemoryOverheadRatioConfig e value of
                     Inl err \<Rightarrow> AdditionalGuestMemoryOverheadRatioDefault
                   | Inr agmorc \<Rightarrow>
                       if ratio_IsEmpty agmorc then AdditionalGuestMemoryOverheadRatioDefault
                       else rc_value agmorc))"

section \<open>Calculator\<close>

definition cpuInsufficientResourceError :: go_error where
  "cpuInsufficientResourceError = TypedError ''InsufficientResourceError'' ''cpu insufficient resources due to resource quota''"
definition memInsufficientResourceError :: go_error where
  "memInsufficientResourceError = TypedError ''InsufficientResourceError'' ''memory insufficient resources due to resource quota''"
definition storageInsufficientResourceError :: go_error where
  "storageInsufficientResourceError = TypedError ''InsufficientResourceError'' ''storage insufficient resources due to resource quota''"

definition IsInsufficientResourceError :: "go_error \<Rightarrow> bool" where
  "IsInsufficientResourceError err = (case err of TypedError t m \<Rightarrow> t = ''InsufficientResourceError'' | _ \<Rightarrow> False)"

definition getVMPods :: "quota_env \<Rightarrow> string \<Rightarrow> string \<Rightarrow> string list result" where
  "getVMPods e namespace vmName = podCache_GetByIndex e (NamespacedName namespace vmName)"

definition VMPodsExist :: "quota_env \<Rightarrow> string \<Rightarrow> string \<Rightarrow> bool result" where
  "VMPodsExist e namespace vmName =
     (case getVMPods e namespace vmName of
        Inl err \<Rightarrow> Inl err
      | Inr pods \<Rightarrow> if length pods = 0 then Inr False else Inr True)"

text \<open>Here the annotation is decoded into a pointer, which JSON \<^verbatim>\<open>null\<close> leaves nil.\<close>

definition getNamespaceResourceQuota :: "quota_env \<Rightarrow> qvm \<Rightarrow> quota_limit option result" where
  "getNamespaceResourceQuota e v =
     (case nsCache_Get e (vm_Namespace v) of
        Inl err \<Rightarrow> Inl err
      | Inr annotations \<Rightarrow>
          (case sget annotations CattleAnnotationResourceQuota of
             None \<Rightarrow> Inr None
           | Some rqStr \<Rightarrow>
               (case nrq_Unmarshal e rqStr of
                  Inl err \<Rightarrow> Inl err
                | Inr None \<Rightarrow> Inl (Panic ''nil pointer dereference'')
                | Inr (Some limit) \<Rightarrow>
                    if ql_LimitsCPU limit = [] \<and> ql_LimitsMemory limit = [] \<and> ql_RequestsStorage limit = []
                    then Inr None else Inr (Some limit))))"

definition default_quotas :: "resource_quota list \<Rightarrow> resource_quota list" where
  "default_quotas rqs = filter (\<lambda>rq. sget (rq_Labels rq) LabelManagementDefaultResourceQuota = Some ''true'') rqs"

definition getResourceQuota :: "quota_env \<Rightarrow> qvm \<Rightarrow> resource_quota list result" where
  "getResourceQuota e v =
     (case rqCache_List e (vm_Namespace v) of
        Inl err \<Rightarrow> Inl err
      | Inr rqs \<Rightarrow> Inr (default_quotas rqs))"

definition getVMIMResourcesFromRQAnnotation ::
  "quota_env \<Rightarrow> resource_quota option \<Rightarrow> (quantity \<times> quantity \<times> quantity) result" where
  "getVMIMResourcesFromRQAnnotation e rqp =
     (case getResourceListFromMigratingVMs e rqp of
        Inl err \<Rightarrow> Inl err
      | Inr vms \<Rightarrow>
          Inr (fold (\<lambda>(k, rl) (cpu, mem, storage).
                 (cpu + rl_name rl ResourceLimitsCPU, mem + rl_name rl ResourceLimitsMemory,
                  storage + rl_name rl ResourceRequestsStorage))
               (range_over (quota_mapOrder e) vms) (0, 0, 0)))"

definition limits_map :: "quota_limit \<Rightarrow> (string \<times> string) list" where
  "limits_map l = filter (\<lambda>(k, v). v \<noteq> [])
     [(''pods'', ql_Pods l), (''services'', ql_Services l), (''replicationControllers'', ql_ReplicationControllers l),
      (''secrets'', ql_Secrets l), (''configMaps'', ql_ConfigMaps l), (''persistentVolumeClaims'', ql_PersistentVolumeClaims l),
      (''servicesNodePorts'', ql_ServicesNodePorts l), (''servicesLoadBalancers'', ql_ServicesLoadBalancers l),
      (''requestsCpu'', ql_RequestsCPU l), (''requestsMemory'', ql_RequestsMemory l), (''requestsStorage'', ql_RequestsStorage l),
      (''limitsCpu'', ql_LimitsCPU l), (''limitsMemory'', ql_LimitsMemory l)]"

definition resourceQuotaConversion :: "(string \<times> string) list" where
  "resourceQuotaConversion =
     [(''limitsCpu'', ResourceLimitsCPU), (''limitsMemory'', ResourceLimitsMemory), (''requestsStorage'', ResourceRequestsStorage)]"

definition resource_name :: "string \<Rightarrow> string" where
  "resource_name key = (case map_of resourceQuotaConversion key of Some val \<Rightarrow> val | None \<Rightarrow> key)"

fun convert_limits :: "quota_env \<Rightarrow> (string \<times> string) list \<Rightarrow> (string \<times> quantity) list \<Rightarrow> resource_list result" where
  "convert_limits e [] limits = Inr (Some limits)"
| "convert_limits e ((key, value) # rest) limits =
     (case ParseQuantity e value of
        Inl err \<Rightarrow> Inl err
      | Inr q \<Rightarrow> convert_limits e rest (AList.update (resource_name key) q limits))"

text \<open>\<^verbatim>\<open>json.Marshal\<close> of the limit omits its empty fields.\<close>

definition convertNamespaceResourceLimitToResourceList :: "quota_env \<Rightarrow> quota_limit \<Rightarrow> resource_list result" where
  "convertNamespaceResourceLimitToResourceList e limit =
     convert_limits e (range_over (quota_mapOrder e) (limits_map limit)) []"

definition overhead_vmi :: "resource_list \<Rightarrow> mvmi" where
  "overhead_vmi limits =
     \<lparr>vmi_Namespace = [], vmi_Name = [], vmi_Labels = None, vmi_Annotations = None, vmi_OwnerReferences = [],
      vmi_Phase = [], vmi_NodeName = [], vmi_HostDevices = [], vmi_GPUs = [], vmi_Conditions = [],
      vmi_RequiredNodeAffinity = None, vmi_NodeSelector = None, vmi_UID = [], vmi_Limits = limits,
      vmi_DeletionTimestamp = None, vmi_MigrationState = None\<rparr>"

definition calculateVMActualOverhead :: "quota_env \<Rightarrow> qvm \<Rightarrow> quantity option" where
  "calculateVMActualOverhead e v =
     (case vm_Template v of
        None \<Rightarrow> None
      | Some None \<Rightarrow> None
      | Some (Some limits) \<Rightarrow>
          Some (GetMemoryOverhead e (overhead_vmi (Some limits))
                  (Some (GetAdditionalGuestMemoryOverheadRatioWithoutError e))))"

definition containsEnoughResourceQuotaToStartVM ::
  "quota_env \<Rightarrow> qvm \<Rightarrow> quota_limit \<Rightarrow> resource_quota \<Rightarrow> unit result" where
  "containsEnoughResourceQuotaToStartVM e v namespaceResourceQuota rq =
     (case getVMIMResourcesFromRQAnnotation e (Some rq) of
        Inl err \<Rightarrow> Inl err
      | Inr (vmimsCPU, vmimsMem, _) \<Rightarrow>
          let usedCPU = rl_name (rq_Used rq) ResourceLimitsCPU - vmimsCPU;
              usedMem = rl_name (rq_Used rq) ResourceLimitsMemory - vmimsMem
          in (case (vm_Template v, calculateVMActualOverhead e v) of
                (Some limits, Some memOverhead) \<Rightarrow>
                  let vmCPU = rl_name limits ResourceCPU;
                      vmMem = rl_name limits ResourceMemory + memOverhead
                  in (case convertNamespaceResourceLimitToResourceList e namespaceResourceQuota of
                        Inl err \<Rightarrow> Inl err
                      | Inr actualRq \<Rightarrow>
                          let actualCPU = rl_name actualRq ResourceLimitsCPU;
                              actualMem = rl_name actualRq ResourceLimitsMemory
                          in if actualCPU \<noteq> 0 \<and> actualCPU - usedCPU < vmCPU then Inl cpuInsufficientResourceError
                             else if actualMem \<noteq> 0 \<and> actualMem - usedMem < vmMem then Inl memInsufficientResourceError
                             else Inr ())
              | _ \<Rightarrow> Inl (Panic ''nil pointer dereference'')))"

definition CheckIfVMCanStartByResourceQuota :: "quota_env \<Rightarrow> qvm \<Rightarrow> unit result" where
  "CheckIfVMCanStartByResourceQuota e v =
     (if vm_PrintableStatus v = [] then Inr ()
      else case RunStrategy (vm.truncate v) of
        Inl err \<Rightarrow> Inl err
      | Inr strategy \<Rightarrow>
          if strategy = RunStrategyHalted then Inr ()
          else case VMPodsExist e (vm_Namespace v) (vm_Name v) of
            Inl err \<Rightarrow> Inl err
          | Inr exist \<Rightarrow>
              if exist then Inr ()
              else case getNamespaceResourceQuota e v of
                Inl err \<Rightarrow> Inl err
              | Inr None \<Rightarrow> Inr ()
              | Inr (Some nrq) \<Rightarrow>
                  (case getResourceQuota e v of
                     Inl err \<Rightarrow> Inl err
                   | Inr [] \<Rightarrow> Inr ()
                   | Inr (rq # _) \<Rightarrow> containsEnoughResourceQuotaToStartVM e v nrq rq))"

definition UnmarshalVolumeClaimTemplates :: "quota_env \<Rightarrow> string \<Rightarrow> quantity list result" where
  "UnmarshalVolumeClaimTemplates e data = (if data = [] then Inr [] else vct_Unmarshal e data)"

definition calculateVMStorageQuantity :: "quota_env \<Rightarrow> qvm \<Rightarrow> quantity result" where
  "calculateVMStorageQuantity e v =
     (case sget (vm_Annotations v) AnnotationVolumeClaimTemplates of
        None \<Rightarrow> Inr 0
      | Some volumeClaimTemplatesStr \<Rightarrow>
          if volumeClaimTemplatesStr = [] then Inr 0
          else case UnmarshalVolumeClaimTemplates e volumeClaimTemplatesStr of
            Inl err \<Rightarrow> Inl (errorf_w ''failed to unmarshal the volumeClaimTemplates annotation: '' err)
          | Inr requests \<Rightarrow> Inr (fold (\<lambda>q storage. storage + q) requests 0))"

definition storage_within :: "quota_env \<Rightarrow> quota_limit \<Rightarrow> quantity \<Rightarrow> quantity \<Rightarrow> unit result" where
  "storage_within e nrq usedStorage vmStorage =
     (case convertNamespaceResourceLimitToResourceList e nrq of
        Inl err \<Rightarrow> Inl err
      | Inr actualRq \<Rightarrow>
          let actualStorage = rl_name actualRq ResourceRequestsStorage
          in if actualStorage \<noteq> 0 \<and> actualStorage - usedStorage < vmStorage then Inl storageInsufficientResourceError
             else Inr ())"

definition CheckStorageResourceQuota :: "quota_env \<Rightarrow> qvm \<Rightarrow> qvm option \<Rightarrow> unit result" where
  "CheckStorageResourceQuota e v oldVM =
     (case getNamespaceResourceQuota e v of
        Inl err \<Rightarrow> Inl err
      | Inr None \<Rightarrow> Inr ()
      | Inr (Some nrq) \<Rightarrow>
          (case getResourceQuota e v of
             Inl err \<Rightarrow> Inl err
           | Inr [] \<Rightarrow> Inr ()
           | Inr (rq # _) \<Rightarrow>
               (case getVMIMResourcesFromRQAnnotation e (Some rq) of
                  Inl err \<Rightarrow> Inl err
                | Inr (_, _, vmimsStorage) \<Rightarrow>
                    let usedStorage = rl_name (rq_Used rq) ResourceRequestsStorage - vmimsStorage
                    in (case calculateVMStorageQuantity e v of
                          Inl err \<Rightarrow> Inl err
                        | Inr vmStorage \<Rightarrow>
                            (case oldVM of
                               None \<Rightarrow> storage_within e nrq usedStorage vmStorage
                             | Some old \<Rightarrow>
                                 (case calculateVMStorageQuantity e old of
                                    Inl err \<Rightarrow> Inl err
                                  | Inr oldVMStorage \<Rightarrow>
                                      if \<not> vmStorage > oldVMStorage then Inr ()
                                      else storage_within e nrq usedStorage (vmStorage - oldVMStorage)))))))"

section \<open>Scaling\<close>

definition CalculateScaleResourceQuotaWithVMI ::
  "quota_env \<Rightarrow> resource_quota option \<Rightarrow> mvmi \<Rightarrow> string option \<Rightarrow> bool \<times> resource_quota option \<times> resource_list" where
  "CalculateScaleResourceQuotaWithVMI e rqp v ratio =
     (let vmiLimits = vmi_Limits v
      in if \<not> checkResourceQuotaAndVMI rqp vmiLimits then (False, None, None)
         else case rqp of
           None \<Rightarrow> (False, None, None)
         | Some rq \<Rightarrow>
             let rl = [];
                 cpuOK = rl_index (rq_Hard rq) ResourceLimitsCPU \<noteq> None;
                 rl1 = (if rl_name vmiLimits ResourceCPU \<noteq> 0 \<and> cpuOK
                        then AList.update ResourceLimitsCPU (rl_name vmiLimits ResourceCPU) rl else rl);
                 memOK = rl_index (rq_Hard rq) ResourceLimitsMemory \<noteq> None;
                 rl2 = (if rl_name vmiLimits ResourceMemory \<noteq> 0 \<and> memOK
                        then AList.update ResourceLimitsMemory (rl_name vmiLimits ResourceMemory + GetMemoryOverhead e v ratio) rl1
                        else rl1)
             in (True, Some rq, Some rl2))"

text \<open>The two writes below index \<^verbatim>\<open>rq.Spec.Hard\<close>; a write to the nil map panics.\<close>

definition CalculateRestoreResourceQuotaWithVMI ::
  "resource_quota option \<Rightarrow> mvmi \<Rightarrow> resource_list \<Rightarrow> (bool \<times> resource_quota option) result" where
  "CalculateRestoreResourceQuotaWithVMI rqp v rl =
     (let vmiLimits = vmi_Limits v
      in if \<not> checkResourceQuotaAndVMI rqp vmiLimits then Inr (False, None)
         else case rqp of
           None \<Rightarrow> Inr (False, None)
         | Some rq \<Rightarrow>
             let hard1 = (case rl_index (rq_Hard rq) ResourceLimitsCPU of
                            Some currentCPULimit \<Rightarrow>
                              if rl_name vmiLimits ResourceCPU \<noteq> 0
                              then rl_write (rq_Hard rq) ResourceLimitsCPU (currentCPULimit - rl_name rl ResourceLimitsCPU)
                              else Inr (rq_Hard rq)
                          | None \<Rightarrow> Inr (rq_Hard rq))
             in (case hard1 of
                   Inl err \<Rightarrow> Inl err
                 | Inr h1 \<Rightarrow>
                     let hard2 = (case rl_index h1 ResourceLimitsMemory of
                                    Some currentMemoryLimit \<Rightarrow>
                                      if rl_name vmiLimits ResourceMemory \<noteq> 0
                                      then rl_write h1 ResourceLimitsMemory (currentMemoryLimit - rl_name rl ResourceLimitsMemory)
                                      else Inr h1
                                  | None \<Rightarrow> Inr h1)
                     in (case hard2 of
                           Inl err \<Rightarrow> Inl err
                         | Inr h2 \<Rightarrow> Inr (True, Some (rq\<lparr>rq_Hard := h2\<rparr>)))))"

definition set_hard :: "string \<Rightarrow> quantity \<Rightarrow> resource_quota \<times> bool \<Rightarrow> (resource_quota \<times> bool) result" where
  "set_hard k q p =
     (case p of (rq, needUpdate) \<Rightarrow>
        if rl_name (rq_Hard rq) k \<noteq> q
        then (case rl_write (rq_Hard rq) k q of
                Inl err \<Rightarrow> Inl err
              | Inr hard \<Rightarrow> Inr (rq\<lparr>rq_Hard := hard\<rparr>, True))
        else Inr (rq, needUpdate))"

definition CalculateNewResourceQuotaFromBaseDelta ::
  "resource_quota \<Rightarrow> quantity \<Rightarrow> quantity \<Rightarrow> quantity \<Rightarrow> quantity \<Rightarrow> quantity \<Rightarrow> (resource_quota \<times> bool) result" where
  "CalculateNewResourceQuotaFromBaseDelta rq cpuBase memBase cpuDelta memDelta memCompensation =
     (case (if cpuBase \<noteq> 0 then set_hard ResourceLimitsCPU (cpuBase + cpuDelta) (rq, False) else Inr (rq, False)) of
        Inl err \<Rightarrow> Inl err
      | Inr p \<Rightarrow>
          if memBase \<noteq> 0 then set_hard ResourceLimitsMemory (memBase + memDelta + memCompensation) p else Inr p)"

definition GetCompensationFromResourceQuota :: "quota_env \<Rightarrow> resource_quota option \<Rightarrow> quantity result" where
  "GetCompensationFromResourceQuota e rqp =
     (case getResourceListOfMigratingCompensation e rqp of
        Inl err \<Rightarrow> Inl err
      | Inr rl \<Rightarrow> if rl = None then Inr 0 else Inr (0 + rl_name rl ResourceLimitsMemory))"

definition nano :: quantity where "nano = 1000000000"

definition additionalCompensationMemory :: quantity where
  "additionalCompensationMemory = 128 * 2 ^ 20 * nano"

definition CalculateCompensationResourceQuotaWithVMI ::
  "quota_env \<Rightarrow> resource_quota option \<Rightarrow> mvmi option \<Rightarrow> string option \<Rightarrow> bool \<times> resource_list" where
  "CalculateCompensationResourceQuotaWithVMI e rqp vp ratio =
     (case (rqp, vp, ratio) of
        (Some rq, Some v, Some _) \<Rightarrow>
          let vmiLimits = vmi_Limits v
          in if isMemoryLimitEmpty rqp \<or> rl_name vmiLimits ResourceMemory = 0 then (False, None)
             else let mem = rl_name vmiLimits ResourceMemory + GetMemoryOverhead e v ratio;
                      limitMem = rl_name (rq_Hard rq) ResourceLimitsMemory;
                      usedMem = rl_name (rq_Used rq) ResourceLimitsMemory + mem
                  in if usedMem > limitMem
                     then (True, Some [(ResourceLimitsMemory, usedMem - limitMem + additionalCompensationMemory)])
                     else (False, None)
      | _ \<Rightarrow> (False, None))"

section \<open>Lemmas on the annotations\<close>

lemmas quota_keys = GenerateAnnotationKeyMigratingVMName_def GenerateAnnotationKeyMigratingVMUID_def
  AnnotationMigratingNamePrefix_def AnnotationMigratingUIDPrefix_def AnnotationMigratingCompensation_def
  AnnotationMigratingScalingResyncNeeded_def AnnotationSkipResourceQuotaAutoScaling_def

abbreviation uid_key :: "string \<Rightarrow> string" where "uid_key \<equiv> GenerateAnnotationKeyMigratingVMUID"
abbreviation name_key :: "string \<Rightarrow> string" where "name_key \<equiv> GenerateAnnotationKeyMigratingVMName"
abbreviation is_uid_key :: "string \<Rightarrow> bool" where "is_uid_key k \<equiv> has_prefix k AnnotationMigratingUIDPrefix"
abbreviation is_name_key :: "string \<Rightarrow> bool" where "is_name_key k \<equiv> has_prefix k AnnotationMigratingNamePrefix"

lemma is_uid_key_iff: "is_uid_key k \<longleftrightarrow> (\<exists>u. k = uid_key u)"
proof
  assume "is_uid_key k"
  then have "k = AnnotationMigratingUIDPrefix @ drop (length AnnotationMigratingUIDPrefix) k"
    unfolding has_prefix_def by (metis append_take_drop_id)
  then show "\<exists>u. k = uid_key u" by (auto simp: GenerateAnnotationKeyMigratingVMUID_def)
qed (auto simp: has_prefix_def GenerateAnnotationKeyMigratingVMUID_def)

lemma is_name_key_iff: "is_name_key k \<longleftrightarrow> (\<exists>u. k = name_key u)"
proof
  assume "is_name_key k"
  then have "k = AnnotationMigratingNamePrefix @ drop (length AnnotationMigratingNamePrefix) k"
    unfolding has_prefix_def by (metis append_take_drop_id)
  then show "\<exists>u. k = name_key u" by (auto simp: GenerateAnnotationKeyMigratingVMName_def)
qed (auto simp: has_prefix_def GenerateAnnotationKeyMigratingVMName_def)

lemma uid_key_inject [simp]: "uid_key u = uid_key u' \<longleftrightarrow> u = u'"
  by (simp add: GenerateAnnotationKeyMigratingVMUID_def)

lemma trim_uid_key [simp]: "trim_prefix (uid_key u) AnnotationMigratingUIDPrefix = u"
  by (simp add: trim_prefix_def has_prefix_def GenerateAnnotationKeyMigratingVMUID_def)

lemma distinct_keys [simp]:
  "uid_key u \<noteq> name_key n" "name_key n \<noteq> uid_key u"
  "uid_key u \<noteq> AnnotationMigratingCompensation" "AnnotationMigratingCompensation \<noteq> uid_key u"
  "name_key n \<noteq> AnnotationMigratingCompensation" "AnnotationMigratingCompensation \<noteq> name_key n"
  "uid_key u \<noteq> AnnotationMigratingScalingResyncNeeded" "AnnotationMigratingScalingResyncNeeded \<noteq> uid_key u"
  "name_key n \<noteq> AnnotationMigratingScalingResyncNeeded" "AnnotationMigratingScalingResyncNeeded \<noteq> name_key n"
  "AnnotationMigratingCompensation \<noteq> AnnotationMigratingScalingResyncNeeded"
  "AnnotationMigratingScalingResyncNeeded \<noteq> AnnotationMigratingCompensation"
  "uid_key u \<noteq> AnnotationSkipResourceQuotaAutoScaling" "AnnotationSkipResourceQuotaAutoScaling \<noteq> uid_key u"
  "name_key n \<noteq> AnnotationSkipResourceQuotaAutoScaling" "AnnotationSkipResourceQuotaAutoScaling \<noteq> name_key n"
  "AnnotationSkipResourceQuotaAutoScaling \<noteq> AnnotationMigratingCompensation"
  "AnnotationSkipResourceQuotaAutoScaling \<noteq> AnnotationMigratingScalingResyncNeeded"
  by (simp_all add: quota_keys)

text \<open>The migrating VMs of a quota, by UID, with the text of their resource list.\<close>

definition migrating_marks :: "resource_quota \<Rightarrow> string \<Rightarrow> string option" where
  "migrating_marks rq uid = sget (rq_Annotations rq) (uid_key uid)"

definition unmark_migrating :: "string \<Rightarrow> string \<Rightarrow> resource_quota \<Rightarrow> resource_quota" where
  "unmark_migrating vmName vmUID rq =
     (case fst (DeleteMigratingVM (Some rq) vmName vmUID) of Some rq' \<Rightarrow> rq' | None \<Rightarrow> rq)"

lemma unmark_migrating_annotations:
  "rq_Annotations (unmark_migrating vmName vmUID rq) = sdel (sdel (rq_Annotations rq) (name_key vmName)) (uid_key vmUID)"
  by (simp add: unmark_migrating_def DeleteMigratingVM_def Let_def sdel_def)

interpretation migrating: marker "\<lambda>uid. mark_migrating (names uid) uid" "\<lambda>uid. unmark_migrating (names uid) uid" migrating_marks
  for names :: "string \<Rightarrow> string"
proof unfold_locales
  show "migrating_marks (mark_migrating (names k) k v x) = (migrating_marks x)(k \<mapsto> v)" for k v x
    by (auto simp: migrating_marks_def mark_migrating_def fun_eq_iff split: option.splits)
  show "migrating_marks (unmark_migrating (names k) k x) = (migrating_marks x)(k := None)" for k x
    by (auto simp: migrating_marks_def unmark_migrating_annotations fun_eq_iff)
qed

section \<open>The sum over the migrating VMs\<close>

definition decoded :: "quota_env \<Rightarrow> string \<Rightarrow> resource_list" where
  "decoded e s = (case rl_Unmarshal e s of Inl err \<Rightarrow> None | Inr rl \<Rightarrow> rl)"

definition mig_total :: "quota_env \<Rightarrow> string \<Rightarrow> resource_quota \<Rightarrow> quantity" where
  "mig_total e res rq = migrating.mark_sum (\<lambda>s. rl_name (decoded e s) res) rq"

text \<open>
  A quota is well formed when its annotations are a Go map (distinct keys), hold no key of the
  naming scheme used before version 1.5, and every mark decodes.
\<close>

definition wf_marks :: "quota_env \<Rightarrow> resource_quota \<Rightarrow> bool" where
  "wf_marks e rq \<longleftrightarrow>
     (case rq_Annotations rq of None \<Rightarrow> True | Some l \<Rightarrow> distinct (map fst l)) \<and>
     (\<forall>n. \<not> shas (rq_Annotations rq) (name_key n)) \<and>
     (\<forall>uid s. migrating_marks rq uid = Some s \<longrightarrow> (\<exists>rl. rl_Unmarshal e s = Inr rl))"

definition quota_order_ok :: "quota_env \<Rightarrow> bool" where
  "quota_order_ok e \<longleftrightarrow> (\<forall>ks. mset (quota_mapOrder e ks) = mset ks)"

lemma update_fresh: "k \<notin> fst ` set l \<Longrightarrow> AList.update k v l = l @ [(k, v)]"
  by (induction l) auto

lemma finite_marks [simp]: "finite (dom (migrating_marks rq))"
proof -
  have "dom (migrating_marks rq) \<subseteq> (\<lambda>k. drop (length AnnotationMigratingUIDPrefix) k) ` set (skeys (rq_Annotations rq))"
  proof
    fix u assume "u \<in> dom (migrating_marks rq)"
    then have "uid_key u \<in> set (skeys (rq_Annotations rq))"
      by (simp add: domIff migrating_marks_def flip: shas_skeys) (simp add: shas_def)
    then have "drop (length AnnotationMigratingUIDPrefix) (uid_key u) \<in>
        (\<lambda>k. drop (length AnnotationMigratingUIDPrefix) k) ` set (skeys (rq_Annotations rq))" by (rule imageI)
    then show "u \<in> (\<lambda>k. drop (length AnnotationMigratingUIDPrefix) k) ` set (skeys (rq_Annotations rq))"
      by (simp add: GenerateAnnotationKeyMigratingVMUID_def)
  qed
  then show ?thesis by (rule finite_subset) simp
qed

lemma migrating_lists_eq:
  assumes "distinct (map fst l)"
    and "\<And>k v. (k, v) \<in> set l \<Longrightarrow> \<not> is_name_key k \<and> (is_uid_key k \<longrightarrow> (\<exists>rl. rl_Unmarshal e v = Inr rl))"
    and "\<And>u v. (uid_key u, v) \<in> set l \<Longrightarrow> u \<notin> fst ` set vms"
  shows "migrating_lists e l vms =
    Inr (vms @ map (\<lambda>(k, v). (trim_prefix k AnnotationMigratingUIDPrefix, decoded e v)) (filter (\<lambda>(k, v). is_uid_key k) l))"
  using assms
proof (induction l arbitrary: vms)
  case (Cons p l)
  obtain k v where p: "p = (k, v)" by (cases p)
  show ?case
  proof (cases "is_uid_key k")
    case True
    then obtain u where u: "k = uid_key u" by (auto simp: is_uid_key_iff)
    from Cons.prems(2) p True obtain rl where rl: "rl_Unmarshal e v = Inr rl" by auto
    have fresh: "u \<notin> fst ` set vms" using Cons.prems(3) [of u v] p u by auto
    have "migrating_lists e l (vms @ [(u, rl)]) =
      Inr ((vms @ [(u, rl)]) @ map (\<lambda>(k, v). (trim_prefix k AnnotationMigratingUIDPrefix, decoded e v)) (filter (\<lambda>(k, v). is_uid_key k) l))"
    proof (rule Cons.IH)
      show "distinct (map fst l)" using Cons.prems(1) by simp
      show "\<not> is_name_key k' \<and> (is_uid_key k' \<longrightarrow> (\<exists>rl. rl_Unmarshal e v' = Inr rl))" if "(k', v') \<in> set l" for k' v'
        using Cons.prems(2) [of k' v'] that by simp
      show "u' \<notin> fst ` set (vms @ [(u, rl)])" if "(uid_key u', v') \<in> set l" for u' v'
      proof -
        have "uid_key u \<notin> fst ` set l" using Cons.prems(1) p u by simp
        with that have "u' \<noteq> u" by (metis fst_conv imageI)
        with Cons.prems(3) [of u' v'] that show ?thesis by simp
      qed
    qed
    with True p u rl fresh show ?thesis by (simp add: update_fresh decoded_def)
  next
    case False
    with p Cons.prems(2) [of k v] have "migrating_lists e (p # l) vms = migrating_lists e l vms" by simp
    moreover have "migrating_lists e l vms =
      Inr (vms @ map (\<lambda>(k, v). (trim_prefix k AnnotationMigratingUIDPrefix, decoded e v)) (filter (\<lambda>(k, v). is_uid_key k) l))"
    proof (rule Cons.IH)
      show "distinct (map fst l)" using Cons.prems(1) by simp
    qed (use Cons.prems(2,3) in \<open>meson list.set_intros(2)\<close>)+
    ultimately show ?thesis using False p by simp
  qed
qed simp

lemma fold_resources:
  "fold (\<lambda>(k, rl) (c, m, s). (c + f rl, m + g rl, s + h rl)) vms (c0, m0, s0) =
    (c0 + sum_list (map (f \<circ> snd) vms), m0 + sum_list (map (g \<circ> snd) vms), s0 + sum_list (map (h \<circ> snd) vms))"
  for f g h :: "resource_list \<Rightarrow> quantity"
  by (induction vms arbitrary: c0 m0 s0) auto

lemma sum_list_mset: "mset xs = mset ys \<Longrightarrow> sum_list (map f xs) = sum_list (map f ys)" for f :: "'a \<Rightarrow> quantity"
  by (metis mset_map sum_mset_sum_list)

lemma sum_list_marks:
  fixes f :: "string \<Rightarrow> quantity"
  assumes "distinct (map fst l)" and "rq_Annotations rq = Some l"
  shows "sum_list (map (f \<circ> snd) (filter (\<lambda>(k, v). is_uid_key k) l)) = migrating.mark_sum f rq"
proof -
  let ?L = "filter (\<lambda>(k, v). is_uid_key k) l"
  have "distinct ?L" using assms(1) by (auto simp: distinct_map)
  then have "sum_list (map (f \<circ> snd) ?L) = (\<Sum>p \<in> set ?L. f (snd p))"
    by (simp add: sum_list_distinct_conv_sum_set)
  also have "set ?L = (\<lambda>u. (uid_key u, the (migrating_marks rq u))) ` dom (migrating_marks rq)"
  proof (rule set_eqI)
    fix p :: "string \<times> string"
    obtain k v where p: "p = (k, v)" by (cases p)
    have marks: "migrating_marks rq u = map_of l (uid_key u)" for u
      using assms(2) by (simp add: migrating_marks_def sget_def)
    have "p \<in> set ?L \<longleftrightarrow> (\<exists>u. k = uid_key u) \<and> map_of l k = Some v"
      unfolding p using assms(1) by (simp add: is_uid_key_iff map_of_eq_Some_iff conj_commute)
    also have "\<dots> \<longleftrightarrow> (\<exists>u. k = uid_key u \<and> migrating_marks rq u = Some v)" by (auto simp: marks)
    also have "\<dots> \<longleftrightarrow> p \<in> (\<lambda>u. (uid_key u, the (migrating_marks rq u))) ` dom (migrating_marks rq)"
      unfolding p by (auto simp: image_iff domIff)
    finally show "p \<in> set ?L \<longleftrightarrow> p \<in> (\<lambda>u. (uid_key u, the (migrating_marks rq u))) ` dom (migrating_marks rq)" .
  qed
  also have "(\<Sum>p \<in> \<dots>. f (snd p)) = migrating.mark_sum f rq"
    unfolding migrating.mark_sum_def by (subst sum.reindex) (auto simp: inj_on_def)
  finally show ?thesis .
qed

lemma getVMIMResources_total:
  assumes "wf_marks e rq" and "quota_order_ok e"
  shows "getVMIMResourcesFromRQAnnotation e (Some rq) =
    Inr (mig_total e ResourceLimitsCPU rq, mig_total e ResourceLimitsMemory rq, mig_total e ResourceRequestsStorage rq)"
proof (cases "rq_Annotations rq")
  case None
  then have "migrating_marks rq = (\<lambda>_. None)" by (simp add: fun_eq_iff migrating_marks_def sget_def)
  then have "migrating.mark_sum f rq = 0" for f :: "string \<Rightarrow> quantity"
    by (simp add: migrating.mark_sum_def)
  moreover have "quota_mapOrder e [] = []" using assms(2) unfolding quota_order_ok_def by (metis mset_zero_iff)
  ultimately show ?thesis using None
    by (simp add: getVMIMResourcesFromRQAnnotation_def getResourceListFromMigratingVMs_def mig_total_def range_over_def
        List.map_filter_simps)
next
  case (Some l)
  let ?l = "range_over (quota_mapOrder e) l"
  let ?dec = "\<lambda>(k, v). (trim_prefix k AnnotationMigratingUIDPrefix, decoded e v)"
  let ?vms = "map ?dec (filter (\<lambda>(k, v). is_uid_key k) ?l)"
  have dist: "distinct (map fst l)" using assms(1) Some by (simp add: wf_marks_def)
  have perm: "mset ?l = mset l"
    using assms(2) dist by (intro range_over_perm) (simp_all add: quota_order_ok_def)
  then have "mset (map fst ?l) = mset (map fst l)" by (metis mset_map)
  then have dist': "distinct (map fst ?l)" using dist by (metis mset_eq_imp_distinct_iff)
  have set_l: "set ?l = set l" using perm by (rule mset_eq_setD)
  have lists: "getResourceListFromMigratingVMs e (Some rq) = Inr ?vms"
  proof -
    have "migrating_lists e ?l [] = Inr ([] @ ?vms)"
    proof (rule migrating_lists_eq [OF dist'])
      show "\<not> is_name_key k \<and> (is_uid_key k \<longrightarrow> (\<exists>rl. rl_Unmarshal e v = Inr rl))" if "(k, v) \<in> set ?l" for k v
      proof -
        have "map_of l k = Some v" using that dist set_l by (simp add: map_of_eq_Some_iff)
        then have "sget (rq_Annotations rq) k = Some v" using Some by (simp add: sget_def)
        with assms(1) show ?thesis
          unfolding wf_marks_def is_name_key_iff is_uid_key_iff shas_def migrating_marks_def by auto
      qed
    qed simp
    then show ?thesis using Some by (simp add: getResourceListFromMigratingVMs_def)
  qed
  have keys: "distinct (map fst ?vms)"
  proof -
    have "inj_on (\<lambda>k. trim_prefix k AnnotationMigratingUIDPrefix) {k. is_uid_key k}"
      by (auto simp: inj_on_def is_uid_key_iff)
    moreover have "distinct (map fst (filter (\<lambda>(k, v). is_uid_key k) ?l))" using dist' by (rule distinct_map_filter)
    ultimately have "distinct (map (\<lambda>k. trim_prefix k AnnotationMigratingUIDPrefix) (map fst (filter (\<lambda>(k, v). is_uid_key k) ?l)))"
      by (subst distinct_map) (auto intro: inj_on_subset)
    then show ?thesis by (simp add: comp_def case_prod_beta)
  qed
  have "sum_list (map (f \<circ> snd) (range_over (quota_mapOrder e) ?vms)) = migrating.mark_sum (\<lambda>s. f (decoded e s)) rq"
    for f :: "resource_list \<Rightarrow> quantity"
  proof -
    have "mset (range_over (quota_mapOrder e) ?vms) = mset ?vms"
      using assms(2) keys by (intro range_over_perm) (simp_all add: quota_order_ok_def)
    then have "sum_list (map (f \<circ> snd) (range_over (quota_mapOrder e) ?vms)) = sum_list (map (f \<circ> snd) ?vms)"
      by (rule sum_list_mset)
    also have "\<dots> = sum_list (map ((\<lambda>s. f (decoded e s)) \<circ> snd) (filter (\<lambda>(k, v). is_uid_key k) ?l))"
      by (simp add: comp_def case_prod_beta)
    also have "\<dots> = sum_list (map ((\<lambda>s. f (decoded e s)) \<circ> snd) (filter (\<lambda>(k, v). is_uid_key k) l))"
      using perm by (intro sum_list_mset) (simp add: mset_filter)
    also have "\<dots> = migrating.mark_sum (\<lambda>s. f (decoded e s)) rq" by (rule sum_list_marks [OF dist Some])
    finally show ?thesis .
  qed
  then show ?thesis
    unfolding getVMIMResourcesFromRQAnnotation_def lists mig_total_def by (simp add: fold_resources)
qed

section \<open>Limits of the namespace\<close>

definition limit_of :: "quota_env \<Rightarrow> string \<Rightarrow> quantity" where
  "limit_of e s = (if s = [] then 0 else case ParseQuantity e s of Inl err \<Rightarrow> 0 | Inr q \<Rightarrow> q)"

lemma convert_limits_ConsD:
  assumes "convert_limits e ((key, v) # rest) acc = Inr rl"
  obtains q where "ParseQuantity e v = Inr q" and "convert_limits e rest (AList.update (resource_name key) q acc) = Inr rl"
  using assms by (auto split: sum.splits)

lemma convert_limits_other:
  "convert_limits e l acc = Inr rl \<Longrightarrow> r \<notin> (resource_name \<circ> fst) ` set l \<Longrightarrow> rl_index rl r = map_of acc r"
proof (induction l arbitrary: acc)
  case (Cons p l)
  obtain key v where p: "p = (key, v)" by (cases p)
  from Cons.prems(1) obtain q where "convert_limits e l (AList.update (resource_name key) q acc) = Inr rl"
    unfolding p by (rule convert_limits_ConsD)
  from Cons.IH [OF this] Cons.prems(2) show ?case by (auto simp: p update_conv')
qed (auto simp: rl_index_def)

lemma convert_limits_one:
  "convert_limits e l acc = Inr rl \<Longrightarrow> distinct (map (resource_name \<circ> fst) l) \<Longrightarrow> (key, v) \<in> set l \<Longrightarrow>
   \<exists>q. ParseQuantity e v = Inr q \<and> rl_index rl (resource_name key) = Some q"
proof (induction l arbitrary: acc)
  case (Cons p l)
  obtain k w where p: "p = (k, w)" by (cases p)
  from Cons.prems(1) obtain q where q: "ParseQuantity e w = Inr q"
    "convert_limits e l (AList.update (resource_name k) q acc) = Inr rl"
    unfolding p by (rule convert_limits_ConsD)
  show ?case
  proof (cases "(key, v) \<in> set l")
    case True
    with Cons.IH [OF q(2)] Cons.prems(2) show ?thesis by simp
  next
    case False
    with Cons.prems(3) p have kv: "key = k" "v = w" by auto
    have "rl_index rl (resource_name k) = map_of (AList.update (resource_name k) q acc) (resource_name k)"
      by (rule convert_limits_other [OF q(2)]) (use Cons.prems(2) p in auto)
    with kv q(1) show ?thesis by (simp add: update_conv')
  qed
qed simp

lemma distinct_limits_map: "distinct (map (resource_name \<circ> fst) (limits_map l))"
  unfolding limits_map_def by (rule distinct_map_filter) (simp add: resource_name_def resourceQuotaConversion_def)

lemma distinct_limits_keys: "distinct (map fst (limits_map l))"
  unfolding limits_map_def by (rule distinct_map_filter) simp

lemma limits_map_mem: "(''limitsCpu'', v) \<in> set (limits_map l) \<longleftrightarrow> v = ql_LimitsCPU l \<and> v \<noteq> []"
  "(''limitsMemory'', v) \<in> set (limits_map l) \<longleftrightarrow> v = ql_LimitsMemory l \<and> v \<noteq> []"
  "(''requestsStorage'', v) \<in> set (limits_map l) \<longleftrightarrow> v = ql_RequestsStorage l \<and> v \<noteq> []"
  by (simp_all add: limits_map_def set_filter del: filter.simps)

lemma resource_names [simp]: "resource_name ''limitsCpu'' = ResourceLimitsCPU"
  "resource_name ''limitsMemory'' = ResourceLimitsMemory" "resource_name ''requestsStorage'' = ResourceRequestsStorage"
  by (simp_all add: resource_name_def resourceQuotaConversion_def)

lemma limits_map_name:
  "(k, v) \<in> set (limits_map l) \<Longrightarrow> resource_name k = resource_name key \<Longrightarrow>
   key \<in> {''limitsCpu'', ''limitsMemory'', ''requestsStorage''} \<Longrightarrow> k = key"
  unfolding limits_map_def set_filter mem_Collect_eq case_prod_conv
  by (elim conjE, simp only: list.set insert_iff prod.inject empty_iff, elim disjE conjE FalseE)
    (simp_all add: resource_name_def resourceQuotaConversion_def)

lemma convert_limit_value:
  assumes "convertNamespaceResourceLimitToResourceList e limit = Inr rl" and "quota_order_ok e"
    and "key \<in> {''limitsCpu'', ''limitsMemory'', ''requestsStorage''}"
    and "\<And>v. (key, v) \<in> set (limits_map limit) \<longleftrightarrow> v = s \<and> v \<noteq> []"
  shows "rl_name rl (resource_name key) = limit_of e s"
proof -
  let ?l = "range_over (quota_mapOrder e) (limits_map limit)"
  have perm: "mset ?l = mset (limits_map limit)"
    using assms(2) by (intro range_over_perm distinct_limits_keys) (simp add: quota_order_ok_def)
  then have set_l: "set ?l = set (limits_map limit)" by (rule mset_eq_setD)
  have "mset (map (resource_name \<circ> fst) ?l) = mset (map (resource_name \<circ> fst) (limits_map limit))"
    using perm by (metis mset_map)
  then have dist: "distinct (map (resource_name \<circ> fst) ?l)" using distinct_limits_map by (metis mset_eq_imp_distinct_iff)
  from assms(1) have conv: "convert_limits e ?l [] = Inr rl" by (simp add: convertNamespaceResourceLimitToResourceList_def)
  show ?thesis
  proof (cases "s = []")
    case True
    have "resource_name key \<notin> (resource_name \<circ> fst) ` set ?l"
      using limits_map_name [OF _ _ assms(3)] assms(4) True set_l by fastforce
    from convert_limits_other [OF conv this] True show ?thesis by (simp add: rl_name_def limit_of_def)
  next
    case False
    then have "(key, s) \<in> set ?l" using assms(4) set_l by simp
    from convert_limits_one [OF conv dist this] obtain q
      where "ParseQuantity e s = Inr q" "rl_index rl (resource_name key) = Some q" by blast
    with False show ?thesis by (simp add: rl_name_def limit_of_def)
  qed
qed

lemma convert_limit_values:
  assumes "convertNamespaceResourceLimitToResourceList e limit = Inr rl" and "quota_order_ok e"
  shows "rl_name rl ResourceLimitsCPU = limit_of e (ql_LimitsCPU limit)"
    and "rl_name rl ResourceLimitsMemory = limit_of e (ql_LimitsMemory limit)"
    and "rl_name rl ResourceRequestsStorage = limit_of e (ql_RequestsStorage limit)"
  using convert_limit_value [OF assms _ limits_map_mem(1)] convert_limit_value [OF assms _ limits_map_mem(2)]
    convert_limit_value [OF assms _ limits_map_mem(3)] by simp_all

text \<open>The conversion succeeds exactly when every entry parses, whatever the order.\<close>

lemma convert_limits_ok: "list_all (\<lambda>(k, v). \<exists>q. ParseQuantity e v = Inr q) l \<Longrightarrow> \<exists>rl. convert_limits e l acc = Inr rl"
  by (induction l arbitrary: acc) auto

lemma convert_ok:
  assumes "list_all (\<lambda>(k, v). \<exists>q. ParseQuantity e v = Inr q) (limits_map limit)" and "quota_order_ok e"
  obtains rl where "convertNamespaceResourceLimitToResourceList e limit = Inr rl"
proof -
  have "mset (range_over (quota_mapOrder e) (limits_map limit)) = mset (limits_map limit)"
    using assms(2) by (intro range_over_perm distinct_limits_keys) (simp add: quota_order_ok_def)
  then have "list_all (\<lambda>(k, v). \<exists>q. ParseQuantity e v = Inr q) (range_over (quota_mapOrder e) (limits_map limit))"
    using assms(1) by (simp add: list_all_iff flip: set_mset_mset)
  then show thesis using that convert_limits_ok unfolding convertNamespaceResourceLimitToResourceList_def by blast
qed

section \<open>Properties of the calculator\<close>

definition limits_parse :: "quota_env \<Rightarrow> quota_limit \<Rightarrow> bool" where
  "limits_parse e nrq \<longleftrightarrow> list_all (\<lambda>(k, v). \<exists>q. ParseQuantity e v = Inr q) (limits_map nrq)"

text \<open>A request fits when there is no limit, or the usage without migration doubles leaves room.\<close>

definition fits :: "quantity \<Rightarrow> quantity \<Rightarrow> quantity \<Rightarrow> bool" where
  "fits limit used req \<longleftrightarrow> limit \<noteq> 0 \<longrightarrow> used + req \<le> limit"

definition real_usage :: "quota_env \<Rightarrow> resource_quota \<Rightarrow> string \<Rightarrow> quantity" where
  "real_usage e rq res = rl_name (rq_Used rq) res - mig_total e res rq"

text \<open>The quota that governs a VM: limits on its namespace and a default quota object.\<close>

definition governed_by :: "quota_env \<Rightarrow> qvm \<Rightarrow> quota_limit \<Rightarrow> resource_quota \<Rightarrow> bool" where
  "governed_by e v nrq rq \<longleftrightarrow>
     getNamespaceResourceQuota e v = Inr (Some nrq) \<and>
     (\<exists>rest. getResourceQuota e v = Inr (rq # rest)) \<and>
     limits_parse e nrq \<and> wf_marks e rq"

lemma governed_byD:
  assumes "governed_by e v nrq rq" and "quota_order_ok e"
  obtains rest rl where "getNamespaceResourceQuota e v = Inr (Some nrq)" "getResourceQuota e v = Inr (rq # rest)"
    "convertNamespaceResourceLimitToResourceList e nrq = Inr rl"
    "rl_name rl ResourceLimitsCPU = limit_of e (ql_LimitsCPU nrq)"
    "rl_name rl ResourceLimitsMemory = limit_of e (ql_LimitsMemory nrq)"
    "rl_name rl ResourceRequestsStorage = limit_of e (ql_RequestsStorage nrq)"
    "getVMIMResourcesFromRQAnnotation e (Some rq) =
      Inr (mig_total e ResourceLimitsCPU rq, mig_total e ResourceLimitsMemory rq, mig_total e ResourceRequestsStorage rq)"
proof -
  from assms(1) obtain rest where "getNamespaceResourceQuota e v = Inr (Some nrq)" "getResourceQuota e v = Inr (rq # rest)"
    "limits_parse e nrq" "wf_marks e rq" by (auto simp: governed_by_def)
  moreover from this(3) assms(2) obtain rl where "convertNamespaceResourceLimitToResourceList e nrq = Inr rl"
    unfolding limits_parse_def by (rule convert_ok)
  ultimately show thesis using that convert_limit_values [OF _ assms(2)] getVMIMResources_total [OF _ assms(2)] by blast
qed

text \<open>
  C26. A VM that has to be started under a quota is admitted exactly when its CPU limit and its
  memory limit with the hypervisor overhead fit beside the real usage, which leaves out what the
  running migrations hold twice; otherwise the error names the resource that is short, CPU first.
\<close>

theorem vm_start_check_exact:
  assumes "governed_by e v nrq rq" and "quota_order_ok e"
    and "vm_PrintableStatus v \<noteq> []" and "RunStrategy (vm.truncate v) = Inr strategy" and "strategy \<noteq> RunStrategyHalted"
    and "podCache_GetByIndex e (NamespacedName (vm_Namespace v) (vm_Name v)) = Inr []"
    and "vm_Template v = Some (Some limits)"
    and "overhead = GetMemoryOverhead e (overhead_vmi (Some limits)) (Some (GetAdditionalGuestMemoryOverheadRatioWithoutError e))"
  shows "CheckIfVMCanStartByResourceQuota e v =
    (if \<not> fits (limit_of e (ql_LimitsCPU nrq)) (real_usage e rq ResourceLimitsCPU) (rl_name (Some limits) ResourceCPU)
     then Inl cpuInsufficientResourceError
     else if \<not> fits (limit_of e (ql_LimitsMemory nrq)) (real_usage e rq ResourceLimitsMemory) (rl_name (Some limits) ResourceMemory + overhead)
     then Inl memInsufficientResourceError
     else Inr ())"
proof -
  from governed_byD [OF assms(1,2)] obtain rest rl where g: "getNamespaceResourceQuota e v = Inr (Some nrq)"
    "getResourceQuota e v = Inr (rq # rest)" "convertNamespaceResourceLimitToResourceList e nrq = Inr rl"
    "rl_name rl ResourceLimitsCPU = limit_of e (ql_LimitsCPU nrq)"
    "rl_name rl ResourceLimitsMemory = limit_of e (ql_LimitsMemory nrq)"
    "getVMIMResourcesFromRQAnnotation e (Some rq) =
      Inr (mig_total e ResourceLimitsCPU rq, mig_total e ResourceLimitsMemory rq, mig_total e ResourceRequestsStorage rq)" .
  have "VMPodsExist e (vm_Namespace v) (vm_Name v) = Inr False"
    using assms(6) by (simp add: VMPodsExist_def getVMPods_def)
  then have "CheckIfVMCanStartByResourceQuota e v = containsEnoughResourceQuotaToStartVM e v nrq rq"
    using assms(3-5) g(1,2) by (simp add: CheckIfVMCanStartByResourceQuota_def)
  then show ?thesis
    using g assms(7,8)
    by (auto simp: containsEnoughResourceQuotaToStartVM_def calculateVMActualOverhead_def Let_def fits_def real_usage_def)
qed

text \<open>
  C27. The storage check compares only the growth of a VM with the room under the quota: a change
  that does not enlarge the volume claims is always admitted.
\<close>

theorem storage_check_exact:
  assumes "governed_by e v nrq rq" and "quota_order_ok e"
    and "calculateVMStorageQuantity e v = Inr new" and "calculateVMStorageQuantity e old = Inr before"
  shows "CheckStorageResourceQuota e v (Some old) =
    (if before < new \<and> \<not> fits (limit_of e (ql_RequestsStorage nrq)) (real_usage e rq ResourceRequestsStorage) (new - before)
     then Inl storageInsufficientResourceError else Inr ())"
proof -
  from governed_byD [OF assms(1,2)] obtain rest rl where g: "getNamespaceResourceQuota e v = Inr (Some nrq)"
    "getResourceQuota e v = Inr (rq # rest)" "convertNamespaceResourceLimitToResourceList e nrq = Inr rl"
    "rl_name rl ResourceRequestsStorage = limit_of e (ql_RequestsStorage nrq)"
    "getVMIMResourcesFromRQAnnotation e (Some rq) =
      Inr (mig_total e ResourceLimitsCPU rq, mig_total e ResourceLimitsMemory rq, mig_total e ResourceRequestsStorage rq)" .
  then show ?thesis using assms(3,4)
    by (auto simp: CheckStorageResourceQuota_def storage_within_def Let_def fits_def real_usage_def)
qed

section \<open>Findings\<close>

text \<open>A VM whose domain has no limits crashes the check as soon as its namespace has a quota.\<close>

lemma start_check_without_limits_panics:
  assumes "governed_by e v nrq rq" and "quota_order_ok e"
    and "vm_PrintableStatus v \<noteq> []" and "RunStrategy (vm.truncate v) = Inr strategy" and "strategy \<noteq> RunStrategyHalted"
    and "podCache_GetByIndex e (NamespacedName (vm_Namespace v) (vm_Name v)) = Inr []"
    and "vm_Template v = Some None"
  shows "CheckIfVMCanStartByResourceQuota e v = Inl (Panic ''nil pointer dereference'')"
proof -
  from governed_byD [OF assms(1,2)] obtain rest rl where g: "getNamespaceResourceQuota e v = Inr (Some nrq)"
    "getResourceQuota e v = Inr (rq # rest)"
    "getVMIMResourcesFromRQAnnotation e (Some rq) =
      Inr (mig_total e ResourceLimitsCPU rq, mig_total e ResourceLimitsMemory rq, mig_total e ResourceRequestsStorage rq)" .
  have "VMPodsExist e (vm_Namespace v) (vm_Name v) = Inr False"
    using assms(6) by (simp add: VMPodsExist_def getVMPods_def)
  then show ?thesis
    using assms(3-7) g
    by (simp add: CheckIfVMCanStartByResourceQuota_def containsEnoughResourceQuotaToStartVM_def calculateVMActualOverhead_def Let_def)
qed

text \<open>The JSON value \<^verbatim>\<open>null\<close> in the quota annotation of a namespace crashes every check in it.\<close>

lemma null_annotation_panics:
  assumes "nsCache_Get e (vm_Namespace v) = Inr annotations"
    and "sget annotations CattleAnnotationResourceQuota = Some rqStr" and "nrq_Unmarshal e rqStr = Inr None"
  shows "CheckStorageResourceQuota e v old = Inl (Panic ''nil pointer dereference'')"
  using assms by (simp add: CheckStorageResourceQuota_def getNamespaceResourceQuota_def)

text \<open>The bounds check on the overhead ratio lets NaN through, since every comparison with it fails.\<close>

lemma nan_ratio_accepted:
  "value \<noteq> [] \<Longrightarrow> ParseFloat e value = Inr NaN \<Longrightarrow>
   NewAdditionalGuestMemoryOverheadRatioConfig e value = Inr \<lparr>rc_value = value, rc_ratio = NaN\<rparr>"
  by (simp add: NewAdditionalGuestMemoryOverheadRatioConfig_def)

section \<open>Examples\<close>

text \<open>A toy coding: a resource list is printed as its entries, quantities in decimal.\<close>

definition example_limit :: quota_limit where
  "example_limit = zero_limit\<lparr>ql_LimitsCPU := ''8'', ql_LimitsMemory := ''4'', ql_RequestsStorage := ''9''\<rparr>"

definition digit_value :: "string \<Rightarrow> quantity result" where
  "digit_value s = (case s of [c] \<Rightarrow> Inr (of_char c - 48) | _ \<Rightarrow> Inl (ErrorString ''bad quantity''))"

definition example_rq :: resource_quota where
  "example_rq = \<lparr>rq_Namespace = ''ns'', rq_Name = ''default'', rq_Labels = Some [(LabelManagementDefaultResourceQuota, ''true'')],
     rq_Annotations = Some [(''harvesterhci.io/migratingUID-u1'', ''2'')], rq_DeletionTimestamp = None,
     rq_Hard = Some [(ResourceLimitsCPU, 8), (ResourceLimitsMemory, 4)],
     rq_Used = Some [(ResourceLimitsCPU, 7), (ResourceLimitsMemory, 2), (ResourceRequestsStorage, 8)]\<rparr>"

definition example_quota_env :: "resource_quota \<Rightarrow> quota_env" where
  "example_quota_env rq =
     \<lparr>rl_Marshal = \<lambda>rl. Inr [char_of (nat (48 + rl_name rl ResourceLimitsCPU))],
      rl_Unmarshal = \<lambda>s. map_sum id (\<lambda>q. Some [(ResourceLimitsCPU, q)]) (digit_value s),
      nrq_Unmarshal = \<lambda>s. Inr (Some example_limit), ParseQuantity = digit_value,
      ParseFloat = \<lambda>s. Inr (Flt 2), GetMemoryOverhead = \<lambda>v r. 1,
      vct_Unmarshal = \<lambda>s. map_sum id (\<lambda>q. [q]) (digit_value s), quota_mapOrder = id,
      nsCache_Get = \<lambda>ns. Inr (Some [(CattleAnnotationResourceQuota, ''x'')]), podCache_GetByIndex = \<lambda>k. Inr [],
      rqCache_List = \<lambda>ns. Inr [rq], settingCache = None\<rparr>"

definition example_qvm :: "string \<Rightarrow> qvm" where
  "example_qvm storage = \<lparr>vm_Namespace = ''ns'', vm_Name = ''vm1'', vm_Labels = None,
     vm_Annotations = Some [(AnnotationVolumeClaimTemplates, storage)], vm_Running = Some True, vm_RunStrategy = None,
     vm_PrintableStatus = ''Stopped'', vm_Template = Some (Some [(ResourceCPU, 3), (ResourceMemory, 1)])\<rparr>"

lemma example_wf: "wf_marks (example_quota_env rq) example_rq"
proof -
  have "\<exists>rl. rl_Unmarshal (example_quota_env rq) s = Inr rl" if "migrating_marks example_rq uid = Some s" for uid s
  proof -
    have "s = ''2''" using that by (auto simp: migrating_marks_def example_rq_def sget_def split: if_splits)
    then show ?thesis by (simp add: example_quota_env_def digit_value_def)
  qed
  moreover have "\<not> shas (rq_Annotations example_rq) (name_key n)" for n
    by (simp add: example_rq_def shas_def sget_def quota_keys)
  ultimately show ?thesis by (simp add: wf_marks_def example_rq_def)
qed

lemma example_order_ok: "quota_order_ok (example_quota_env rq)"
  by (simp add: quota_order_ok_def example_quota_env_def)

lemma example_governed: "governed_by (example_quota_env example_rq) (example_qvm s) example_limit example_rq"
proof -
  have "limits_map example_limit = [(''requestsStorage'', ''9''), (''limitsCpu'', ''8''), (''limitsMemory'', ''4'')]"
    by (simp add: limits_map_def example_limit_def zero_limit_def)
  then have "limits_parse (example_quota_env example_rq) example_limit"
    by (simp add: limits_parse_def example_quota_env_def digit_value_def)
  moreover have "getNamespaceResourceQuota (example_quota_env example_rq) (example_qvm s) = Inr (Some example_limit)"
    by (simp add: getNamespaceResourceQuota_def example_quota_env_def sget_def example_limit_def zero_limit_def)
  moreover have "getResourceQuota (example_quota_env example_rq) (example_qvm s) = Inr [example_rq]"
    by (simp add: getResourceQuota_def default_quotas_def example_quota_env_def example_rq_def sget_def)
  ultimately show ?thesis using example_wf by (auto simp: governed_by_def)
qed

lemma example_total: "mig_total (example_quota_env rq) res example_rq = (if res = ResourceLimitsCPU then 2 else 0)"
proof -
  have "migrating_marks example_rq = [''u1'' \<mapsto> ''2'']"
    by (auto simp: fun_eq_iff migrating_marks_def example_rq_def sget_def quota_keys)
  then show ?thesis
    by (simp add: mig_total_def migrating.mark_sum_def decoded_def example_quota_env_def digit_value_def rl_name_def rl_index_def)
qed

lemma example_limits:
  "limit_of (example_quota_env example_rq) (ql_LimitsCPU example_limit) = 8"
  "limit_of (example_quota_env example_rq) (ql_LimitsMemory example_limit) = 4"
  "limit_of (example_quota_env example_rq) (ql_RequestsStorage example_limit) = 9"
  by code_simp+

lemma example_usage:
  "real_usage (example_quota_env example_rq) example_rq ResourceLimitsCPU = 5"
  "real_usage (example_quota_env example_rq) example_rq ResourceLimitsMemory = 2"
  "real_usage (example_quota_env example_rq) example_rq ResourceRequestsStorage = 8"
  unfolding real_usage_def example_total by (simp_all add: example_rq_def rl_name_def rl_index_def)

theorem vm_start_check_exact_witness:
  "CheckIfVMCanStartByResourceQuota (example_quota_env example_rq) (example_qvm ''1'') = Inr ()"
proof -
  let ?e = "example_quota_env example_rq" and ?v = "example_qvm ''1''"
  have "RunStrategy (vm.truncate ?v) = Inr RunStrategyAlways" "vm_PrintableStatus ?v \<noteq> []"
    "RunStrategyAlways \<noteq> RunStrategyHalted" "podCache_GetByIndex ?e (NamespacedName (vm_Namespace ?v) (vm_Name ?v)) = Inr []"
    "vm_Template ?v = Some (Some [(ResourceCPU, 3), (ResourceMemory, 1)])"
    "GetMemoryOverhead ?e (overhead_vmi l) r = 1" for l r
    by (simp_all add: RunStrategy_def vm.truncate_def example_qvm_def example_quota_env_def)
  with vm_start_check_exact [OF example_governed example_order_ok this(2,1,3,4,5) refl] show ?thesis
    by (simp add: example_limits example_usage fits_def rl_name_def rl_index_def)
qed

theorem storage_check_exact_witness:
  "CheckStorageResourceQuota (example_quota_env example_rq) (example_qvm ''4'') (Some (example_qvm ''2'')) =
     Inl storageInsufficientResourceError"
proof -
  have "calculateVMStorageQuantity (example_quota_env example_rq) (example_qvm ''4'') = Inr 4"
    "calculateVMStorageQuantity (example_quota_env example_rq) (example_qvm ''2'') = Inr 2"
    by code_simp+
  from storage_check_exact [OF example_governed example_order_ok this] show ?thesis
    by (simp add: example_limits example_usage fits_def)
qed

end
