(* ===== verification/Quota_Controller.thy ===== *)
theory Quota_Controller
  imports Resource_Quota
begin

text \<open>
  The two controllers that keep a quota in step with live migrations: the resource quota controller
  (\<^verbatim>\<open>pkg/controller/master/resourcequota/resourcequota_controller.go\<close>) recomputes the limits of a
  quota from the Rancher annotation of its namespace and the annotations on the quota, and the
  migration controller (\<^verbatim>\<open>pkg/controller/master/migration/vmim_controller.go\<close> and
  \<^verbatim>\<open>vmi_controller.go\<close>) writes those annotations as migrations start and finish.
\<close>

section \<open>Requests and environment\<close>

record vmim =
  vmim_Namespace :: string
  vmim_Name :: string
  vmim_UID :: string
  vmim_VMIName :: string
  vmim_Phase :: string
  vmim_Conditions :: "(string \<times> string) list"

datatype mig_call =
    RQUpdate resource_quota
  | VMIPut mvmi
  | VMUpdate vm
  | VmimEnqueueAfter string string int
  | PodDelete string string

record mig_env =
  me_quota :: quota_env
  rqs_Update :: "mig_call list \<Rightarrow> resource_quota \<Rightarrow> resource_quota result"
  restClient_Put :: "mig_call list \<Rightarrow> mvmi \<Rightarrow> unit result"
  mig_vms_Update :: "mig_call list \<Rightarrow> vm \<Rightarrow> vm result"
  mig_pods_Delete :: "mig_call list \<Rightarrow> string \<Rightarrow> string \<Rightarrow> unit result"
  mig_vmiCache_Get :: "string \<Rightarrow> string \<Rightarrow> mvmi result"
  mig_vmCache_Get :: "string \<Rightarrow> string \<Rightarrow> vm result"
  mig_podCache_List :: "string \<Rightarrow> string \<Rightarrow> string list result"
  nowRFC3339 :: "mig_call list \<Rightarrow> string"

definition AnnotationMigrationState :: string where
  "AnnotationMigrationState = ''harvesterhci.io/migrationState''"
definition AnnotationMigrationTarget :: string where
  "AnnotationMigrationTarget = ''harvesterhci.io/migrationTargetNodeName''"
definition AnnotationTimestamp :: string where
  "AnnotationTimestamp = ''harvesterhci.io/timestamp''"

abbreviation StateMigrating :: string where "StateMigrating \<equiv> ''Migrating''"
abbreviation StateAbortingMigration :: string where "StateAbortingMigration \<equiv> ''Aborting migration''"
abbreviation StatePending :: string where "StatePending \<equiv> ''Pending migration''"

abbreviation MigrationPending :: string where "MigrationPending \<equiv> ''Pending''"
abbreviation MigrationSucceeded :: string where "MigrationSucceeded \<equiv> ''Succeeded''"
abbreviation MigrationFailed :: string where "MigrationFailed \<equiv> ''Failed''"
definition runningPhases :: "string list" where
  "runningPhases = [''Scheduling'', ''Scheduled'', ''PreparingTarget'', ''TargetReady'', ''Running'']"
definition AbortRequested :: string where
  "AbortRequested = ''migrationAbortRequested''"
definition RejectedByResourceQuota :: string where
  "RejectedByResourceQuota = ''migrationRejectedByResourceQuota''"

definition rq_update :: "mig_env \<Rightarrow> resource_quota \<Rightarrow> (mig_call, resource_quota result) act" where
  "rq_update e rq = request (RQUpdate rq) (\<lambda>h. rqs_Update e h rq)"

section \<open>Resource quota controller\<close>

definition errSkipScaling :: go_error where
  "errSkipScaling = ErrorString ''skip scaling''"

text \<open>The result carries the quota with the limits the function has written into it.\<close>

definition scaleResourceQuotaOnDemand ::
  "quota_env \<Rightarrow> resource_quota \<Rightarrow> string \<Rightarrow> (resource_quota \<times> bool) result" where
  "scaleResourceQuotaOnDemand q rq rqStr =
     (if rqStr = [] then Inl errSkipScaling
      else case nrq_Unmarshal q rqStr of
        Inl err \<Rightarrow> Inl err
      | Inr rqBase \<Rightarrow>
          if IsEmptyResourceQuota (Some rq) then Inl errSkipScaling
          else case GetCPUMemoryLimitsFromRancherNamespaceResourceQuota q rqBase of
            Inl err \<Rightarrow> Inl errSkipScaling
          | Inr (rCPULimit, rMemoryLimit) \<Rightarrow>
              (case getVMIMResourcesFromRQAnnotation q (Some rq) of
                 Inl err \<Rightarrow> Inl errSkipScaling
               | Inr (cpuDelta, memDelta, _) \<Rightarrow>
                   (case GetCompensationFromResourceQuota q (Some rq) of
                      Inl err \<Rightarrow> Inl errSkipScaling
                    | Inr memCompensation \<Rightarrow>
                        CalculateNewResourceQuotaFromBaseDelta rq rCPULimit rMemoryLimit cpuDelta memDelta memCompensation)))"

definition OnResourceQuotaChanged ::
  "mig_env \<Rightarrow> resource_quota option \<Rightarrow> (mig_call, resource_quota option result) act" where
  "OnResourceQuotaChanged e arg =
     (case arg of
        None \<Rightarrow> ret (Inr None)
      | Some rq \<Rightarrow>
          if rq_DeletionTimestamp rq \<noteq> None \<or> rq_Labels rq = None \<or>
             sval (rq_Labels rq) LabelManagementDefaultResourceQuota \<noteq> ''true''
          then ret (Inr (Some rq))
          else if IsResourceQuotaAutoScalingDisabled (Some rq) then ret (Inr (Some rq))
          else case nsCache_Get (me_quota e) (rq_Namespace rq) of
            Inl err \<Rightarrow> ret (Inl (errorf_w (''can't find resourcequota '' @ rq_Namespace rq @ ''/'' @ rq_Name rq @
                 '' related namespace, error '') err))
          | Inr annotations \<Rightarrow>
              (case scaleResourceQuotaOnDemand (me_quota e) rq (sval annotations CattleAnnotationResourceQuota) of
                 Inl err \<Rightarrow>
                   if errors_is err errSkipScaling
                   then (if IsMigratingScalingResyncNeeded (Some rq)
                         then andthen (rq_update e (ClearAnnotationMigratingScalingResyncNeeded rq)) (\<lambda>u. ret (Inr (Some u)))
                         else ret (Inr (Some rq)))
                   else ret (Inl err)
               | Inr (rqCopy, update) \<Rightarrow>
                   if update
                   then andthen (rq_update e (ClearAnnotationMigratingScalingResyncNeeded rqCopy)) (\<lambda>u. ret (Inr (Some u)))
                   else if IsMigratingScalingResyncNeeded (Some rqCopy)
                   then andthen (rq_update e (ClearAnnotationMigratingScalingResyncNeeded rqCopy)) (\<lambda>u. ret (Inr (Some u)))
                   else ret (Inr (Some rq))))"

section \<open>Migration controller\<close>

definition syncVM :: "mig_env \<Rightarrow> mvmi \<Rightarrow> (mig_call, unit result) act" where
  "syncVM e v =
     (case mig_vmCache_Get e (vmi_Namespace v) (vmi_Name v) of
        Inl err \<Rightarrow> if is_not_found err then ret (Inr ()) else ret (Inl err)
      | Inr m \<Rightarrow> do {
          stamp \<leftarrow> observe (nowRFC3339 e);
          let toUpdateVM = m\<lparr>vm_Annotations := sset (vm_Annotations m) AnnotationTimestamp stamp\<rparr>;
          andthen (request (VMUpdate toUpdateVM) (\<lambda>h. mig_vms_Update e h toUpdateVM)) (\<lambda>_. ret (Inr ())) })"

definition VirtClientUpdateVmi :: "mig_env \<Rightarrow> mvmi \<Rightarrow> (mig_call, unit result) act" where
  "VirtClientUpdateVmi e v = request (VMIPut v) (\<lambda>h. restClient_Put e h v)"

definition setVmiMigrationUIDAnnotation :: "mig_env \<Rightarrow> mvmi \<Rightarrow> string \<Rightarrow> string \<Rightarrow> (mig_call, unit result) act" where
  "setVmiMigrationUIDAnnotation e v UID state =
     (if sval (vmi_Annotations v) AnnotationMigrationUID = UID \<and> sval (vmi_Annotations v) AnnotationMigrationState = state
      then ret (Inr ())
      else let toUpdate =
             (if UID \<noteq> []
              then v\<lparr>vmi_Annotations := sset (sset (vmi_Annotations v) AnnotationMigrationUID UID) AnnotationMigrationState state\<rparr>
              else v\<lparr>vmi_Annotations := sdel (sdel (case vmi_Annotations v of None \<Rightarrow> Some [] | Some l \<Rightarrow> Some l)
                       AnnotationMigrationUID) AnnotationMigrationState\<rparr>)
           in andthen (VirtClientUpdateVmi e toUpdate) (\<lambda>_. syncVM e v))"

definition resetHarvesterMigrationStateInVMI :: "mig_env \<Rightarrow> mvmi \<Rightarrow> (mig_call, unit result) act" where
  "resetHarvesterMigrationStateInVMI e v =
     (let annotations = sdel (sdel (sdel (vmi_Annotations v) AnnotationMigrationUID) AnnotationMigrationState) AnnotationMigrationTarget
      in if slen (vmi_Annotations v) = slen annotations then ret (Inr ())
         else VirtClientUpdateVmi e (v\<lparr>vmi_Annotations := annotations\<rparr>))"

definition resetHarvesterMigrationStateInVmiAndSyncVM :: "mig_env \<Rightarrow> mvmi \<Rightarrow> (mig_call, unit result) act" where
  "resetHarvesterMigrationStateInVmiAndSyncVM e v =
     andthen (wrap_error ''fail to reset vmi migration '' (resetHarvesterMigrationStateInVMI e v)) (\<lambda>_.
       wrap_error ''fail to reset vmi migration to vm '' (syncVM e v))"

text \<open>\<^verbatim>\<open>Cpu()\<close> and \<^verbatim>\<open>Memory()\<close> return the address of the entry or of a zero quantity, never nil.\<close>

definition rl_address :: "resource_list \<Rightarrow> string \<Rightarrow> quantity option" where
  "rl_address rl k = Some (rl_name rl k)"

definition isNamespaceManagedByResourceQuota :: "mig_env \<Rightarrow> string \<Rightarrow> bool result" where
  "isNamespaceManagedByResourceQuota e namespace =
     (case rqCache_List (me_quota e) namespace of
        Inl err \<Rightarrow> Inl err
      | Inr rqs \<Rightarrow> 
          Inr (list_ex (\<lambda>v. rl_address (rq_Hard v) ResourceCPU \<noteq> None \<or> rl_address (rq_Hard v) ResourceMemory \<noteq> None) rqs))"

definition scaleResourceQuotaWithVMI :: "mig_env \<Rightarrow> mvmi \<Rightarrow> (mig_call, unit result) act" where
  "scaleResourceQuotaWithVMI e v =
     (let q = me_quota e
      in if rl_name (vmi_Limits v) ResourceMemory = 0 \<and> rl_name (vmi_Limits v) ResourceCPU = 0 then ret (Inr ())
         else case rqCache_List q (vmi_Namespace v) of
           Inl err \<Rightarrow> ret (Inl err)
         | Inr all \<Rightarrow>
             (case default_quotas all of
                [] \<Rightarrow> ret (Inr ())
              | rq # _ \<Rightarrow>
                  if IsResourceQuotaAutoScalingDisabled (Some rq) then ret (Inr ())
                  else case nsCache_Get q (vmi_Namespace v) of
                    Inl err \<Rightarrow> ret (Inl (errorf_w (''scaleResourceQuotaWithVMI: failed to get vmi's namespace object '' @
                                 vmi_Namespace v @ '': '') err))
                  | Inr annotations \<Rightarrow>
                      (case IsResourceQuotaManagedByNamespaceAnnotation q (Some rq) (sval annotations CattleAnnotationResourceQuota) of
                         Inl err \<Rightarrow> ret (Inl (errorf_w (''scaleResourceQuotaWithVMI: failed to get all parameters to decide if this resourcequota '' @
                                      rq_Namespace rq @ ''/'' @ rq_Name rq @ '' is managed: '') err))
                       | Inr managed \<Rightarrow>
                           if \<not> managed then ret (Inr ())
                           else if ContainsMigratingVM (Some rq) (vmi_Name v) (vmi_UID v) then ret (Inr ())
                           else (case CalculateScaleResourceQuotaWithVMI q (Some rq) v
                                        (Some (GetAdditionalGuestMemoryOverheadRatioWithoutError q)) of
                                   (needUpdate, rqToUpdate, rl) \<Rightarrow>
                                     if \<not> needUpdate then ret (Inr ())
                                     else (case AddMigratingVM q rqToUpdate (vmi_Name v) (vmi_UID v) rl of
                                             Inl err \<Rightarrow> ret (Inl err)
                                           | Inr marked \<Rightarrow>
                                               andthen (rq_update e (SetAnnotationMigratingScalingResyncNeeded marked))
                                                 (\<lambda>_. ret (Inr ())))))))"

definition scaleResourceQuota :: "mig_env \<Rightarrow> mvmi \<Rightarrow> (mig_call, unit result) act" where
  "scaleResourceQuota e v =
     (case isNamespaceManagedByResourceQuota e (vmi_Namespace v) of
        Inl err \<Rightarrow> ret (Inl (errorf_v ''failed to check if the namespace is managed by the resource quota: '' err))
      | Inr exist \<Rightarrow>
          if \<not> exist then ret (Inr ())
          else do {
            r \<leftarrow> scaleResourceQuotaWithVMI e v;
            ret (case r of Inl err \<Rightarrow> Inl (errorf_v ''failed to scale resource quota with vmi: '' err) | Inr _ \<Rightarrow> Inr ()) })"

definition restoreResourceQuotaWithVMI :: "mig_env \<Rightarrow> mvmi \<Rightarrow> (mig_call, unit result) act" where
  "restoreResourceQuotaWithVMI e v =
     (case rqCache_List (me_quota e) (vmi_Namespace v) of
        Inl err \<Rightarrow> ret (Inl err)
      | Inr all \<Rightarrow>
          (case default_quotas all of
             [] \<Rightarrow> ret (Inr ())
           | rq # _ \<Rightarrow>
               (case DeleteMigratingVM (Some rq) (vmi_Name v) (vmi_UID v) of
                  (Some rqCpy, True) \<Rightarrow>
                    (case DeleteMigratingCompensation (Some rqCpy) of
                       (Some rqCpy', _) \<Rightarrow>
                         andthen (rq_update e (SetAnnotationMigratingScalingResyncNeeded rqCpy')) (\<lambda>_. ret (Inr ()))
                     | (None, _) \<Rightarrow> ret (Inr ()))
                | _ \<Rightarrow> ret (Inr ()))))"

definition restoreResourceQuota :: "mig_env \<Rightarrow> vmim \<Rightarrow> mvmi \<Rightarrow> (mig_call, unit result) act" where
  "restoreResourceQuota e m v =
     (if vmim_Phase m \<noteq> MigrationFailed \<and> vmim_Phase m \<noteq> MigrationSucceeded then ret (Inr ())
      else case isNamespaceManagedByResourceQuota e (vmi_Namespace v) of
        Inl err \<Rightarrow> ret (Inl (errorf_v ''failed to check if the namespace is managed by the resource quota: '' err))
      | Inr exist \<Rightarrow>
          if \<not> exist then ret (Inr ())
          else do {
            r \<leftarrow> restoreResourceQuotaWithVMI e v;
            ret (case r of Inl err \<Rightarrow> Inl (errorf_v ''failed to restore resource quota with vmi: '' err) | Inr _ \<Rightarrow> Inr ()) })"

fun isAbortRequest :: "(string \<times> string) list \<Rightarrow> bool" where
  "isAbortRequest [] = False"
| "isAbortRequest ((t, status) # conds) = (if t = AbortRequested \<and> status = ConditionTrue then True else isAbortRequest conds)"

definition compensateResourceQuotaBase :: "mig_env \<Rightarrow> vmim \<Rightarrow> mvmi \<Rightarrow> (mig_call, unit result) act" where
  "compensateResourceQuotaBase e m v =
     (let q = me_quota e;
          wait = do {
            _ \<leftarrow> request (VmimEnqueueAfter (vmim_Namespace m) (vmim_Name m) 1000000000) (\<lambda>h. ());
            ret (Inr ()) }
      in if rl_name (vmi_Limits v) ResourceMemory = 0 then ret (Inr ())
         else case rqCache_List q (vmi_Namespace v) of
           Inl err \<Rightarrow> ret (Inl err)
         | Inr all \<Rightarrow>
             (case default_quotas all of
                [] \<Rightarrow> ret (Inr ())
              | rq # _ \<Rightarrow>
                  if IsResourceQuotaAutoScalingDisabled (Some rq) then ret (Inr ())
                  else case nsCache_Get q (vmi_Namespace v) of
                    Inl err \<Rightarrow> ret (Inl (errorf_w (''compensateResourceQuotaBase: failed to get vmi's namespace object '' @
                                 vmi_Namespace v @ '': '') err))
                  | Inr annotations \<Rightarrow>
                      (case IsResourceQuotaManagedByNamespaceAnnotationWithMemoryLimits q (Some rq)
                              (sval annotations CattleAnnotationResourceQuota) of
                         Inl err \<Rightarrow> ret (Inl (errorf_w (''compensateResourceQuotaBase: failed to get all parameters to decide if this resourcequota '' @
                                      rq_Namespace rq @ ''/'' @ rq_Name rq @ '' is managed: '') err))
                       | Inr managed \<Rightarrow>
                           if \<not> managed then ret (Inr ())
                           else if \<not> ContainsMigratingVM (Some rq) (vmi_Name v) (vmi_UID v) then wait
                           else if IsMigratingScalingResyncNeeded (Some rq) then wait
                           else (case CalculateCompensationResourceQuotaWithVMI q (Some rq) (Some v)
                                        (Some (GetAdditionalGuestMemoryOverheadRatioWithoutError q)) of
                                   (needUpdate, rl) \<Rightarrow>
                                     if \<not> needUpdate then ret (Inr ())
                                     else (case AddMigratingCompensation q (Some rq) rl of
                                             Inl err \<Rightarrow> ret (Inl err)
                                           | Inr marked \<Rightarrow>
                                               andthen (rq_update e (SetAnnotationMigratingScalingResyncNeeded marked))
                                                 (\<lambda>_. ret (Inr ())))))))"

fun compensate_conditions ::
  "mig_env \<Rightarrow> vmim \<Rightarrow> mvmi \<Rightarrow> (string \<times> string) list \<Rightarrow> (mig_call, unit result) act" where
  "compensate_conditions e m v [] = ret (Inr ())"
| "compensate_conditions e m v ((t, status) # conds) =
     (if t \<noteq> RejectedByResourceQuota then compensate_conditions e m v conds
      else if status \<noteq> ConditionTrue then ret (Inr ())
      else compensateResourceQuotaBase e m v)"

definition compensatePendingMigration :: "mig_env \<Rightarrow> vmim \<Rightarrow> mvmi \<Rightarrow> (mig_call, unit result) act" where
  "compensatePendingMigration e m v = compensate_conditions e m v (vmim_Conditions m)"

definition handlePendingMigration :: "mig_env \<Rightarrow> mvmi \<Rightarrow> vmim \<Rightarrow> (mig_call, vmim option result) act" where
  "handlePendingMigration e v m =
     andthen (setVmiMigrationUIDAnnotation e v (vmim_UID m) StatePending) (\<lambda>_.
       andthen (wrap_error (''failed to scale resource quota with vmi '' @ vmi_Namespace v @ ''/'' @ vmi_Name v @ '': '')
                  (scaleResourceQuota e v)) (\<lambda>_.
         andthen (wrap_error (''failed to compensate resource quota with vmi '' @ vmi_Namespace v @ ''/'' @ vmi_Name v @ '': '')
                    (compensatePendingMigration e m v)) (\<lambda>_. ret (Inr (Some m)))))"

definition handleFinishedMigration :: "mig_env \<Rightarrow> mvmi \<Rightarrow> vmim \<Rightarrow> (mig_call, vmim option result) act" where
  "handleFinishedMigration e v m =
     andthen (restoreResourceQuota e m v) (\<lambda>_.
       andthen (resetHarvesterMigrationStateInVmiAndSyncVM e v) (\<lambda>_. ret (Inr (Some m))))"

definition OnVmimChanged :: "mig_env \<Rightarrow> vmim option \<Rightarrow> (mig_call, vmim option result) act" where
  "OnVmimChanged e arg =
     (case arg of
        None \<Rightarrow> ret (Inr None)
      | Some m \<Rightarrow>
          (case mig_vmiCache_Get e (vmim_Namespace m) (vmim_VMIName m) of
             Inl err \<Rightarrow> if is_not_found err then ret (Inr (Some m)) else ret (Inl err)
           | Inr v \<Rightarrow>
               let abortRequested = isAbortRequest (vmim_Conditions m);
                   phase = vmim_Phase m;
                   annotate = (\<lambda>state. andthen (setVmiMigrationUIDAnnotation e v (vmim_UID m) state) (\<lambda>_. ret (Inr (Some m))))
               in if phase = []
                  then (if abortRequested then annotate StateAbortingMigration else annotate StatePending)
                  else if phase = MigrationPending
                  then (if abortRequested then annotate StateAbortingMigration else handlePendingMigration e v m)
                  else if phase \<in> set runningPhases
                  then (if abortRequested then annotate StateAbortingMigration else annotate StateMigrating)
                  else if phase = MigrationFailed \<or> phase = MigrationSucceeded
                  then handleFinishedMigration e v m
                  else ret (Inr (Some m))))"

definition OnVmiChanged :: "mig_env \<Rightarrow> mvmi option \<Rightarrow> (mig_call, mvmi option result) act" where
  "OnVmiChanged e arg =
     (case arg of
        None \<Rightarrow> ret (Inr None)
      | Some v \<Rightarrow>
          if vmi_DeletionTimestamp v \<noteq> None \<or> vmi_Annotations v = None then ret (Inr (Some v))
          else (case vmi_MigrationState v of
                  None \<Rightarrow> ret (Inr (Some v))
                | Some ms \<Rightarrow>
                    andthen
                      (if sval (vmi_Annotations v) AnnotationMigrationUID = ms_MigrationUID ms \<and> ms_Completed ms
                       then resetHarvesterMigrationStateInVmiAndSyncVM e v else ret (Inr ())) (\<lambda>_.
                      if ms_Completed ms \<and> ms_AbortStatus ms = ''Succeeded''
                      then (case mig_podCache_List e (vmi_Namespace v) (ms_MigrationUID ms) of
                              Inl err \<Rightarrow> ret (Inl err)
                            | Inr [] \<Rightarrow> ret (Inr (Some v))
                            | Inr (pod # _) \<Rightarrow> do {
                                r \<leftarrow> request (PodDelete (vmi_Namespace v) pod) (\<lambda>h. mig_pods_Delete e h (vmi_Namespace v) pod);
                                ret (case r of
                                       Inl err \<Rightarrow> if \<not> is_not_found err then Inl err else Inr (Some v)
                                     | Inr _ \<Rightarrow> Inr (Some v)) })
                      else ret (Inr (Some v)))))"

section \<open>The limits a quota should have\<close>

definition comp_total :: "quota_env \<Rightarrow> resource_quota \<Rightarrow> quantity" where
  "comp_total q rq = (case GetCompensationFromResourceQuota q (Some rq) of Inl err \<Rightarrow> 0 | Inr m \<Rightarrow> m)"

definition quota_base :: "quota_env \<Rightarrow> string \<Rightarrow> quantity \<times> quantity \<Rightarrow> bool" where
  "quota_base q namespace base \<longleftrightarrow>
     (\<exists>annotations nrq. nsCache_Get q namespace = Inr annotations \<and>
        sval annotations CattleAnnotationResourceQuota \<noteq> [] \<and>
        nrq_Unmarshal q (sval annotations CattleAnnotationResourceQuota) = Inr nrq \<and>
        GetCPUMemoryLimitsFromRancherNamespaceResourceQuota q nrq = Inr base)"

definition wf_quota :: "quota_env \<Rightarrow> resource_quota \<Rightarrow> bool" where
  "wf_quota q rq \<longleftrightarrow> wf_marks q rq \<and> (\<exists>m. GetCompensationFromResourceQuota q (Some rq) = Inr m)"

text \<open>The abstract specification: base plus migrating VMs, plus the compensation for memory.\<close>

definition synced :: "quota_env \<Rightarrow> quantity \<times> quantity \<Rightarrow> resource_quota \<Rightarrow> bool" where
  "synced q base rq \<longleftrightarrow>
     (fst base \<noteq> 0 \<longrightarrow> rl_name (rq_Hard rq) ResourceLimitsCPU = fst base + mig_total q ResourceLimitsCPU rq) \<and>
     (snd base \<noteq> 0 \<longrightarrow> rl_name (rq_Hard rq) ResourceLimitsMemory =
        snd base + mig_total q ResourceLimitsMemory rq + comp_total q rq)"

definition scaling_on :: "resource_quota \<Rightarrow> bool" where
  "scaling_on rq \<longleftrightarrow> rq_DeletionTimestamp rq = None \<and>
     sget (rq_Labels rq) LabelManagementDefaultResourceQuota = Some ''true'' \<and>
     \<not> IsResourceQuotaAutoScalingDisabled (Some rq)"

text \<open>The quota after the writes of a reconcile.\<close>

fun rq_after :: "mig_call list \<Rightarrow> resource_quota \<Rightarrow> resource_quota" where
  "rq_after [] rq = rq"
| "rq_after (RQUpdate u # cs) rq = rq_after cs u"
| "rq_after (_ # cs) rq = rq_after cs rq"

lemma rl_name_update:
  "rl_name (Some (AList.update k q l)) k' = (if k' = k then q else rl_name (Some l) k')"
  "rl_index (Some (AList.update k q l)) k' = (if k' = k then Some q else rl_index (Some l) k')"
  by (simp_all add: rl_name_def rl_index_def update_conv')

lemma set_hard_Some:
  assumes "rq_Hard rq = Some l"
  shows "\<exists>l'. set_hard k q (rq, b) = Inr (rq\<lparr>rq_Hard := Some l'\<rparr>, b \<or> rl_name (rq_Hard rq) k \<noteq> q) \<and>
    rl_name (Some l') k = q \<and> (\<forall>k'. k' \<noteq> k \<longrightarrow> rl_index (Some l') k' = rl_index (Some l) k') \<and>
    (rl_name (rq_Hard rq) k = q \<longrightarrow> l' = l)"
proof (cases "rl_name (rq_Hard rq) k = q")
  case True
  then show ?thesis using assms by (intro exI [of _ l]) (simp add: set_hard_def)
next
  case False
  then show ?thesis using assms
    by (intro exI [of _ "AList.update k q l"]) (simp add: set_hard_def rl_write_def rl_name_update)
qed

lemma rl_name_index: "rl_index rl k = rl_index rl' k \<Longrightarrow> rl_name rl k = rl_name rl' k"
  by (simp add: rl_name_def)

lemma CalculateNew_Some:
  assumes "rq_Hard rq = Some l"
  shows "\<exists>l' upd. CalculateNewResourceQuotaFromBaseDelta rq c m dc dm k = Inr (rq\<lparr>rq_Hard := Some l'\<rparr>, upd) \<and>
    (c \<noteq> 0 \<longrightarrow> rl_name (Some l') ResourceLimitsCPU = c + dc) \<and>
    (m \<noteq> 0 \<longrightarrow> rl_name (Some l') ResourceLimitsMemory = m + dm + k) \<and>
    (\<forall>r. r \<notin> {ResourceLimitsCPU, ResourceLimitsMemory} \<longrightarrow> rl_index (Some l') r = rl_index (Some l) r) \<and>
    (\<not> upd \<longrightarrow> l' = l) \<and>
    (upd \<longleftrightarrow> c \<noteq> 0 \<and> rl_name (Some l) ResourceLimitsCPU \<noteq> c + dc \<or>
             m \<noteq> 0 \<and> rl_name (Some l) ResourceLimitsMemory \<noteq> m + dm + k)"
proof -
  let ?u1 = "c \<noteq> 0 \<and> rl_name (Some l) ResourceLimitsCPU \<noteq> c + dc"
  have "\<exists>l1. (if c \<noteq> 0 then set_hard ResourceLimitsCPU (c + dc) (rq, False) else Inr (rq, False)) = Inr (rq\<lparr>rq_Hard := Some l1\<rparr>, ?u1) \<and>
      (c \<noteq> 0 \<longrightarrow> rl_name (Some l1) ResourceLimitsCPU = c + dc) \<and>
      (\<forall>r. r \<noteq> ResourceLimitsCPU \<longrightarrow> rl_index (Some l1) r = rl_index (Some l) r) \<and> (\<not> ?u1 \<longrightarrow> l1 = l)"
  proof (cases "c = 0")
    case True
    then show ?thesis using assms by (intro exI [of _ l]) simp
  next
    case False
    with set_hard_Some [OF assms, of ResourceLimitsCPU "c + dc" False] show ?thesis by (auto simp: assms)
  qed
  then obtain l1 where l1: "(if c \<noteq> 0 then set_hard ResourceLimitsCPU (c + dc) (rq, False) else Inr (rq, False)) = Inr (rq\<lparr>rq_Hard := Some l1\<rparr>, ?u1)"
    "c \<noteq> 0 \<Longrightarrow> rl_name (Some l1) ResourceLimitsCPU = c + dc"
    "\<And>r. r \<noteq> ResourceLimitsCPU \<Longrightarrow> rl_index (Some l1) r = rl_index (Some l) r" "\<not> ?u1 \<Longrightarrow> l1 = l"
    by blast
  have mem: "rl_name (Some l1) ResourceLimitsMemory = rl_name (Some l) ResourceLimitsMemory"
    by (rule rl_name_index [OF l1(3)]) simp
  show ?thesis
  proof (cases "m = 0")
    case True
    then show ?thesis using l1 by (intro exI [of _ l1] exI [of _ ?u1]) (simp add: CalculateNewResourceQuotaFromBaseDelta_def)
  next
    case False
    obtain l2 where l2: "set_hard ResourceLimitsMemory (m + dm + k) (rq\<lparr>rq_Hard := Some l1\<rparr>, ?u1) =
        Inr (rq\<lparr>rq_Hard := Some l2\<rparr>, ?u1 \<or> rl_name (Some l1) ResourceLimitsMemory \<noteq> m + dm + k)"
      "rl_name (Some l2) ResourceLimitsMemory = m + dm + k"
      "\<And>r. r \<noteq> ResourceLimitsMemory \<Longrightarrow> rl_index (Some l2) r = rl_index (Some l1) r"
      "rl_name (Some l1) ResourceLimitsMemory = m + dm + k \<Longrightarrow> l2 = l1"
      using set_hard_Some [of "rq\<lparr>rq_Hard := Some l1\<rparr>" l1 ResourceLimitsMemory "m + dm + k" ?u1] by auto
    have "rl_name (Some l2) ResourceLimitsCPU = rl_name (Some l1) ResourceLimitsCPU"
      by (rule rl_name_index [OF l2(3)]) simp
    then show ?thesis using False l1 l2 mem
      by (intro exI [of _ l2] exI [of _ "?u1 \<or> rl_name (Some l1) ResourceLimitsMemory \<noteq> m + dm + k"])
        (auto simp: CalculateNewResourceQuotaFromBaseDelta_def)
  qed
qed

section \<open>The quota controller reaches the specification\<close>

lemma mig_total_cong: "migrating_marks rq = migrating_marks rq' \<Longrightarrow> mig_total q res rq = mig_total q res rq'"
  by (simp add: mig_total_def migrating.mark_sum_def)

lemma GetCompensation_cong:
  assumes "sval (rq_Annotations rq) AnnotationMigratingCompensation = sval (rq_Annotations rq') AnnotationMigratingCompensation"
  shows "GetCompensationFromResourceQuota q (Some rq) = GetCompensationFromResourceQuota q (Some rq')"
proof -
  have "getResourceListOfMigratingCompensation q (Some x) =
     (let c = sval (rq_Annotations x) AnnotationMigratingCompensation
      in if c = [] then Inr None
         else (case rl_Unmarshal q c of
                 Inl err \<Rightarrow> Inl (errorf_w (''failed to unmarshal compensation quantity '' @ c @ '' '') err)
               | Inr rl \<Rightarrow> Inr rl))" for x
    by (auto simp: getResourceListOfMigratingCompensation_def Let_def)
  with assms show ?thesis by (simp add: GetCompensationFromResourceQuota_def)
qed

lemma Clear_frame [simp]:
  "rq_Hard (ClearAnnotationMigratingScalingResyncNeeded rq) = rq_Hard rq"
  "rq_Used (ClearAnnotationMigratingScalingResyncNeeded rq) = rq_Used rq"
  "rq_Labels (ClearAnnotationMigratingScalingResyncNeeded rq) = rq_Labels rq"
  "rq_Namespace (ClearAnnotationMigratingScalingResyncNeeded rq) = rq_Namespace rq"
  "rq_DeletionTimestamp (ClearAnnotationMigratingScalingResyncNeeded rq) = rq_DeletionTimestamp rq"
  "k \<noteq> AnnotationMigratingScalingResyncNeeded \<Longrightarrow>
     sget (rq_Annotations (ClearAnnotationMigratingScalingResyncNeeded rq)) k = sget (rq_Annotations rq) k"
  "\<not> IsMigratingScalingResyncNeeded (Some (ClearAnnotationMigratingScalingResyncNeeded rq))"
  by (auto simp: ClearAnnotationMigratingScalingResyncNeeded_def IsMigratingScalingResyncNeeded_def sval_def split: option.splits)

lemma distinct_sset:
  "(case m of None \<Rightarrow> True | Some l \<Rightarrow> distinct (map fst l)) \<Longrightarrow>
   (case sset m k v of None \<Rightarrow> True | Some l \<Rightarrow> distinct (map fst l))"
  by (simp add: sset_def distinct_update split: option.splits)

lemma distinct_sdel:
  "(case m of None \<Rightarrow> True | Some l \<Rightarrow> distinct (map fst l)) \<Longrightarrow>
   (case sdel m k of None \<Rightarrow> True | Some l \<Rightarrow> distinct (map fst l))"
  by (simp add: sdel_def distinct_delete split: option.splits)

lemma distinct_Clear:
  "(case rq_Annotations rq of None \<Rightarrow> True | Some l \<Rightarrow> distinct (map fst l)) \<Longrightarrow>
   (case rq_Annotations (ClearAnnotationMigratingScalingResyncNeeded rq) of None \<Rightarrow> True | Some l \<Rightarrow> distinct (map fst l))"
  unfolding ClearAnnotationMigratingScalingResyncNeeded_def by (auto intro: distinct_sset split: if_splits)

text \<open>Two quotas that differ only in limits, usage and the resync flag have the same marks.\<close>

definition same_marks :: "resource_quota \<Rightarrow> resource_quota \<Rightarrow> bool" where
  "same_marks rq rq' \<longleftrightarrow> rq_Namespace rq' = rq_Namespace rq \<and> rq_Labels rq' = rq_Labels rq \<and>
     rq_DeletionTimestamp rq' = rq_DeletionTimestamp rq \<and>
     ((case rq_Annotations rq of None \<Rightarrow> True | Some l \<Rightarrow> distinct (map fst l)) \<longrightarrow>
      (case rq_Annotations rq' of None \<Rightarrow> True | Some l \<Rightarrow> distinct (map fst l))) \<and>
     (\<forall>k. k \<noteq> AnnotationMigratingScalingResyncNeeded \<longrightarrow> sget (rq_Annotations rq') k = sget (rq_Annotations rq) k)"

lemma same_marksD:
  assumes "same_marks rq rq'"
  shows "migrating_marks rq' = migrating_marks rq" "mig_total q res rq' = mig_total q res rq"
    "GetCompensationFromResourceQuota q (Some rq') = GetCompensationFromResourceQuota q (Some rq)"
    "comp_total q rq' = comp_total q rq" "wf_quota q rq \<Longrightarrow> wf_quota q rq'" "scaling_on rq' = scaling_on rq"
    "rq_Namespace rq' = rq_Namespace rq"
proof -
  have get: "sget (rq_Annotations rq') k = sget (rq_Annotations rq) k" if "k \<noteq> AnnotationMigratingScalingResyncNeeded" for k
    using assms that by (simp add: same_marks_def)
  show marks: "migrating_marks rq' = migrating_marks rq" by (simp add: fun_eq_iff migrating_marks_def get)
  then show "mig_total q res rq' = mig_total q res rq" by (rule mig_total_cong)
  show comp: "GetCompensationFromResourceQuota q (Some rq') = GetCompensationFromResourceQuota q (Some rq)"
    by (rule GetCompensation_cong) (simp add: sval_def get)
  then show "comp_total q rq' = comp_total q rq" by (simp add: comp_total_def)
  show "wf_quota q rq'" if "wf_quota q rq"
    using that assms marks comp by (auto simp: wf_quota_def wf_marks_def shas_def get same_marks_def)
  show "scaling_on rq' = scaling_on rq"
    using assms by (simp add: scaling_on_def IsResourceQuotaAutoScalingDisabled_def sval_def get same_marks_def)
  show "rq_Namespace rq' = rq_Namespace rq" using assms by (simp add: same_marks_def)
qed

lemma same_marks_Clear: "same_marks rq (ClearAnnotationMigratingScalingResyncNeeded (rq\<lparr>rq_Hard := h\<rparr>))"
  unfolding same_marks_def using distinct_Clear [of "rq\<lparr>rq_Hard := h\<rparr>"] by simp

lemma same_marks_refl [simp]: "same_marks rq rq"
  by (simp add: same_marks_def)

lemma same_marks_hard: "same_marks rq (rq\<lparr>rq_Hard := h\<rparr>)"
  by (simp add: same_marks_def)

lemma nonempty_hard: "\<not> isEmpty (Some rq) \<Longrightarrow> \<exists>l. rq_Hard rq = Some l"
  by (auto simp: isEmpty_def)

lemma scale_nonempty:
  assumes "quota_base q (rq_Namespace rq) base" and "wf_quota q rq" and "quota_order_ok q" and "\<not> isEmpty (Some rq)"
    and "nsCache_Get q (rq_Namespace rq) = Inr annotations"
  shows "\<exists>h upd. scaleResourceQuotaOnDemand q rq (sval annotations CattleAnnotationResourceQuota) = Inr (rq\<lparr>rq_Hard := h\<rparr>, upd) \<and>
    synced q base (rq\<lparr>rq_Hard := h\<rparr>) \<and> (\<not> upd \<longrightarrow> h = rq_Hard rq) \<and> (synced q base rq \<longrightarrow> \<not> upd) \<and>
    (\<forall>r. r \<notin> {ResourceLimitsCPU, ResourceLimitsMemory} \<longrightarrow> rl_index h r = rl_index (rq_Hard rq) r)"
proof -
  obtain l where l: "rq_Hard rq = Some l" using nonempty_hard [OF assms(4)] by blast
  obtain c m where base: "base = (c, m)" by (cases base)
  obtain k where k: "GetCompensationFromResourceQuota q (Some rq) = Inr k" using assms(2) by (auto simp: wf_quota_def)
  then have ck: "comp_total q rq = k" by (simp add: comp_total_def)
  have vmim: "getVMIMResourcesFromRQAnnotation q (Some rq) =
    Inr (mig_total q ResourceLimitsCPU rq, mig_total q ResourceLimitsMemory rq, mig_total q ResourceRequestsStorage rq)"
    using assms(2,3) by (intro getVMIMResources_total) (simp_all add: wf_quota_def)
  obtain l' upd where new: "CalculateNewResourceQuotaFromBaseDelta rq c m (mig_total q ResourceLimitsCPU rq)
      (mig_total q ResourceLimitsMemory rq) k = Inr (rq\<lparr>rq_Hard := Some l'\<rparr>, upd)"
    "c \<noteq> 0 \<Longrightarrow> rl_name (Some l') ResourceLimitsCPU = c + mig_total q ResourceLimitsCPU rq"
    "m \<noteq> 0 \<Longrightarrow> rl_name (Some l') ResourceLimitsMemory = m + mig_total q ResourceLimitsMemory rq + k"
    "\<And>r. r \<notin> {ResourceLimitsCPU, ResourceLimitsMemory} \<Longrightarrow> rl_index (Some l') r = rl_index (Some l) r"
    "\<not> upd \<Longrightarrow> l' = l"
    "upd \<longleftrightarrow> c \<noteq> 0 \<and> rl_name (Some l) ResourceLimitsCPU \<noteq> c + mig_total q ResourceLimitsCPU rq \<or>
             m \<noteq> 0 \<and> rl_name (Some l) ResourceLimitsMemory \<noteq> m + mig_total q ResourceLimitsMemory rq + k"
    using CalculateNew_Some [OF l, of c m "mig_total q ResourceLimitsCPU rq" "mig_total q ResourceLimitsMemory rq" k] by blast
  have "scaleResourceQuotaOnDemand q rq (sval annotations CattleAnnotationResourceQuota) = Inr (rq\<lparr>rq_Hard := Some l'\<rparr>, upd)"
    using assms(1,4,5) vmim k new(1) base by (auto simp: scaleResourceQuotaOnDemand_def quota_base_def IsEmptyResourceQuota_def)
  moreover have "synced q base (rq\<lparr>rq_Hard := Some l'\<rparr>)"
    using new(2,3) base ck same_marksD(2,4) [OF same_marks_hard [of rq "Some l'"]] by (simp add: synced_def)
  moreover have "synced q base rq \<Longrightarrow> \<not> upd"
    using new(6) l base ck by (auto simp: synced_def)
  ultimately show ?thesis using new(4,5) l by (intro exI [of _ "Some l'"] exI [of _ upd]) auto
qed

lemma scale_empty:
  assumes "quota_base q (rq_Namespace rq) base" and "isEmpty (Some rq)" and "nsCache_Get q (rq_Namespace rq) = Inr annotations"
  shows "scaleResourceQuotaOnDemand q rq (sval annotations CattleAnnotationResourceQuota) = Inl errSkipScaling"
  using assms by (auto simp: scaleResourceQuotaOnDemand_def quota_base_def IsEmptyResourceQuota_def)

lemma quota_base_ns: "quota_base q ns base \<Longrightarrow> \<exists>annotations. nsCache_Get q ns = Inr annotations"
  by (auto simp: quota_base_def)

definition sync_quota :: "mig_env \<Rightarrow> resource_quota \<Rightarrow> resource_quota" where
  "sync_quota e rq = rq_after (issued (OnResourceQuotaChanged e (Some rq))) rq"

lemma run_rq_update: "issued (andthen (rq_update e rq) (\<lambda>u. ret (Inr (Some u)))) = [RQUpdate rq]"
  by (simp add: rq_update_def issued_def split: sum.splits)

lemma scaling_on_guard:
  "scaling_on rq \<Longrightarrow> rq_DeletionTimestamp rq = None \<and> rq_Labels rq \<noteq> None \<and>
     sval (rq_Labels rq) LabelManagementDefaultResourceQuota = ''true'' \<and> \<not> IsResourceQuotaAutoScalingDisabled (Some rq)"
  by (auto simp: scaling_on_def sval_def sget_def split: option.splits)

text \<open>What one run of the quota controller sends, in every case.\<close>

lemma OnResourceQuotaChanged_issued:
  assumes "scaling_on rq" and "nsCache_Get (me_quota e) (rq_Namespace rq) = Inr annotations"
  shows "issued (OnResourceQuotaChanged e (Some rq)) =
    (case scaleResourceQuotaOnDemand (me_quota e) rq (sval annotations CattleAnnotationResourceQuota) of
       Inl err \<Rightarrow> if errors_is err errSkipScaling \<and> IsMigratingScalingResyncNeeded (Some rq)
                 then [RQUpdate (ClearAnnotationMigratingScalingResyncNeeded rq)] else []
     | Inr (rq', upd) \<Rightarrow> if upd \<or> IsMigratingScalingResyncNeeded (Some rq')
                 then [RQUpdate (ClearAnnotationMigratingScalingResyncNeeded rq')] else [])"
  using scaling_on_guard [OF assms(1)] assms(2)
  by (auto simp: OnResourceQuotaChanged_def run_rq_update issued_def [of "ret _"] split: sum.splits)

lemma sync_quota_cases:
  assumes "scaling_on rq" and "quota_base (me_quota e) (rq_Namespace rq) base" and "wf_quota (me_quota e) rq"
    and "quota_order_ok (me_quota e)"
  obtains h where
    "sync_quota e rq = ClearAnnotationMigratingScalingResyncNeeded (rq\<lparr>rq_Hard := h\<rparr>) \<or>
     sync_quota e rq = rq \<and> h = rq_Hard rq \<and> \<not> IsMigratingScalingResyncNeeded (Some rq)"
    and "isEmpty (Some rq) \<Longrightarrow> h = rq_Hard rq" and "\<not> isEmpty (Some rq) \<Longrightarrow> synced (me_quota e) base (rq\<lparr>rq_Hard := h\<rparr>)"
    and "\<And>r. r \<notin> {ResourceLimitsCPU, ResourceLimitsMemory} \<Longrightarrow> rl_index h r = rl_index (rq_Hard rq) r"
proof -
  obtain annotations where ann: "nsCache_Get (me_quota e) (rq_Namespace rq) = Inr annotations"
    using quota_base_ns [OF assms(2)] by blast
  note iss = OnResourceQuotaChanged_issued [OF assms(1) ann]
  show thesis
  proof (cases "isEmpty (Some rq)")
    case True
    have "rq\<lparr>rq_Hard := rq_Hard rq\<rparr> = rq" by simp
    with True show ?thesis
      using iss scale_empty [OF assms(2) True ann] by (intro that [of "rq_Hard rq"]) (auto simp: sync_quota_def errSkipScaling_def)
  next
    case False
    obtain h upd where h: "scaleResourceQuotaOnDemand (me_quota e) rq (sval annotations CattleAnnotationResourceQuota) = Inr (rq\<lparr>rq_Hard := h\<rparr>, upd)"
      "synced (me_quota e) base (rq\<lparr>rq_Hard := h\<rparr>)" "\<not> upd \<Longrightarrow> h = rq_Hard rq"
      "\<And>r. r \<notin> {ResourceLimitsCPU, ResourceLimitsMemory} \<Longrightarrow> rl_index h r = rl_index (rq_Hard rq) r"
      using scale_nonempty [OF assms(2,3,4) False ann] by blast
    have "IsMigratingScalingResyncNeeded (Some (rq\<lparr>rq_Hard := h\<rparr>)) = IsMigratingScalingResyncNeeded (Some rq)"
      by (simp add: IsMigratingScalingResyncNeeded_def)
    with iss h(1,3) have "sync_quota e rq = ClearAnnotationMigratingScalingResyncNeeded (rq\<lparr>rq_Hard := h\<rparr>) \<or>
        sync_quota e rq = rq \<and> h = rq_Hard rq \<and> \<not> IsMigratingScalingResyncNeeded (Some rq)"
      by (auto simp: sync_quota_def)
    then show ?thesis using that [of h] h(2,4) False by blast
  qed
qed

lemma sync_quota_spec:
  assumes "scaling_on rq" and "quota_base (me_quota e) (rq_Namespace rq) base" and "wf_quota (me_quota e) rq"
    and "quota_order_ok (me_quota e)"
  shows "same_marks rq (sync_quota e rq)" and "\<not> IsMigratingScalingResyncNeeded (Some (sync_quota e rq))"
    and "isEmpty (Some rq) \<Longrightarrow> rq_Hard (sync_quota e rq) = rq_Hard rq"
    and "\<not> isEmpty (Some rq) \<Longrightarrow> synced (me_quota e) base (sync_quota e rq)"
    and "r \<notin> {ResourceLimitsCPU, ResourceLimitsMemory} \<Longrightarrow> rl_index (rq_Hard (sync_quota e rq)) r = rl_index (rq_Hard rq) r"
proof -
  obtain h where h: "sync_quota e rq = ClearAnnotationMigratingScalingResyncNeeded (rq\<lparr>rq_Hard := h\<rparr>) \<or>
     sync_quota e rq = rq \<and> h = rq_Hard rq \<and> \<not> IsMigratingScalingResyncNeeded (Some rq)"
    and e: "isEmpty (Some rq) \<Longrightarrow> h = rq_Hard rq" and sy: "\<not> isEmpty (Some rq) \<Longrightarrow> synced (me_quota e) base (rq\<lparr>rq_Hard := h\<rparr>)"
    and other: "\<And>r. r \<notin> {ResourceLimitsCPU, ResourceLimitsMemory} \<Longrightarrow> rl_index h r = rl_index (rq_Hard rq) r"
    using sync_quota_cases [OF assms] by metis
  show same: "same_marks rq (sync_quota e rq)" using h same_marks_Clear [of rq h] by auto
  show "\<not> IsMigratingScalingResyncNeeded (Some (sync_quota e rq))" using h by auto
  have hard: "rq_Hard (sync_quota e rq) = h" using h by auto
  then show "isEmpty (Some rq) \<Longrightarrow> rq_Hard (sync_quota e rq) = rq_Hard rq" using e by simp
  show "synced (me_quota e) base (sync_quota e rq)" if "\<not> isEmpty (Some rq)"
    using sy [OF that] hard same_marksD(2,4) [OF same] same_marksD(2,4) [OF same_marks_hard [of rq h]] by (simp add: synced_def)
  show "rl_index (rq_Hard (sync_quota e rq)) r = rl_index (rq_Hard rq) r" if "r \<notin> {ResourceLimitsCPU, ResourceLimitsMemory}"
    using other [OF that] hard by simp
qed

lemma sync_quota_settles:
  assumes "scaling_on rq" and "quota_base (me_quota e) (rq_Namespace rq) base" and "wf_quota (me_quota e) rq"
    and "quota_order_ok (me_quota e)"
  shows "issued (OnResourceQuotaChanged e (Some (sync_quota e rq))) = []"
proof -
  let ?rq = "sync_quota e rq"
  note spec = sync_quota_spec [OF assms]
  note same = same_marksD [OF spec(1)]
  have on: "scaling_on ?rq" using assms(1) same(6) by simp
  have base: "quota_base (me_quota e) (rq_Namespace ?rq) base" using assms(2) same(7) by simp
  have wf: "wf_quota (me_quota e) ?rq" using same(5) [OF assms(3)] .
  obtain annotations where ann: "nsCache_Get (me_quota e) (rq_Namespace ?rq) = Inr annotations"
    using quota_base_ns [OF base] by blast
  show ?thesis
  proof (cases "isEmpty (Some ?rq)")
    case True
    from OnResourceQuotaChanged_issued [OF on ann] scale_empty [OF base True ann] spec(2) show ?thesis by simp
  next
    case False
    have "isEmpty (Some ?rq)" if "isEmpty (Some rq)" using spec(3) [OF that] that by (simp add: isEmpty_def)
    then have "\<not> isEmpty (Some rq)" using False by blast
    then have sy: "synced (me_quota e) base ?rq" by (rule spec(4))
    obtain h upd where
      h: "scaleResourceQuotaOnDemand (me_quota e) ?rq (sval annotations CattleAnnotationResourceQuota) = Inr (?rq\<lparr>rq_Hard := h\<rparr>, upd)"
      "\<not> upd \<Longrightarrow> h = rq_Hard ?rq" "synced (me_quota e) base ?rq \<Longrightarrow> \<not> upd"
      using scale_nonempty [OF base wf assms(4) False ann] by blast
    have "\<not> upd" using h(3) sy by blast
    then have "?rq\<lparr>rq_Hard := h\<rparr> = ?rq" using h(2) by simp
    with h(1) \<open>\<not> upd\<close> have "scaleResourceQuotaOnDemand (me_quota e) ?rq (sval annotations CattleAnnotationResourceQuota) = Inr (?rq, False)"
      by simp
    with OnResourceQuotaChanged_issued [OF on ann] spec(2) show ?thesis by simp
  qed
qed

section \<open>What a migration writes on a quota\<close>

definition quota_ratio :: "quota_env \<Rightarrow> string option" where
  "quota_ratio q = Some (GetAdditionalGuestMemoryOverheadRatioWithoutError q)"

text \<open>
  A migration adds its own mark, removes its own mark together with the compensation, or adds a
  compensation once its mark has been taken into account; it always asks for a resync and never
  touches the limits.
\<close>

definition mig_write :: "quota_env \<Rightarrow> mvmi \<Rightarrow> resource_quota \<Rightarrow> resource_quota \<Rightarrow> bool" where
  "mig_write q v rq u \<longleftrightarrow>
     (\<exists>rlb rl. \<not> ContainsMigratingVM (Some rq) (vmi_Name v) (vmi_UID v) \<and>
        CalculateScaleResourceQuotaWithVMI q (Some rq) v (quota_ratio q) = (True, Some rq, rl) \<and> rl_Marshal q rl = Inr rlb \<and>
        u = SetAnnotationMigratingScalingResyncNeeded (mark_migrating (vmi_Name v) (vmi_UID v) rlb rq)) \<or>
     ContainsMigratingVM (Some rq) (vmi_Name v) (vmi_UID v) \<and>
        u = SetAnnotationMigratingScalingResyncNeeded
              ((unmark_migrating (vmi_Name v) (vmi_UID v) rq)\<lparr>rq_Annotations :=
                 sdel (rq_Annotations (unmark_migrating (vmi_Name v) (vmi_UID v) rq)) AnnotationMigratingCompensation\<rparr>) \<or>
     (\<exists>rlb rl. ContainsMigratingVM (Some rq) (vmi_Name v) (vmi_UID v) \<and> \<not> IsMigratingScalingResyncNeeded (Some rq) \<and>
        CalculateCompensationResourceQuotaWithVMI q (Some rq) (Some v) (quota_ratio q) = (True, rl) \<and> rl_Marshal q rl = Inr rlb \<and>
        u = SetAnnotationMigratingScalingResyncNeeded (rq\<lparr>rq_Annotations := sset (rq_Annotations rq) AnnotationMigratingCompensation rlb\<rparr>))"

definition mig_policy :: "mig_env \<Rightarrow> mvmi \<Rightarrow> mig_call \<Rightarrow> bool" where
  "mig_policy e v c =
     (case c of
        RQUpdate u \<Rightarrow> \<exists>all rq rest. rqCache_List (me_quota e) (vmi_Namespace v) = Inr all \<and> default_quotas all = rq # rest \<and>
          mig_write (me_quota e) v rq u
      | _ \<Rightarrow> True)"

lemma emits_scaleResourceQuotaWithVMI: "emits (\<lambda>_. mig_policy e v) (scaleResourceQuotaWithVMI e v) h"
proof -
  have upd: "mig_policy e v (RQUpdate (SetAnnotationMigratingScalingResyncNeeded marked))"
    if "rqCache_List (me_quota e) (vmi_Namespace v) = Inr all" "default_quotas all = rq # rest"
      "\<not> ContainsMigratingVM (Some rq) (vmi_Name v) (vmi_UID v)"
      "CalculateScaleResourceQuotaWithVMI (me_quota e) (Some rq) v (Some (GetAdditionalGuestMemoryOverheadRatioWithoutError (me_quota e))) = (needUpdate, rqp, rl)"
      "needUpdate" "AddMigratingVM (me_quota e) rqp (vmi_Name v) (vmi_UID v) rl = Inr marked" for all rq rest needUpdate rqp rl marked
  proof -
    have "rqp = Some rq" using that(4,5) by (auto simp: CalculateScaleResourceQuotaWithVMI_def Let_def split: if_splits)
    with that(6) obtain rlb where "rl_Marshal (me_quota e) rl = Inr rlb" "marked = mark_migrating (vmi_Name v) (vmi_UID v) rlb rq"
      by (auto simp: AddMigratingVM_def split: sum.splits)
    with that \<open>rqp = Some rq\<close> show ?thesis unfolding mig_policy_def mig_write_def quota_ratio_def by auto
  qed
  show ?thesis
    unfolding scaleResourceQuotaWithVMI_def rq_update_def Let_def
    by (auto intro!: emits_return emits_andthen emits_request upd split: sum.splits list.splits prod.splits)
qed

lemma emits_scaleResourceQuota: "emits (\<lambda>_. mig_policy e v) (scaleResourceQuota e v) h"
  unfolding scaleResourceQuota_def
  by (intro emits_case_sum emits_return emits_if emits_bindI emits_scaleResourceQuotaWithVMI)

lemma DeleteMigratingVM_unmark:
  "DeleteMigratingVM (Some rq) n u = (Some (unmark_migrating n u rq), ContainsMigratingVM (Some rq) n u)"
proof (cases "rq_Annotations rq")
  case (Some l)
  then show ?thesis
    using slen_sdel2_eq_iff [of "rq_Annotations rq" "name_key n" "uid_key u"]
    by (auto simp: DeleteMigratingVM_def unmark_migrating_def ContainsMigratingVM_def Let_def)
qed (simp add: DeleteMigratingVM_def unmark_migrating_def ContainsMigratingVM_def)

lemma DeleteMigratingCompensation_eq:
  "fst (DeleteMigratingCompensation (Some rq)) = Some (rq\<lparr>rq_Annotations := sdel (rq_Annotations rq) AnnotationMigratingCompensation\<rparr>)"
  by (simp add: DeleteMigratingCompensation_def Let_def sdel_def)

lemma emits_restoreResourceQuotaWithVMI: "emits (\<lambda>_. mig_policy e v) (restoreResourceQuotaWithVMI e v) h"
proof -
  have upd: "mig_policy e v (RQUpdate (SetAnnotationMigratingScalingResyncNeeded rq'))"
    if "rqCache_List (me_quota e) (vmi_Namespace v) = Inr all" "default_quotas all = rq # rest"
      "ContainsMigratingVM (Some rq) (vmi_Name v) (vmi_UID v)"
      "DeleteMigratingCompensation (Some (unmark_migrating (vmi_Name v) (vmi_UID v) rq)) = (Some rq', b)" for all rq rest rq' b
    using that DeleteMigratingCompensation_eq [of "unmark_migrating (vmi_Name v) (vmi_UID v) rq"]
    unfolding mig_policy_def mig_write_def by auto
  show ?thesis
    unfolding restoreResourceQuotaWithVMI_def rq_update_def DeleteMigratingVM_unmark
    by (auto intro!: emits_return emits_andthen emits_request upd split: sum.splits list.splits prod.splits option.splits bool.splits)
qed

lemma emits_restoreResourceQuota: "emits (\<lambda>_. mig_policy e v) (restoreResourceQuota e m v) h"
  unfolding restoreResourceQuota_def
  by (intro emits_case_sum emits_return emits_if emits_bindI emits_restoreResourceQuotaWithVMI)

lemma emits_compensateResourceQuotaBase: "emits (\<lambda>_. mig_policy e v) (compensateResourceQuotaBase e m v) h"
proof -
  have upd: "mig_policy e v (RQUpdate (SetAnnotationMigratingScalingResyncNeeded marked))"
    if "rqCache_List (me_quota e) (vmi_Namespace v) = Inr all" "default_quotas all = rq # rest"
      "ContainsMigratingVM (Some rq) (vmi_Name v) (vmi_UID v)" "\<not> IsMigratingScalingResyncNeeded (Some rq)"
      "CalculateCompensationResourceQuotaWithVMI (me_quota e) (Some rq) (Some v) (Some (GetAdditionalGuestMemoryOverheadRatioWithoutError (me_quota e))) = (needUpdate, rl)"
      "needUpdate" "AddMigratingCompensation (me_quota e) (Some rq) rl = Inr marked" for all rq rest needUpdate rl marked
    using that unfolding mig_policy_def mig_write_def quota_ratio_def
    by (auto simp: AddMigratingCompensation_def split: sum.splits)
  have wait: "mig_policy e v (VmimEnqueueAfter a b c)" for a b c by (simp add: mig_policy_def)
  show ?thesis
    unfolding compensateResourceQuotaBase_def rq_update_def Let_def
    by (auto intro!: emits_return emits_andthen emits_bindI emits_request upd wait split: sum.splits list.splits prod.splits)
qed

lemma emits_compensate_conditions: "emits (\<lambda>_. mig_policy e v) (compensate_conditions e m v cs) h"
  by (induction cs) (auto intro!: emits_return emits_compensateResourceQuotaBase)

lemma emits_syncVM: "emits (\<lambda>_. mig_policy e v) (syncVM e v') h"
  unfolding syncVM_def Let_def
  by (intro emits_case_sum emits_if emits_return emits_bindI emits_observe emits_andthen emits_request) (simp add: mig_policy_def)

lemma emits_VirtClientUpdateVmi: "emits (\<lambda>_. mig_policy e v) (VirtClientUpdateVmi e v') h"
  unfolding VirtClientUpdateVmi_def by (intro emits_request) (simp add: mig_policy_def)

lemma emits_setVmiMigrationUIDAnnotation: "emits (\<lambda>_. mig_policy e v) (setVmiMigrationUIDAnnotation e v' uid state) h"
  unfolding setVmiMigrationUIDAnnotation_def Let_def
  by (intro emits_if emits_return emits_andthen emits_VirtClientUpdateVmi emits_syncVM)

lemma emits_resetHarvesterMigrationState: "emits (\<lambda>_. mig_policy e v) (resetHarvesterMigrationStateInVmiAndSyncVM e v') h"
  unfolding resetHarvesterMigrationStateInVmiAndSyncVM_def resetHarvesterMigrationStateInVMI_def Let_def
  by (intro emits_if emits_return emits_andthen emits_wrap_error emits_VirtClientUpdateVmi emits_syncVM)

lemma emits_OnVmimChanged:
  assumes "mig_vmiCache_Get e (vmim_Namespace m) (vmim_VMIName m) = Inr v"
  shows "emits (\<lambda>_. mig_policy e v) (OnVmimChanged e (Some m)) h"
  unfolding OnVmimChanged_def option.case assms sum.case Let_def handlePendingMigration_def handleFinishedMigration_def
    compensatePendingMigration_def
  by (intro emits_if emits_return emits_andthen emits_wrap_error emits_setVmiMigrationUIDAnnotation emits_scaleResourceQuota
      emits_compensate_conditions emits_restoreResourceQuota emits_resetHarvesterMigrationState)

lemma rq_after_cases: "rq_after cs rq = rq \<or> RQUpdate (rq_after cs rq) \<in> set cs"
  by (induction cs rq rule: rq_after.induct) auto

section \<open>Invariant of the interplay\<close>

definition codec_ok :: "quota_env \<Rightarrow> bool" where
  "codec_ok q \<longleftrightarrow> (\<forall>rl s. rl_Marshal q rl = Inr s \<longrightarrow> s \<noteq> [] \<and> rl_Unmarshal q s = Inr rl)"

abbreviation go_map :: "smap \<Rightarrow> bool" where
  "go_map m \<equiv> (case m of None \<Rightarrow> True | Some l \<Rightarrow> distinct (map fst l))"

lemma Set_frame [simp]:
  "rq_Hard (SetAnnotationMigratingScalingResyncNeeded rq) = rq_Hard rq"
  "rq_Labels (SetAnnotationMigratingScalingResyncNeeded rq) = rq_Labels rq"
  "rq_Namespace (SetAnnotationMigratingScalingResyncNeeded rq) = rq_Namespace rq"
  "rq_DeletionTimestamp (SetAnnotationMigratingScalingResyncNeeded rq) = rq_DeletionTimestamp rq"
  "rq_Annotations (SetAnnotationMigratingScalingResyncNeeded rq) = sset (rq_Annotations rq) AnnotationMigratingScalingResyncNeeded ''true''"
  "IsMigratingScalingResyncNeeded (Some (SetAnnotationMigratingScalingResyncNeeded rq))"
  by (simp_all add: SetAnnotationMigratingScalingResyncNeeded_def IsMigratingScalingResyncNeeded_def)

lemma same_marks_Set: "same_marks rq (SetAnnotationMigratingScalingResyncNeeded rq)"
  unfolding same_marks_def using distinct_sset by simp

text \<open>A write that changes nothing but annotations.\<close>

definition annotations_only :: "resource_quota \<Rightarrow> resource_quota \<Rightarrow> bool" where
  "annotations_only rq u \<longleftrightarrow> (\<exists>a. u = rq\<lparr>rq_Annotations := a\<rparr>)"

lemma annotations_onlyD:
  "annotations_only rq u \<Longrightarrow> rq_Hard u = rq_Hard rq \<and> rq_Labels u = rq_Labels rq \<and> rq_Namespace u = rq_Namespace rq \<and>
   rq_DeletionTimestamp u = rq_DeletionTimestamp rq \<and> rq_Used u = rq_Used rq"
  by (auto simp: annotations_only_def)

lemma annotations_only_intros:
  "annotations_only rq (mark_migrating n u s rq)" "annotations_only rq (unmark_migrating n u rq)"
  "annotations_only rq x \<Longrightarrow> annotations_only rq (SetAnnotationMigratingScalingResyncNeeded x)"
  "annotations_only rq x \<Longrightarrow> annotations_only rq (x\<lparr>rq_Annotations := a\<rparr>)"
proof -
  have "\<exists>a. rq = rq\<lparr>rq_Annotations := a\<rparr>" by (rule exI [of _ "rq_Annotations rq"]) simp
  then show "annotations_only rq (unmark_migrating n u rq)"
    unfolding annotations_only_def unmark_migrating_def DeleteMigratingVM_def Let_def by auto
qed (auto simp: annotations_only_def mark_migrating_def Let_def SetAnnotationMigratingScalingResyncNeeded_def)

lemma mark_annotations:
  "sget (rq_Annotations (mark_migrating n u s rq)) k =
     (if k = uid_key u then Some s else if k = name_key n then None else sget (rq_Annotations rq) k)"
  by (auto simp: mark_migrating_def Let_def sget_def [of None] split: option.splits)

lemma go_map_mark: "go_map (rq_Annotations rq) \<Longrightarrow> go_map (rq_Annotations (mark_migrating n u s rq))"
proof -
  assume "go_map (rq_Annotations rq)"
  then have "go_map (case rq_Annotations rq of None \<Rightarrow> Some [] | Some l \<Rightarrow> Some l)" by (simp split: option.splits)
  then have "go_map (sset (sdel (case rq_Annotations rq of None \<Rightarrow> Some [] | Some l \<Rightarrow> Some l) (name_key n)) (uid_key u) s)"
    by (intro distinct_sset distinct_sdel)
  then show ?thesis by (simp add: mark_migrating_def)
qed

lemma wf_quotaI:
  assumes "go_map (rq_Annotations rq)" and "\<And>n. sget (rq_Annotations rq) (name_key n) = None"
    and "\<And>uid s. sget (rq_Annotations rq) (uid_key uid) = Some s \<Longrightarrow> \<exists>rl. rl_Unmarshal q s = Inr rl"
    and "\<And>s. sget (rq_Annotations rq) AnnotationMigratingCompensation = Some s \<Longrightarrow> s \<noteq> [] \<Longrightarrow> \<exists>rl. rl_Unmarshal q s = Inr rl"
  shows "wf_quota q rq"
proof -
  let ?c = "sval (rq_Annotations rq) AnnotationMigratingCompensation"
  have "\<exists>rl. rl_Unmarshal q ?c = Inr rl" if "?c \<noteq> []"
    using assms(4) that by (auto simp: sval_def split: option.splits)
  then have "\<exists>m. GetCompensationFromResourceQuota q (Some rq) = Inr m"
    by (auto simp: GetCompensationFromResourceQuota_def getResourceListOfMigratingCompensation_def Let_def)
  then show ?thesis using assms(1-3) by (simp add: wf_quota_def wf_marks_def shas_def migrating_marks_def)
qed

lemma wf_quotaD:
  assumes "wf_quota q rq"
  shows "go_map (rq_Annotations rq)" and "sget (rq_Annotations rq) (name_key n) = None"
    and "sget (rq_Annotations rq) (uid_key uid) = Some s \<Longrightarrow> \<exists>rl. rl_Unmarshal q s = Inr rl"
    and "sget (rq_Annotations rq) AnnotationMigratingCompensation = Some s \<Longrightarrow> s \<noteq> [] \<Longrightarrow> \<exists>rl. rl_Unmarshal q s = Inr rl"
  using assms by (auto simp: wf_quota_def wf_marks_def shas_def migrating_marks_def GetCompensationFromResourceQuota_def
      getResourceListOfMigratingCompensation_def Let_def sval_def sget_def split: sum.splits option.splits if_splits)

lemma wf_mark:
  assumes "wf_quota q rq" and "rl_Unmarshal q s = Inr rl"
  shows "wf_quota q (mark_migrating n u s rq)"
  by (rule wf_quotaI) (use assms wf_quotaD [OF assms(1)] in \<open>auto simp: mark_annotations go_map_mark split: if_splits\<close>)

lemma wf_unmark:
  assumes "wf_quota q rq"
  shows "wf_quota q ((unmark_migrating n u rq)\<lparr>rq_Annotations := sdel (rq_Annotations (unmark_migrating n u rq)) AnnotationMigratingCompensation\<rparr>)"
proof (rule wf_quotaI)
  show "go_map (rq_Annotations ((unmark_migrating n u rq)\<lparr>rq_Annotations := sdel (rq_Annotations (unmark_migrating n u rq)) AnnotationMigratingCompensation\<rparr>))"
    using wf_quotaD(1) [OF assms] by (simp add: unmark_migrating_annotations distinct_sdel)
qed (use wf_quotaD [OF assms] in \<open>auto simp: unmark_migrating_annotations split: if_splits\<close>)

lemma wf_compensate:
  assumes "wf_quota q rq" and "rl_Unmarshal q s = Inr rl"
  shows "wf_quota q (rq\<lparr>rq_Annotations := sset (rq_Annotations rq) AnnotationMigratingCompensation s\<rparr>)"
proof (rule wf_quotaI)
  show "go_map (rq_Annotations (rq\<lparr>rq_Annotations := sset (rq_Annotations rq) AnnotationMigratingCompensation s\<rparr>))"
    using wf_quotaD(1) [OF assms(1)] by (simp add: distinct_sset)
qed (use wf_quotaD [OF assms(1)] assms(2) in \<open>auto split: if_splits\<close>)

lemma skip_annotation:
  "sget (rq_Annotations (mark_migrating n u s rq)) AnnotationSkipResourceQuotaAutoScaling = sget (rq_Annotations rq) AnnotationSkipResourceQuotaAutoScaling"
  "sget (rq_Annotations (unmark_migrating n u rq)) AnnotationSkipResourceQuotaAutoScaling = sget (rq_Annotations rq) AnnotationSkipResourceQuotaAutoScaling"
  by (simp_all add: mark_annotations unmark_migrating_annotations)

lemma mig_write_effect:
  assumes "codec_ok q" and "wf_quota q rq" and "mig_write q v rq u"
  shows "wf_quota q u \<and> IsMigratingScalingResyncNeeded (Some u) \<and> annotations_only rq u \<and> scaling_on u = scaling_on rq"
proof -
  from assms(3) obtain x where x: "u = SetAnnotationMigratingScalingResyncNeeded x" "wf_quota q x" "annotations_only rq x"
    "sget (rq_Annotations x) AnnotationSkipResourceQuotaAutoScaling = sget (rq_Annotations rq) AnnotationSkipResourceQuotaAutoScaling"
    unfolding mig_write_def
  proof (elim disjE exE conjE, goal_cases)
    case (1 rlb rl)
    with assms(1) have "rl_Unmarshal q rlb = Inr rl" by (simp add: codec_ok_def)
    with assms(2) show ?case
      by (intro "1"(1) [OF "1"(5)] wf_mark annotations_only_intros) (simp_all add: skip_annotation)
  next
    case 2
    then show ?case
      by (intro "2"(1) [OF "2"(3)] wf_unmark [OF assms(2)] annotations_only_intros) (simp_all add: skip_annotation)
  next
    case (3 rlb rl)
    with assms(1) have "rl_Unmarshal q rlb = Inr rl" by (simp add: codec_ok_def)
    with assms(2) show ?case
      by (intro "3"(1) [OF "3"(6)] wf_compensate) (auto simp: annotations_only_def)
  qed
  have "wf_quota q u" using x(1,2) same_marksD(5) [OF same_marks_Set] by simp
  moreover have "scaling_on u = scaling_on x" using x(1) same_marksD(6) [OF same_marks_Set] by simp
  moreover have "scaling_on x = scaling_on rq"
    using annotations_onlyD [OF x(3)] x(4) by (simp add: scaling_on_def IsResourceQuotaAutoScalingDisabled_def sval_def)
  ultimately show ?thesis using x(1,3) by (simp add: annotations_only_intros)
qed

section \<open>Steps of the two controllers\<close>

definition view :: "quota_env \<Rightarrow> resource_quota \<Rightarrow> quota_env" where
  "view q rq = q\<lparr>rqCache_List := \<lambda>namespace. Inr [rq]\<rparr>"

lemma view_simps [simp]:
  "rqCache_List (view q rq) ns = Inr [rq]" "nsCache_Get (view q rq) = nsCache_Get q" "rl_Marshal (view q rq) = rl_Marshal q"
  "rl_Unmarshal (view q rq) = rl_Unmarshal q" "nrq_Unmarshal (view q rq) = nrq_Unmarshal q"
  "ParseQuantity (view q rq) = ParseQuantity q" "quota_mapOrder (view q rq) = quota_mapOrder q"
  by (simp_all add: view_def)

lemma view_total [simp]: "mig_total (view q rq) res x = mig_total q res x"
  by (simp add: mig_total_def decoded_def)

lemma view_comp [simp]: "GetCompensationFromResourceQuota (view q rq) x = GetCompensationFromResourceQuota q x"
  unfolding GetCompensationFromResourceQuota_def getResourceListOfMigratingCompensation_def view_simps ..

lemma view_comp_total [simp]: "comp_total (view q rq) x = comp_total q x"
  by (simp add: comp_total_def)

lemma view_limits [simp]:
  "GetCPUMemoryLimitsFromRancherNamespaceResourceQuota (view q rq) x = GetCPUMemoryLimitsFromRancherNamespaceResourceQuota q x"
  unfolding GetCPUMemoryLimitsFromRancherNamespaceResourceQuota_def view_simps ..

lemma view_invariants [simp]: "synced (view q rq) base x = synced q base x" "wf_quota (view q rq) x = wf_quota q x"
  "codec_ok (view q rq) = codec_ok q" "quota_order_ok (view q rq) = quota_order_ok q"
  by (simp_all add: synced_def wf_quota_def wf_marks_def codec_ok_def quota_order_ok_def)

lemma view_base [simp]: "quota_base (view q rq) ns base = quota_base q ns base"
  by (simp add: quota_base_def)

text \<open>
  A quota changes by a reconcile of any migration, by a reconcile of the quota itself, and when
  the usage is recounted. The answers of the server and every other object stay arbitrary.
\<close>

inductive quota_step :: "quota_env \<Rightarrow> resource_quota \<Rightarrow> resource_quota \<Rightarrow> bool" for q where
  migration_step: "quota_step q rq (rq_after (issued (OnVmimChanged (e\<lparr>me_quota := view q rq\<rparr>) (Some m))) rq)"
| sync_step: "quota_step q rq (sync_quota (e\<lparr>me_quota := view q rq\<rparr>) rq)"
| usage_step: "quota_step q rq (rq\<lparr>rq_Used := used\<rparr>)"

definition quota_inv :: "quota_env \<Rightarrow> quantity \<times> quantity \<Rightarrow> resource_quota \<Rightarrow> bool" where
  "quota_inv q base rq \<longleftrightarrow> scaling_on rq \<and> wf_quota q rq \<and> quota_base q (rq_Namespace rq) base \<and>
     (isEmpty (Some rq) \<or> IsMigratingScalingResyncNeeded (Some rq) \<or> synced q base rq)"

lemma default_quotas_scaling_on: "scaling_on rq \<Longrightarrow> default_quotas [rq] = [rq]"
  by (simp add: default_quotas_def scaling_on_def)

lemma migration_write:
  assumes "scaling_on rq"
  shows "rq_after (issued (OnVmimChanged (e\<lparr>me_quota := view q rq\<rparr>) (Some m))) rq = rq \<or>
    (\<exists>v. mig_write (view q rq) v rq (rq_after (issued (OnVmimChanged (e\<lparr>me_quota := view q rq\<rparr>) (Some m))) rq))"
proof (cases "mig_vmiCache_Get e (vmim_Namespace m) (vmim_VMIName m)")
  case (Inl err)
  then have "issued (OnVmimChanged (e\<lparr>me_quota := view q rq\<rparr>) (Some m)) = []"
    by (simp add: OnVmimChanged_def issued_def)
  then show ?thesis by simp
next
  case (Inr v)
  then have "mig_vmiCache_Get (e\<lparr>me_quota := view q rq\<rparr>) (vmim_Namespace m) (vmim_VMIName m) = Inr v" by simp
  note pol = emits_issued_all [OF emits_OnVmimChanged [OF this]]
  from rq_after_cases [of "issued (OnVmimChanged (e\<lparr>me_quota := view q rq\<rparr>) (Some m))" rq] show ?thesis
  proof
    assume "RQUpdate (rq_after (issued (OnVmimChanged (e\<lparr>me_quota := view q rq\<rparr>) (Some m))) rq) \<in>
      set (issued (OnVmimChanged (e\<lparr>me_quota := view q rq\<rparr>) (Some m)))"
    from pol [OF this] show ?thesis using default_quotas_scaling_on [OF assms] by (auto simp: mig_policy_def)
  qed blast
qed

lemma quota_step_inv:
  assumes "codec_ok q" and "quota_order_ok q" and "quota_step q rq rq'" and "quota_inv q base rq"
  shows "quota_inv q base rq'"
  using assms(3)
proof (cases rule: quota_step.cases)
  case (migration_step e m)
  from assms(4) have on: "scaling_on rq" by (simp add: quota_inv_def)
  from migration_write [OF on, of q e m] migration_step assms(4) show ?thesis
  proof (elim disjE exE)
    fix v assume "mig_write (view q rq) v rq (rq_after (issued (OnVmimChanged (e\<lparr>me_quota := view q rq\<rparr>) (Some m))) rq)"
    with migration_step have "mig_write (view q rq) v rq rq'" by simp
    from mig_write_effect [OF _ _ this] assms(1,4) annotations_onlyD [of rq rq']
    show ?thesis by (auto simp: quota_inv_def)
  qed simp
next
  case (sync_step e)
  let ?e = "e\<lparr>me_quota := view q rq\<rparr>"
  have pre: "scaling_on rq" "quota_base (me_quota ?e) (rq_Namespace rq) base" "wf_quota (me_quota ?e) rq" "quota_order_ok (me_quota ?e)"
    using assms(2,4) by (simp_all add: quota_inv_def)
  note spec = sync_quota_spec [OF pre] and same = same_marksD [OF sync_quota_spec(1) [OF pre]]
  have "isEmpty (Some rq') \<or> synced q base rq'"
    using spec(3,4) sync_step by (cases "isEmpty (Some rq)") (simp_all add: isEmpty_def)
  then show ?thesis using sync_step pre same(5) [of q] same(6,7) by (auto simp: quota_inv_def)
next
  case (usage_step used)
  have "same_marks rq rq'" using usage_step by (simp add: same_marks_def)
  from same_marksD [OF this] usage_step assms(4) show ?thesis
    by (simp add: quota_inv_def synced_def isEmpty_def IsMigratingScalingResyncNeeded_def)
qed

lemma quota_steps_inv:
  assumes "(quota_step q)\<^sup>*\<^sup>* rq rq'" and "codec_ok q" and "quota_order_ok q" and "quota_inv q base rq"
  shows "quota_inv q base rq'"
  using assms(1) by (induction rule: rtranclp_induct) (use assms quota_step_inv in blast)+

section \<open>Properties\<close>

text \<open>
  C22. Whatever the order in which migrations start, are compensated, finish and are recounted, the
  annotations of a managed quota stay well formed, and its limits are the base limits plus the
  resources of the VMs that are migrating (plus the compensation, for memory), unless the resync
  flag is up or the quota has no limits at all.
\<close>

theorem quota_limits_follow_migrations:
  assumes "codec_ok q" and "quota_order_ok q" and "scaling_on rq" and "wf_quota q rq"
    and "quota_base q (rq_Namespace rq) base" and "synced q base rq" and "(quota_step q)\<^sup>*\<^sup>* rq rq'"
  shows "wf_quota q rq' \<and> (isEmpty (Some rq') \<or> IsMigratingScalingResyncNeeded (Some rq') \<or> synced q base rq')"
  using quota_steps_inv [OF assms(7,1,2), of base] assms(3-6) by (simp add: quota_inv_def)

text \<open>
  C24. One run of the quota controller brings a quota with limits to its specification: the CPU and
  memory limits are as specified, every other limit and every mark is untouched, and the resync
  flag is down.
\<close>

theorem quota_controller_syncs:
  assumes "scaling_on rq" and "quota_base (me_quota e) (rq_Namespace rq) base" and "wf_quota (me_quota e) rq"
    and "quota_order_ok (me_quota e)" and "\<not> isEmpty (Some rq)"
  shows "synced (me_quota e) base (rq_after (issued (OnResourceQuotaChanged e (Some rq))) rq) \<and>
    same_marks rq (rq_after (issued (OnResourceQuotaChanged e (Some rq))) rq) \<and>
    \<not> IsMigratingScalingResyncNeeded (Some (rq_after (issued (OnResourceQuotaChanged e (Some rq))) rq)) \<and>
    (\<forall>r. r \<noteq> ResourceLimitsCPU \<and> r \<noteq> ResourceLimitsMemory \<longrightarrow>
       rl_index (rq_Hard (rq_after (issued (OnResourceQuotaChanged e (Some rq))) rq)) r = rl_index (rq_Hard rq) r)"
  using sync_quota_spec [OF assms(1-4)] assms(5) unfolding sync_quota_def by simp

text \<open>
  C25. The quota controller does not chase its own writes: run again on what it has written, it
  sends nothing.
\<close>

theorem quota_controller_settles:
  assumes "scaling_on rq" and "quota_base (me_quota e) (rq_Namespace rq) base" and "wf_quota (me_quota e) rq"
    and "quota_order_ok (me_quota e)"
  shows "issued (OnResourceQuotaChanged e (Some (rq_after (issued (OnResourceQuotaChanged e (Some rq))) rq))) = []"
  using sync_quota_settles [OF assms] unfolding sync_quota_def .

section \<open>Round trip of a migration\<close>












lemma view_managed [simp]:
  "IsResourceQuotaManagedByNamespaceAnnotation (view q rq) x s = IsResourceQuotaManagedByNamespaceAnnotation q x s"
  unfolding IsResourceQuotaManagedByNamespaceAnnotation_def view_simps view_limits ..





lemma total_unmark:
  assumes "migrating_marks rq u = Some s" and "rl_Unmarshal q s = Inr rl"
  shows "mig_total q res (unmark_migrating n u rq) = mig_total q res rq - rl_name rl res"
  using migrating.mark_sum_unmark [of rq "\<lambda>s. rl_name (decoded q s) res" "\<lambda>_. n" u] assms
  by (simp add: mig_total_def decoded_def)







section \<open>Examples\<close>

definition digit_marshal :: "resource_list \<Rightarrow> string result" where
  "digit_marshal rl =
     (case rl of
        Some [(k, n)] \<Rightarrow> if k = ResourceLimitsCPU \<and> 0 \<le> n \<and> n \<le> 9 then Inr [char_of (48 + n)] else Inl (ErrorString [])
      | _ \<Rightarrow> Inl (ErrorString []))"

definition idle_rq :: resource_quota where
  "idle_rq = example_rq\<lparr>rq_Annotations := None\<rparr>"

definition codec_env :: quota_env where
  "codec_env = (example_quota_env idle_rq)\<lparr>rl_Marshal := digit_marshal\<rparr>"

definition codec_mig_env :: mig_env where
  "codec_mig_env = \<lparr>me_quota = codec_env, rqs_Update = \<lambda>h u. Inr u, restClient_Put = \<lambda>h v. Inr (),
     mig_vms_Update = \<lambda>h v. Inr v, mig_pods_Delete = \<lambda>h ns n. Inr (), mig_vmiCache_Get = \<lambda>ns n. Inl (ErrorString []),
     mig_vmCache_Get = \<lambda>ns n. Inl (ErrorString []), mig_podCache_List = \<lambda>ns u. Inr [], nowRFC3339 = \<lambda>h. []\<rparr>"


lemma codec_env_ok: "codec_ok codec_env"
proof -
  have "s \<noteq> [] \<and> rl_Unmarshal codec_env s = Inr rl" if "digit_marshal rl = Inr s" for rl s
  proof -
    from that obtain n where "rl = Some [(ResourceLimitsCPU, n)]" "0 \<le> n" "n \<le> 9" "s = [char_of (48 + n)]"
      by (auto simp: digit_marshal_def split: option.splits list.splits if_splits)
    then show ?thesis by (simp add: codec_env_def example_quota_env_def digit_value_def)
  qed
  then show ?thesis by (simp add: codec_ok_def codec_env_def)
qed

lemma codec_order_ok: "quota_order_ok codec_env"
  by (simp add: quota_order_ok_def codec_env_def example_quota_env_def)

lemma codec_base: "quota_base codec_env ''ns'' (8, 4)"
proof -
  have "nsCache_Get codec_env ''ns'' = Inr (Some [(CattleAnnotationResourceQuota, ''x'')])"
    "sval (Some [(CattleAnnotationResourceQuota, ''x'')]) CattleAnnotationResourceQuota \<noteq> []"
    "nrq_Unmarshal codec_env (sval (Some [(CattleAnnotationResourceQuota, ''x'')]) CattleAnnotationResourceQuota) = Inr (Some example_limit)"
    "GetCPUMemoryLimitsFromRancherNamespaceResourceQuota codec_env (Some example_limit) = Inr (8, 4)"
    by code_simp+
  then show ?thesis unfolding quota_base_def by blast
qed

lemma idle_quota: "scaling_on idle_rq" "wf_quota codec_env idle_rq" "rq_Namespace idle_rq = ''ns''"
  "mig_total codec_env res idle_rq = 0" "comp_total codec_env idle_rq = 0" "synced codec_env (8, 4) idle_rq"
proof -
  show "scaling_on idle_rq" by code_simp
  show "wf_quota codec_env idle_rq" by (rule wf_quotaI) (simp_all add: idle_rq_def sget_def)
  show "rq_Namespace idle_rq = ''ns''" by code_simp
  have "migrating_marks idle_rq = (\<lambda>_. None)" by (simp add: fun_eq_iff migrating_marks_def idle_rq_def sget_def)
  then show total: "mig_total codec_env res idle_rq = 0" for res by (simp add: mig_total_def migrating.mark_sum_def)
  show comp: "comp_total codec_env idle_rq = 0" by code_simp
  have "rl_name (rq_Hard idle_rq) ResourceLimitsCPU = 8" "rl_name (rq_Hard idle_rq) ResourceLimitsMemory = 4" by code_simp+
  with total comp show "synced codec_env (8, 4) idle_rq" by (simp add: synced_def)
qed

theorem quota_limits_follow_migrations_witness:
  "wf_quota codec_env (idle_rq\<lparr>rq_Used := None\<rparr>)"
proof -
  have "(quota_step codec_env)\<^sup>*\<^sup>* idle_rq (idle_rq\<lparr>rq_Used := None\<rparr>)" by (intro r_into_rtranclp usage_step)
  from quota_limits_follow_migrations [OF codec_env_ok codec_order_ok idle_quota(1,2) _ idle_quota(6) this]
  show ?thesis using codec_base idle_quota(3) by simp
qed

theorem quota_controller_syncs_witness:
  "synced codec_env (8, 4) (rq_after (issued (OnResourceQuotaChanged codec_mig_env (Some idle_rq))) idle_rq)"
proof -
  have q: "me_quota codec_mig_env = codec_env" by (simp add: codec_mig_env_def)
  have "\<not> isEmpty (Some idle_rq)" by code_simp
  with quota_controller_syncs [of idle_rq codec_mig_env "(8, 4)"] show ?thesis
    unfolding q using idle_quota codec_base codec_order_ok by simp
qed

theorem quota_controller_settles_witness:
  "issued (OnResourceQuotaChanged codec_mig_env (Some (rq_after (issued (OnResourceQuotaChanged codec_mig_env (Some idle_rq))) idle_rq))) = []"
proof -
  have q: "me_quota codec_mig_env = codec_env" by (simp add: codec_mig_env_def)
  from quota_controller_settles [of idle_rq codec_mig_env "(8, 4)"] show ?thesis
    unfolding q using idle_quota codec_base codec_order_ok by simp
qed


end
