(* ===== verification/Conditions.thy ===== *)
theory Conditions
  imports Harvester_Prelude
begin

text \<open>
  Conditions in the status of Harvester's own objects: the struct \<^verbatim>\<open>Condition\<close> of
  \<^verbatim>\<open>pkg/apis/harvesterhci.io/v1beta1/image.go\<close> and the accessors of wrangler's
  \<^verbatim>\<open>condition.Cond\<close>, which find the first condition of a type or append a new one. Changing the
  status or the message of a condition stamps it with the current time, given here as the
  formatted string \<open>now\<close>; setting the reason or the stamp itself does not.
\<close>

record condition =
  cd_Type :: string
  cd_Status :: string
  cd_LastUpdateTime :: string
  cd_LastTransitionTime :: string
  cd_Reason :: string
  cd_Message :: string

definition findCond :: "string \<Rightarrow> condition list \<Rightarrow> condition option" where
  "findCond name cs = find (\<lambda>c. cd_Type c = name) cs"

definition new_condition :: "string \<Rightarrow> condition" where
  "new_condition name = \<lparr>cd_Type = name, cd_Status = ''Unknown'', cd_LastUpdateTime = [], cd_LastTransitionTime = [],
     cd_Reason = [], cd_Message = []\<rparr>"

text \<open>\<^verbatim>\<open>findOrCreateCond\<close> followed by a write through the reference it returns.\<close>

fun write_cond :: "string \<Rightarrow> (condition \<Rightarrow> condition) \<Rightarrow> condition list \<Rightarrow> condition list" where
  "write_cond name f [] = [f (new_condition name)]"
| "write_cond name f (c # cs) = (if cd_Type c = name then f c # cs else c # write_cond name f cs)"

definition getStatus :: "string \<Rightarrow> condition list \<Rightarrow> string" where
  "getStatus name cs = (case findCond name cs of None \<Rightarrow> [] | Some c \<Rightarrow> cd_Status c)"

definition setStatus :: "string \<Rightarrow> string \<Rightarrow> string \<Rightarrow> condition list \<Rightarrow> condition list" where
  "setStatus now name status =
     write_cond name (\<lambda>c. if cd_Status c \<noteq> status then c\<lparr>cd_Status := status, cd_LastUpdateTime := now\<rparr> else c)"

definition cond_True :: "string \<Rightarrow> string \<Rightarrow> condition list \<Rightarrow> condition list" where
  "cond_True now name = setStatus now name ''True''"

definition cond_False :: "string \<Rightarrow> string \<Rightarrow> condition list \<Rightarrow> condition list" where
  "cond_False now name = setStatus now name ''False''"

definition cond_Unknown :: "string \<Rightarrow> string \<Rightarrow> condition list \<Rightarrow> condition list" where
  "cond_Unknown now name = setStatus now name ''Unknown''"

definition cond_IsTrue :: "string \<Rightarrow> condition list \<Rightarrow> bool" where
  "cond_IsTrue name cs \<longleftrightarrow> getStatus name cs = ''True''"

definition cond_IsFalse :: "string \<Rightarrow> condition list \<Rightarrow> bool" where
  "cond_IsFalse name cs \<longleftrightarrow> getStatus name cs = ''False''"

definition cond_IsUnknown :: "string \<Rightarrow> condition list \<Rightarrow> bool" where
  "cond_IsUnknown name cs \<longleftrightarrow> getStatus name cs = ''Unknown''"

definition cond_Reason :: "string \<Rightarrow> string \<Rightarrow> condition list \<Rightarrow> condition list" where
  "cond_Reason name reason = write_cond name (\<lambda>c. c\<lparr>cd_Reason := reason\<rparr>)"

definition cond_Message :: "string \<Rightarrow> string \<Rightarrow> string \<Rightarrow> condition list \<Rightarrow> condition list" where
  "cond_Message now name message =
     write_cond name (\<lambda>c. if cd_Message c \<noteq> message then c\<lparr>cd_Message := message, cd_LastUpdateTime := now\<rparr> else c)"

definition cond_LastUpdated :: "string \<Rightarrow> string \<Rightarrow> condition list \<Rightarrow> condition list" where
  "cond_LastUpdated name ts = write_cond name (\<lambda>c. c\<lparr>cd_LastUpdateTime := ts\<rparr>)"

definition cond_GetLastUpdated :: "string \<Rightarrow> condition list \<Rightarrow> string" where
  "cond_GetLastUpdated name cs = (case findCond name cs of None \<Rightarrow> [] | Some c \<Rightarrow> cd_LastUpdateTime c)"

definition cond_GetReason :: "string \<Rightarrow> condition list \<Rightarrow> string" where
  "cond_GetReason name cs = (case findCond name cs of None \<Rightarrow> [] | Some c \<Rightarrow> cd_Reason c)"

definition cond_GetMessage :: "string \<Rightarrow> condition list \<Rightarrow> string" where
  "cond_GetMessage name cs = (case findCond name cs of None \<Rightarrow> [] | Some c \<Rightarrow> cd_Message c)"

text \<open>\<^verbatim>\<open>SetError\<close> for an error that is not nil and not \<^verbatim>\<open>generic.ErrSkip\<close>.\<close>

definition cond_SetError :: "string \<Rightarrow> string \<Rightarrow> string \<Rightarrow> go_error \<Rightarrow> condition list \<Rightarrow> condition list" where
  "cond_SetError now name reason err cs =
     cond_Reason name (if reason = [] then ''Error'' else reason)
       (cond_Message now name (err_text err) (cond_False now name cs))"

section \<open>Lookup after write\<close>

named_theorems cond_simps \<open>lookups after writes of conditions\<close>

lemma findCond_write:
  assumes "\<And>c. cd_Type (f c) = cd_Type c"
  shows "findCond n (write_cond n' f cs) =
    (if n = n' then Some (f (case findCond n cs of None \<Rightarrow> new_condition n | Some c \<Rightarrow> c)) else findCond n cs)"
  by (induction cs) (auto simp: findCond_def new_condition_def assms)

lemma getStatus_set [cond_simps]: "getStatus n (setStatus now n' s cs) = (if n = n' then s else getStatus n cs)"
  by (auto simp: getStatus_def setStatus_def findCond_write split: option.splits)

lemma IsTrue_True [cond_simps]: "cond_IsTrue n (cond_True now n' cs) \<longleftrightarrow> n = n' \<or> cond_IsTrue n cs"
  by (auto simp: cond_IsTrue_def cond_True_def getStatus_set)

lemma IsTrue_False [cond_simps]: "cond_IsTrue n (cond_False now n' cs) \<longleftrightarrow> n \<noteq> n' \<and> cond_IsTrue n cs"
  by (auto simp: cond_IsTrue_def cond_False_def getStatus_set)

lemma IsTrue_Unknown [cond_simps]: "cond_IsTrue n (cond_Unknown now n' cs) \<longleftrightarrow> n \<noteq> n' \<and> cond_IsTrue n cs"
  by (auto simp: cond_IsTrue_def cond_Unknown_def getStatus_set)

lemma IsTrue_keep:
  assumes "\<And>c. cd_Type (f c) = cd_Type c" and "\<And>c. cd_Status (f c) = cd_Status c"
  shows "cond_IsTrue n (write_cond n' f cs) \<longleftrightarrow> cond_IsTrue n cs"
  by (auto simp: cond_IsTrue_def getStatus_def findCond_write assms new_condition_def split: option.splits)

lemma IsTrue_other [cond_simps]:
  "cond_IsTrue n (cond_Reason n' r cs) \<longleftrightarrow> cond_IsTrue n cs"
  "cond_IsTrue n (cond_Message now n' m cs) \<longleftrightarrow> cond_IsTrue n cs"
  "cond_IsTrue n (cond_LastUpdated n' ts cs) \<longleftrightarrow> cond_IsTrue n cs"
  by (simp_all add: cond_Reason_def cond_Message_def cond_LastUpdated_def IsTrue_keep)

lemma IsTrue_SetError [cond_simps]: "cond_IsTrue n (cond_SetError now n' r err cs) \<longleftrightarrow> n \<noteq> n' \<and> cond_IsTrue n cs"
  by (simp add: cond_SetError_def cond_simps)

text \<open>The status as such, of which the three tests are readings.\<close>

lemma status_keep:
  assumes "\<And>c. cd_Type (f c) = cd_Type c" and "\<And>c. cd_Status (f c) = cd_Status c" and "findCond n' cs \<noteq> None"
  shows "getStatus n (write_cond n' f cs) = getStatus n cs"
  using assms by (auto simp: getStatus_def findCond_write)

lemma findCond_set_not_None [simp]: "findCond n (setStatus now n s cs) \<noteq> None"
  by (simp add: setStatus_def findCond_write)

text \<open>Stamps: a write to another condition leaves them, a status write leaves or renews them.\<close>

lemma stamp_write:
  assumes "\<And>c. cd_Type (f c) = cd_Type c"
  shows "cond_GetLastUpdated n (write_cond n' f cs) =
    (if n = n' then cd_LastUpdateTime (f (case findCond n cs of None \<Rightarrow> new_condition n | Some c \<Rightarrow> c)) else cond_GetLastUpdated n cs)"
  by (simp add: cond_GetLastUpdated_def findCond_write assms)

lemma stamp_LastUpdated [cond_simps]:
  "cond_GetLastUpdated n (cond_LastUpdated n' ts cs) = (if n = n' then ts else cond_GetLastUpdated n cs)"
  by (simp add: cond_LastUpdated_def stamp_write)

lemma stamp_other [cond_simps]:
  "n \<noteq> n' \<Longrightarrow> cond_GetLastUpdated n (cond_True now n' cs) = cond_GetLastUpdated n cs"
  "n \<noteq> n' \<Longrightarrow> cond_GetLastUpdated n (cond_False now n' cs) = cond_GetLastUpdated n cs"
  "n \<noteq> n' \<Longrightarrow> cond_GetLastUpdated n (cond_Reason n' r cs) = cond_GetLastUpdated n cs"
  "n \<noteq> n' \<Longrightarrow> cond_GetLastUpdated n (cond_Message now n' m cs) = cond_GetLastUpdated n cs"
  by (simp_all add: cond_True_def cond_False_def cond_Reason_def cond_Message_def setStatus_def stamp_write)

lemma stamp_True_same:
  "cond_GetLastUpdated n (cond_True now n (cond_LastUpdated n now cs)) = now"
  by (simp add: cond_True_def setStatus_def cond_LastUpdated_def stamp_write findCond_write)

end
