(* ===== verification/Go_Base64.thy ===== *)
theory Go_Base64
  imports Harvester_Prelude
begin

text \<open>
  The standard encoding of Go's \<^verbatim>\<open>encoding/base64\<close>, as the addon controller uses it to read the
  default values of a chart from an annotation: \<^verbatim>\<open>base64.StdEncoding.DecodeString\<close> skips line
  breaks, insists on the padding and reports the offset of the first corrupt byte. The encoder is
  there to state that decoding inverts it.
\<close>

definition b64_alphabet :: string where
  "b64_alphabet = ''ABCDEFGHIJKLMNOPQRSTUVWXYZabcdefghijklmnopqrstuvwxyz0123456789+/''"

definition b64_value :: "char \<Rightarrow> nat option" where
  "b64_value c = map_of (zip b64_alphabet [0..<64]) c"

definition is_newline :: "char \<Rightarrow> bool" where
  "is_newline c \<longleftrightarrow> c = CHR 0x0A \<or> c = CHR 0x0D"

definition CorruptInputError :: "nat \<Rightarrow> go_error" where
  "CorruptInputError n = TypedError ''base64.CorruptInputError'' (''illegal base64 data at input byte '' @ nat_digits n)"

text \<open>The bytes of a quantum of \<open>dlen\<close> six-bit digits, missing digits being zero.\<close>

definition quantum_bytes :: "nat list \<Rightarrow> string" where
  "quantum_bytes d =
     (let val = (d @ replicate (4 - length d) 0);
          n = val ! 0 * 2 ^ 18 + val ! 1 * 2 ^ 12 + val ! 2 * 2 ^ 6 + val ! 3
      in take (length d - 1) [char_of (n div 2 ^ 16), char_of (n div 2 ^ 8), char_of n])"

definition finish_padded :: "nat \<Rightarrow> string \<Rightarrow> nat list \<Rightarrow> string result" where
  "finish_padded si cs dbuf =
     (let rest = dropWhile is_newline cs
      in if rest \<noteq> [] then Inl (CorruptInputError (si + length (takeWhile is_newline cs)))
         else Inr (quantum_bytes dbuf))"

fun decode_from :: "nat \<Rightarrow> string \<Rightarrow> nat list \<Rightarrow> string result" where
  "decode_from si [] dbuf = (if dbuf = [] then Inr [] else Inl (CorruptInputError (si - length dbuf)))"
| "decode_from si (c # cs) dbuf =
     (case b64_value c of
        Some v \<Rightarrow>
          if length dbuf = 3
          then (case decode_from (Suc si) cs [] of
                  Inl err \<Rightarrow> Inl err
                | Inr rest \<Rightarrow> Inr (quantum_bytes (dbuf @ [v]) @ rest))
          else decode_from (Suc si) cs (dbuf @ [v])
      | None \<Rightarrow>
          if is_newline c then decode_from (Suc si) cs dbuf
          else if c \<noteq> CHR ''='' \<or> length dbuf < 2 then Inl (CorruptInputError si)
          else if length dbuf = 2
          then (let si' = Suc si + length (takeWhile is_newline cs)
                in case dropWhile is_newline cs of
                     [] \<Rightarrow> Inl (CorruptInputError si')
                   | c' # cs' \<Rightarrow>
                       if c' \<noteq> CHR ''='' then Inl (CorruptInputError (si' - 1))
                       else finish_padded (Suc si') cs' dbuf)
          else finish_padded (Suc si) cs dbuf)"

definition DecodeString :: "string \<Rightarrow> string result" where
  "DecodeString s = decode_from 0 s []"

fun EncodeToString :: "string \<Rightarrow> string" where
  "EncodeToString [] = []"
| "EncodeToString [x] =
     (let a = of_char x :: nat
      in [b64_alphabet ! (a div 4), b64_alphabet ! (a mod 4 * 16), CHR ''='', CHR ''=''])"
| "EncodeToString [x, y] =
     (let a = of_char x; b = of_char y :: nat
      in [b64_alphabet ! (a div 4), b64_alphabet ! (a mod 4 * 16 + b div 16), b64_alphabet ! (b mod 16 * 4), CHR ''=''])"
| "EncodeToString (x # y # z # rest) =
     (let a = of_char x; b = of_char y; c = of_char z :: nat
      in [b64_alphabet ! (a div 4), b64_alphabet ! (a mod 4 * 16 + b div 16),
          b64_alphabet ! (b mod 16 * 4 + c div 64), b64_alphabet ! (c mod 64)] @ EncodeToString rest)"

lemma b64_value_alphabet:
  assumes "n < 64"
  shows "b64_value (b64_alphabet ! n) = Some n"
proof -
  have "list_all (\<lambda>n. b64_value (b64_alphabet ! n) = Some n) [0..<64]" by code_simp
  with assms show ?thesis by (auto simp: list_all_iff)
qed

lemma b64_value_pad [simp]: "b64_value (CHR ''='') = None"
  by code_simp

lemma pad_not_newline [simp]: "\<not> is_newline (CHR ''='')"
  by (simp add: is_newline_def)

lemma of_char_lt: "(of_char c :: nat) < 256"
  using of_char_mod_256 [of c] mod_less_divisor [of 256 "of_char c :: nat"] by simp

lemma digit_bounds:
  "(of_char x :: nat) div 4 < 64" "(of_char x :: nat) mod 4 * 16 < 64" "(of_char x :: nat) mod 16 * 4 < 64"
  "(of_char x :: nat) mod 64 < 64"
  "(of_char x :: nat) mod 4 * 16 + of_char y div 16 < 64" "(of_char x :: nat) mod 16 * 4 + of_char y div 64 < 64"
  using of_char_lt [of x] of_char_lt [of y] by linarith+

lemma char_of_add: "char_of (k * 256 + n) = (char_of n :: char)" for n :: nat
proof -
  have "char_of ((k * 256 + n) mod 256) = (char_of (n mod 256) :: char)" by simp
  then show ?thesis by (simp only: char_of_mod_256)
qed

lemma quantum_three:
  fixes a b c :: nat
  assumes "a < 256" "b < 256" "c < 256"
  shows "quantum_bytes [a div 4, a mod 4 * 16 + b div 16, b mod 16 * 4 + c div 64, c mod 64] =
    [char_of a, char_of b, char_of c]"
proof -
  have "x * 2 ^ 18 + (y * 16 + z) * 2 ^ 12 + (w * 4 + u) * 2 ^ 6 + v =
      ((x * 4 + y) * 256 + (z * 16 + w)) * 256 + (u * 64 + v)" for x y z w u v :: nat
    by (simp add: algebra_simps)
  from this [of "a div 4" "a mod 4" "b div 16" "b mod 16" "c div 64" "c mod 64"]
  have "a div 4 * 2 ^ 18 + (a mod 4 * 16 + b div 16) * 2 ^ 12 + (b mod 16 * 4 + c div 64) * 2 ^ 6 + c mod 64 =
      (a * 256 + b) * 256 + c"
    by (simp only: div_mult_mod_eq)
  moreover have "((a * 256 + b) * 256 + c) div 2 ^ 16 = a" "((a * 256 + b) * 256 + c) div 2 ^ 8 = a * 256 + b"
    using assms by (simp_all add: div_nat_eqI)
  ultimately have "quantum_bytes [a div 4, a mod 4 * 16 + b div 16, b mod 16 * 4 + c div 64, c mod 64] =
      [char_of a, char_of (a * 256 + b), char_of ((a * 256 + b) * 256 + c)]"
    by (simp only: quantum_bytes_def Let_def list.size take_Suc_Cons nth_Cons_0 nth_Cons_Suc numeral_3_eq_3 numeral_2_eq_2
        One_nat_def append_Nil append_Cons) simp
  then show ?thesis by (simp only: char_of_add)
qed

lemma quantum_two:
  fixes a b :: nat
  assumes "a < 256" "b < 256"
  shows "quantum_bytes [a div 4, a mod 4 * 16 + b div 16, b mod 16 * 4] = [char_of a, char_of b]"
  using quantum_three [OF assms, of 0] by (simp add: quantum_bytes_def numeral_3_eq_3 Let_def)

lemma quantum_one:
  fixes a :: nat
  assumes "a < 256"
  shows "quantum_bytes [a div 4, a mod 4 * 16] = [char_of a]"
  using quantum_two [OF assms, of 0] by (simp add: quantum_bytes_def numeral_3_eq_3 Let_def)

lemma decode_encode_from: "decode_from si (EncodeToString s) [] = Inr s"
proof (induction s arbitrary: si rule: EncodeToString.induct)
  case 1
  show ?case by simp
next
  case (2 x)
  show ?case
    by (simp add: Let_def b64_value_alphabet digit_bounds finish_padded_def quantum_one of_char_lt)
next
  case (3 x y)
  show ?case
    by (simp add: Let_def b64_value_alphabet digit_bounds finish_padded_def quantum_two of_char_lt)
next
  case (4 x y z rest)
  show ?case
    by (simp add: Let_def b64_value_alphabet digit_bounds quantum_three of_char_lt 4)
qed

lemma Decode_Encode [simp]: "DecodeString (EncodeToString s) = Inr s"
  by (simp add: DecodeString_def decode_encode_from)

end
