(* ===== verification/Go_Time.thy ===== *)
theory Go_Time
  imports Kube_Objects
begin

text \<open>
  Formatting and parsing of times as in Go's package \<^verbatim>\<open>time\<close>, for the two layouts the controllers
  use: \<^verbatim>\<open>time.RFC3339\<close> and \<^verbatim>\<open>20060102.1504\<close>. A time is a number of nanoseconds since 1970 in UTC;
  dates are those of the proleptic Gregorian calendar. Parsing what has been formatted gives the
  time back, up to the precision of the layout.
\<close>

section \<open>Calendar\<close>

definition nanos :: int where "nanos = 1000000000"

definition is_leap :: "int \<Rightarrow> bool" where
  "is_leap y \<longleftrightarrow> y mod 4 = 0 \<and> (y mod 100 \<noteq> 0 \<or> y mod 400 = 0)"

text \<open>Days from the first day of the year 0 to the first day of the year \<open>y\<close>.\<close>

definition days_before_year :: "int \<Rightarrow> int" where
  "days_before_year y = 365 * y + (y + 3) div 4 - (y + 99) div 100 + (y + 399) div 400"

definition year_of_day :: "int \<Rightarrow> int" where
  "year_of_day d =
     (let y = 400 * d div 146097
      in if d < days_before_year y then y - 1 else if days_before_year (y + 1) \<le> d then y + 1 else y)"

definition month_lengths :: "int \<Rightarrow> int list" where
  "month_lengths y = [31, if is_leap y then 29 else 28, 31, 30, 31, 30, 31, 31, 30, 31, 30, 31]"

text \<open>Month, counted from \<open>m\<close>, and day of the month, counted from 1, of a day of the year.\<close>

fun month_day :: "int list \<Rightarrow> int \<Rightarrow> int \<Rightarrow> int \<times> int" where
  "month_day [] m d = (m, d + 1)"
| "month_day (l # ls) m d = (if d < l then (m, d + 1) else month_day ls (m + 1) (d - l))"

definition days_before_month :: "int list \<Rightarrow> int \<Rightarrow> int" where
  "days_before_month ls m = sum_list (take (nat (m - 1)) ls)"

definition daysIn :: "int \<Rightarrow> int \<Rightarrow> int" where
  "daysIn m y = month_lengths y ! nat (m - 1)"

text \<open>\<^verbatim>\<open>time.Date\<close> in UTC and its inverse.\<close>

definition unix_day :: int where "unix_day = 719528"

definition time_Date :: "int \<Rightarrow> int \<Rightarrow> int \<Rightarrow> int \<Rightarrow> int \<Rightarrow> int \<Rightarrow> int \<Rightarrow> time" where
  "time_Date y m d hh mm ss ns =
     (((days_before_year y + days_before_month (month_lengths y) m + d - 1 - unix_day) * 86400 + hh * 3600 + mm * 60 + ss) * nanos) + ns"

record civil =
  c_year :: int
  c_month :: int
  c_day :: int
  c_hour :: int
  c_min :: int
  c_sec :: int

definition civil_of :: "time \<Rightarrow> civil" where
  "civil_of t =
     (let s = t div nanos; d = s div 86400 + unix_day; r = s mod 86400; y = year_of_day d;
          md = month_day (month_lengths y) 1 (d - days_before_year y)
      in \<lparr>c_year = y, c_month = fst md, c_day = snd md, c_hour = r div 3600, c_min = r mod 3600 div 60, c_sec = r mod 60\<rparr>)"

lemma ceil_step: "(y + 1 + j) div k = (y + j) div k + (if y mod k = 0 then 1 else 0)" if "0 < k" "j = k - 1" for j k y :: int
proof -
  have "y + j = (y mod k + j) + (y div k) * k" by simp
  then have "(y + j) div k = y div k + (y mod k + j) div k"
    using that div_mult_self1 [of k "y mod k + j" "y div k"] by (metis less_irrefl)
  moreover have "(y mod k + j) div k = (if y mod k = 0 then 0 else 1)"
  proof (cases "y mod k = 0")
    case False
    then have "0 < y mod k" "y mod k < k" using that by (simp_all add: order_le_neq_trans)
    then have "(y mod k + j) div k = 1 + (y mod k - 1) div k" using that div_add_self2 [of k "y mod k - 1"] by (simp add: that(2) algebra_simps)
    with False \<open>0 < y mod k\<close> \<open>y mod k < k\<close> show ?thesis by simp
  qed (use that in simp)
  moreover have "y + 1 + j = y + k" using that(2) by simp
  ultimately show ?thesis using that div_add_self2 [of k y] by simp
qed

lemma year_step: "days_before_year (y + 1) = days_before_year y + (if is_leap y then 366 else 365)"
proof -
  define A B C P Q R where defs: "A = (y + 3) div 4" "B = (y + 99) div 100" "C = (y + 399) div 400"
    "P = (y mod 4 = 0)" "Q = (y mod 100 = 0)" "R = (y mod 400 = 0)"
  have PQR: "R \<Longrightarrow> Q" "Q \<Longrightarrow> P"
    using dvd_trans [of 100 400 y] dvd_trans [of 4 100 y] unfolding defs by (simp_all add: mod_eq_0_iff_dvd)
  have steps: "(y + 1 + 3) div 4 = A + (if P then 1 else 0)" "(y + 1 + 99) div 100 = B + (if Q then 1 else 0)"
    "(y + 1 + 399) div 400 = C + (if R then 1 else 0)"
    unfolding defs by (rule ceil_step; simp)+
  have next_year: "days_before_year (y + 1) = 365 * (y + 1) + (A + (if P then 1 else 0)) - (B + (if Q then 1 else 0)) + (C + (if R then 1 else 0))"
    unfolding days_before_year_def steps by (rule refl)
  have this_year: "days_before_year y = 365 * y + A - B + C" unfolding days_before_year_def defs by (rule refl)
  have leap: "is_leap y \<longleftrightarrow> P \<and> (\<not> Q \<or> R)" unfolding defs is_leap_def by (rule refl)
  show ?thesis using PQR unfolding next_year this_year leap by (cases P; cases Q; cases R) simp_all
qed

lemma year_bounds: "146097 * y - 500 \<le> 400 * days_before_year y" "400 * days_before_year y \<le> 146097 * y + 704"
proof -
  have bounds: "146097 * y - 500 \<le> 400 * (365 * y + A - B + C) \<and> 400 * (365 * y + A - B + C) \<le> 146097 * y + 704"
    if "4 * A + a = y + 3" "100 * B + b = y + 99" "400 * C + c = y + 399" "0 \<le> a" "a < 4" "0 \<le> b" "b < 100" "0 \<le> c" "c < 400" for A B C a b c :: int
  proof -
    have "400 * (365 * y + A - B + C) = 146097 * y + 303 - 100 * a + 4 * b - c" using that(1-3) by algebra
    with that(4-9) show ?thesis by linarith
  qed
  show "146097 * y - 500 \<le> 400 * days_before_year y" "400 * days_before_year y \<le> 146097 * y + 704"
    using bounds [OF mult_div_mod_eq mult_div_mod_eq mult_div_mod_eq] by (simp_all add: days_before_year_def)
qed

lemma year_of_day: "days_before_year (year_of_day d) \<le> d" "d < days_before_year (year_of_day d + 1)"
proof -
  define y where "y = 400 * d div 146097"
  have "146097 * y \<le> 400 * d" "400 * d < 146097 * y + 146097"
    unfolding y_def using minus_mod_eq_mult_div [of "400 * d" 146097] pos_mod_bound [of 146097 "400 * d"] pos_mod_sign [of 146097 "400 * d"]
    by linarith+
  then have "days_before_year (y - 1) \<le> d" "d < days_before_year (y + 1 + 1)"
    using year_bounds [of "y - 1", unfolded right_diff_distrib] year_bounds [of "y + 1 + 1", unfolded distrib_left] by linarith+
  then show "days_before_year (year_of_day d) \<le> d" "d < days_before_year (year_of_day d + 1)"
    unfolding year_of_day_def y_def [symmetric] by (auto simp: Let_def)
qed

lemma sum_month_lengths: "sum_list (month_lengths y) = (if is_leap y then 366 else 365)"
  by (simp add: month_lengths_def)

lemma length_month_lengths [simp]: "length (month_lengths y) = 12"
  by (simp add: month_lengths_def)

lemma month_lengths_pos: "l \<in> set (month_lengths y) \<Longrightarrow> 28 \<le> l \<and> l \<le> 31"
  by (auto simp: month_lengths_def split: if_splits)

lemma month_day_spec:
  assumes "0 \<le> d" and "d < sum_list ls" and "month_day ls m d = (m', d')"
  shows "m \<le> m' \<and> nat (m' - m) < length ls \<and> sum_list (take (nat (m' - m)) ls) + d' - 1 = d \<and> 1 \<le> d' \<and> d' \<le> ls ! nat (m' - m)"
  using assms
proof (induction ls arbitrary: m d)
  case (Cons l ls)
  show ?case
  proof (cases "d < l")
    case False
    with Cons have IH: "m + 1 \<le> m'" "nat (m' - (m + 1)) < length ls" "sum_list (take (nat (m' - (m + 1))) ls) + d' - 1 = d - l" "1 \<le> d'"
      "d' \<le> ls ! nat (m' - (m + 1))"
      using Cons.IH [of "d - l" "m + 1"] by simp_all
    then have "nat (m' - m) = Suc (nat (m' - (m + 1)))" by linarith
    with IH show ?thesis by simp
  qed (use Cons.prems in auto)
qed simp

lemma civil_fields:
  fixes t :: time
  defines "c \<equiv> civil_of t"
  shows "1 \<le> c_month c" "c_month c \<le> 12" "1 \<le> c_day c" "c_day c \<le> daysIn (c_month c) (c_year c)" "c_day c \<le> 31"
    "0 \<le> c_hour c" "c_hour c < 24" "0 \<le> c_min c" "c_min c < 60" "0 \<le> c_sec c" "c_sec c < 60"
    "time_Date (c_year c) (c_month c) (c_day c) (c_hour c) (c_min c) (c_sec c) 0 = t - t mod nanos"
proof -
  define s where "s = t div nanos"
  define d where "d = s div 86400 + unix_day"
  define r where "r = s mod 86400"
  define y where "y = year_of_day d"
  define m where "m = fst (month_day (month_lengths y) 1 (d - days_before_year y))"
  define dd where "dd = snd (month_day (month_lengths y) 1 (d - days_before_year y))"
  have c: "c = \<lparr>c_year = y, c_month = m, c_day = dd, c_hour = r div 3600, c_min = r mod 3600 div 60, c_sec = r mod 60\<rparr>"
    by (simp add: c_def civil_of_def s_def d_def r_def y_def m_def dd_def Let_def)
  have "0 \<le> d - days_before_year y" "d - days_before_year y < sum_list (month_lengths y)"
    using year_of_day [of d] by (auto simp: y_def year_step sum_month_lengths)
  moreover have "month_day (month_lengths y) 1 (d - days_before_year y) = (m, dd)" by (simp add: m_def dd_def)
  ultimately have md: "1 \<le> m" "nat (m - 1) < 12" "days_before_month (month_lengths y) m + dd - 1 = d - days_before_year y" "1 \<le> dd" "dd \<le> daysIn m y"
    unfolding days_before_month_def daysIn_def using month_day_spec [of "d - days_before_year y" "month_lengths y" 1 m dd] by simp_all
  have "daysIn m y \<le> 31" using md(2) month_lengths_pos [of "daysIn m y" y] unfolding daysIn_def by simp
  with c md show "1 \<le> c_month c" "c_month c \<le> 12" "1 \<le> c_day c" "c_day c \<le> daysIn (c_month c) (c_year c)" "c_day c \<le> 31" by simp_all
  have r: "0 \<le> r" "r \<le> 86399" by (simp_all add: r_def)
  have "r div 3600 \<le> 86399 div 3600" using r by (intro zdiv_mono1) simp_all
  moreover have "r mod 3600 div 60 \<le> 3599 div 60" by (intro zdiv_mono1) simp_all
  ultimately show "0 \<le> c_hour c" "c_hour c < 24" "0 \<le> c_min c" "c_min c < 60" "0 \<le> c_sec c" "c_sec c < 60"
    using r(1) by (simp_all add: c pos_imp_zdiv_nonneg_iff)
  have "r mod 3600 mod 60 = r mod 60" by (simp add: mod_mod_cancel)
  then have "r div 3600 * 3600 + r mod 3600 div 60 * 60 + r mod 60 = r"
    using div_mult_mod_eq [of r 3600] div_mult_mod_eq [of "r mod 3600" 60] by linarith
  then have "(days_before_year y + days_before_month (month_lengths y) m + dd - 1 - unix_day) * 86400 + r div 3600 * 3600 +
      r mod 3600 div 60 * 60 + r mod 60 = (d - unix_day) * 86400 + r"
    using md(3) by (simp add: algebra_simps)
  then have "time_Date y m dd (r div 3600) (r mod 3600 div 60) (r mod 60) 0 = ((d - unix_day) * 86400 + r) * nanos"
    unfolding time_Date_def by simp
  also have "(d - unix_day) * 86400 + r = s" by (simp add: d_def r_def)
  also have "s * nanos = t - t mod nanos" by (simp add: s_def minus_mod_eq_div_mult)
  finally show "time_Date (c_year c) (c_month c) (c_day c) (c_hour c) (c_min c) (c_sec c) 0 = t - t mod nanos" by (simp add: c)
qed

section \<open>Formatting\<close>

text \<open>\<^verbatim>\<open>appendInt\<close>: decimal digits with at least \<open>w\<close> places.\<close>

definition append_int :: "int \<Rightarrow> nat \<Rightarrow> string" where
  "append_int x w =
     (let ds = nat_digits (nat \<bar>x\<bar>) in (if x < 0 then ''-'' else []) @ replicate (w - length ds) CHR ''0'' @ ds)"

definition Format_RFC3339 :: "time \<Rightarrow> string" where
  "Format_RFC3339 t =
     (let c = civil_of t
      in append_int (c_year c) 4 @ ''-'' @ append_int (c_month c) 2 @ ''-'' @ append_int (c_day c) 2 @ ''T'' @
         append_int (c_hour c) 2 @ '':'' @ append_int (c_min c) 2 @ '':'' @ append_int (c_sec c) 2 @ ''Z'')"

text \<open>The layout \<^verbatim>\<open>20060102.1504\<close> for a time whose location is \<open>offset\<close> nanoseconds ahead of UTC.\<close>

definition Format_minutes :: "int \<Rightarrow> time \<Rightarrow> string" where
  "Format_minutes offset t =
     (let c = civil_of (t + offset)
      in append_int (c_year c) 4 @ append_int (c_month c) 2 @ append_int (c_day c) 2 @ ''.'' @ append_int (c_hour c) 2 @ append_int (c_min c) 2)"

section \<open>Parsing\<close>

definition is_digit :: "char \<Rightarrow> bool" where
  "is_digit c \<longleftrightarrow> (let n = of_char c :: nat in 48 \<le> n \<and> n \<le> 57)"

definition digit_val :: "char \<Rightarrow> int" where
  "digit_val c = int (of_char c) - 48"

definition getnum :: "bool \<Rightarrow> string \<Rightarrow> (int \<times> string) option" where
  "getnum fixed s =
     (case s of [] \<Rightarrow> None
      | c # cs \<Rightarrow>
          if \<not> is_digit c then None
          else (case cs of
                  d # ds \<Rightarrow> if is_digit d then Some (10 * digit_val c + digit_val d, ds) else if fixed then None else Some (digit_val c, cs)
                | [] \<Rightarrow> if fixed then None else Some (digit_val c, [])))"

definition long_year :: "string \<Rightarrow> (int \<times> string) option" where
  "long_year s =
     (case s of a # b # c # d # rest \<Rightarrow>
        if is_digit a \<and> is_digit b \<and> is_digit c \<and> is_digit d
        then Some (1000 * digit_val a + 100 * digit_val b + 10 * digit_val c + digit_val d, rest) else None
      | _ \<Rightarrow> None)"

definition skip_char :: "char \<Rightarrow> string \<Rightarrow> string option" where
  "skip_char c s = (case s of x # xs \<Rightarrow> if x = c then Some xs else None | [] \<Rightarrow> None)"

definition num_in :: "int \<Rightarrow> int \<Rightarrow> bool \<Rightarrow> string \<Rightarrow> (int \<times> string) option" where
  "num_in lo hi fixed s = (case getnum fixed s of Some (n, rest) \<Rightarrow> if lo \<le> n \<and> n \<le> hi then Some (n, rest) else None | None \<Rightarrow> None)"

text \<open>A fraction of a second may follow although the layout has none.\<close>

definition fraction :: "string \<Rightarrow> int \<times> string" where
  "fraction s =
     (case s of p # d # rest \<Rightarrow>
        if (p = CHR ''.'' \<or> p = CHR '','') \<and> is_digit d
        then (let ds = take 9 (takeWhile is_digit (d # rest))
              in (fold (\<lambda>c n. 10 * n + digit_val c) ds 0 * 10 ^ (9 - length ds), dropWhile is_digit (d # rest)))
        else (0, s)
      | _ \<Rightarrow> (0, s))"

definition zone_offset :: "string \<Rightarrow> (int \<times> string) option" where
  "zone_offset s =
     (case s of [] \<Rightarrow> None
      | z # rest \<Rightarrow>
          if z = CHR ''Z'' then Some (0, rest)
          else do {
            (hh, r1) \<leftarrow> num_in 0 24 True rest;
            r2 \<leftarrow> skip_char CHR '':'' r1;
            (mm, r3) \<leftarrow> num_in 0 60 True r2;
            if z = CHR ''+'' then Some (hh * 3600 + mm * 60, r3)
            else if z = CHR ''-'' then Some (- (hh * 3600 + mm * 60), r3)
            else None })"

definition parse_RFC3339 :: "string \<Rightarrow> time option" where
  "parse_RFC3339 s = do {
     (y, s) \<leftarrow> long_year s;
     s \<leftarrow> skip_char CHR ''-'' s;
     (m, s) \<leftarrow> num_in 1 12 True s;
     s \<leftarrow> skip_char CHR ''-'' s;
     (d, s) \<leftarrow> getnum True s;
     s \<leftarrow> skip_char CHR ''T'' s;
     (hh, s) \<leftarrow> num_in 0 23 False s;
     s \<leftarrow> skip_char CHR '':'' s;
     (mm, s) \<leftarrow> num_in 0 59 True s;
     s \<leftarrow> skip_char CHR '':'' s;
     (ss, s) \<leftarrow> num_in 0 59 True s;
     let (ns, s) = fraction s;
     (offset, s) \<leftarrow> zone_offset s;
     if s = [] \<and> 1 \<le> d \<and> d \<le> daysIn m y then Some (time_Date y m d hh mm ss ns - offset * nanos) else None }"

definition Parse_RFC3339 :: "string \<Rightarrow> time result" where
  "Parse_RFC3339 s =
     (case parse_RFC3339 s of None \<Rightarrow> Inl (TypedError ''ParseError'' (''parsing time '' @ s)) | Some t \<Rightarrow> Inr t)"

definition parse_minutes :: "string \<Rightarrow> time option" where
  "parse_minutes s = do {
     (y, s) \<leftarrow> long_year s;
     (m, s) \<leftarrow> num_in 1 12 True s;
     (d, s) \<leftarrow> getnum True s;
     s \<leftarrow> skip_char CHR ''.'' s;
     (hh, s) \<leftarrow> num_in 0 23 False s;
     (mm, s) \<leftarrow> num_in 0 59 True s;
     if s = [] \<and> 1 \<le> d \<and> d \<le> daysIn m y then Some (time_Date y m d hh mm 0 0) else None }"

text \<open>\<^verbatim>\<open>time1, _ := time.Parse(timeFormat, s)\<close>: an error leaves the zero time, the first day of the year 1.\<close>

definition zero_time :: time where "zero_time = time_Date 1 1 1 0 0 0 0"

definition Parse_minutes :: "string \<Rightarrow> time" where
  "Parse_minutes s = (case parse_minutes s of None \<Rightarrow> zero_time | Some t \<Rightarrow> t)"

section \<open>Round trips\<close>

lemma digit_char:
  assumes "n < 10"
  shows "is_digit (char_of (48 + n))" "digit_val (char_of (48 + n)) = int n"
  using assms by (simp_all add: is_digit_def digit_val_def)

lemma zero_char: "char_of (48 :: nat) = CHR ''0''"
  by code_simp

lemma append_two: "append_int n 2 = [char_of (48 + nat n div 10), char_of (48 + nat n mod 10)]" if "0 \<le> n" "n < 100"
proof (cases "nat n < 10")
  case False
  moreover have "nat n div 10 < 10" using that by auto
  ultimately show ?thesis using that by (simp add: append_int_def nat_digits.simps [of "nat n"] nat_digits.simps [of "nat n div 10"] numeral_2_eq_2)
qed (use that in \<open>simp add: append_int_def nat_digits.simps [of "nat n"] numeral_2_eq_2 zero_char\<close>)

lemma getnum_two: "getnum fixed (append_int n 2 @ s) = Some (n, s)" if "0 \<le> n" "n < 100"
proof -
  have "nat n div 10 < 10" "nat n mod 10 < 10" using that by auto
  moreover have "10 * int (nat n div 10) + int (nat n mod 10) = n"
    using arg_cong [of _ _ int, OF mult_div_mod_eq [of 10 "nat n"]] that unfolding of_nat_add of_nat_mult by simp
  ultimately show ?thesis using append_two [OF that] by (simp add: getnum_def digit_char)
qed

lemma num_in_two: "0 \<le> n \<Longrightarrow> n < 100 \<Longrightarrow> lo \<le> n \<Longrightarrow> n \<le> hi \<Longrightarrow> num_in lo hi fixed (append_int n 2 @ s) = Some (n, s)"
  by (simp add: num_in_def getnum_two)

lemma append_four:
  assumes "n < 10000"
  shows "append_int (int n) 4 =
    [char_of (48 + n div 1000), char_of (48 + n div 100 mod 10), char_of (48 + n div 10 mod 10), char_of (48 + n mod 10)]"
proof -
  have len: "append_int (int n) 4 = replicate (4 - length (nat_digits n)) CHR ''0'' @ nat_digits n" by (simp add: append_int_def Let_def)
  have div: "n div 10 div 10 = n div 100" "n div 100 div 10 = n div 1000" by (simp_all add: div_mult2_eq [symmetric])
  consider "n < 10" | "10 \<le> n" "n < 100" | "100 \<le> n" "n < 1000" | "1000 \<le> n" by linarith
  then show ?thesis
  proof cases
    case 2
    then have "n div 10 < 10" "n div 100 = 0" "n div 1000 = 0" by auto
    then show ?thesis using 2 unfolding len by (simp add: nat_digits.simps [of n] nat_digits.simps [of "n div 10"] zero_char numeral_2_eq_2)
  next
    case 3
    then have "10 \<le> n div 10" "n div 100 < 10" "n div 1000 = 0" by auto
    then show ?thesis using 3 unfolding len
      by (simp add: nat_digits.simps [of n] nat_digits.simps [of "n div 10"] nat_digits.simps [of "n div 100"] zero_char div)
  next
    case 4
    then have "10 \<le> n div 10" "10 \<le> n div 100" "n div 1000 < 10" using assms by auto
    then show ?thesis using 4 unfolding len
      by (simp add: nat_digits.simps [of n] nat_digits.simps [of "n div 10"] nat_digits.simps [of "n div 100"] nat_digits.simps [of "n div 1000"] div)
  qed (simp add: len nat_digits.simps [of n] zero_char numeral_3_eq_3)
qed

lemma long_year_four: "long_year (append_int y 4 @ s) = Some (y, s)" if "0 \<le> y" "y \<le> 9999"
proof -
  define n where "n = nat y"
  have n: "y = int n" "n < 10000" using that by (auto simp: n_def)
  then have "n div 1000 < 10" by auto
  moreover have "n div 100 mod 10 < 10" "n div 10 mod 10 < 10" "n mod 10 < 10" by simp_all
  moreover have "1000 * (n div 1000) + 100 * (n div 100 mod 10) + 10 * (n div 10 mod 10) + n mod 10 = n"
  proof -
    have sum: "1000 * c + 100 * p + 10 * q + r = k" if "10 * a + r = k" "10 * b + q = a" "10 * c + p = b" for a b c p q r k :: nat
      using that by linarith
    have "10 * (n div 100) + n div 10 mod 10 = n div 10" "10 * (n div 1000) + n div 100 mod 10 = n div 100"
      using mult_div_mod_eq [of 10 "n div 10"] mult_div_mod_eq [of 10 "n div 100"] by (simp_all only: div_mult2_eq [symmetric]) simp_all
    then show ?thesis by (rule sum [OF mult_div_mod_eq])
  qed
  from arg_cong [of _ _ int, OF this] have "1000 * int (n div 1000) + 100 * int (n div 100 mod 10) + 10 * int (n div 10 mod 10) + int (n mod 10) = int n"
    unfolding of_nat_add of_nat_mult of_nat_numeral .
  ultimately show ?thesis unfolding n(1) append_four [OF n(2)] long_year_def by (simp only: digit_char list.case append.simps if_True simp_thms)
qed

definition four_digit_year :: "time \<Rightarrow> bool" where
  "four_digit_year t \<longleftrightarrow> 0 \<le> c_year (civil_of t) \<and> c_year (civil_of t) \<le> 9999"

lemma Parse_Format_RFC3339:
  assumes "four_digit_year t"
  shows "Parse_RFC3339 (Format_RFC3339 t) = Inr (t - t mod nanos)"
proof -
  note c = civil_fields [of t]
  have "fraction ''Z'' = (0, ''Z'')" "zone_offset ''Z'' = Some (0, [])" by (simp_all add: fraction_def zone_offset_def)
  then have "parse_RFC3339 (Format_RFC3339 t) = Some (t - t mod nanos)"
    using c assms
    by (simp add: parse_RFC3339_def Format_RFC3339_def Let_def long_year_four num_in_two getnum_two four_digit_year_def skip_char_def)
  then show ?thesis by (simp add: Parse_RFC3339_def)
qed

lemma Parse_Format_minutes:
  assumes "four_digit_year (t + offset)"
  shows "Parse_minutes (Format_minutes offset t) = t + offset - (t + offset) mod (60 * nanos)"
proof -
  let ?t = "t + offset"
  let ?c = "civil_of ?t"
  note c = civil_fields [of ?t]
  have "Parse_minutes (Format_minutes offset t) = time_Date (c_year ?c) (c_month ?c) (c_day ?c) (c_hour ?c) (c_min ?c) 0 0"
    using c assms
    by (simp add: Parse_minutes_def parse_minutes_def Format_minutes_def Let_def long_year_four num_in_two num_in_two [where s = "[]", simplified] getnum_two four_digit_year_def skip_char_def)
  also have "\<dots> = ?t - ?t mod nanos - c_sec ?c * nanos"
    using c(12) by (simp add: time_Date_def algebra_simps)
  also have "c_sec ?c = ?t div nanos mod 60" by (simp add: civil_of_def Let_def mod_mod_cancel)
  also have "?t - ?t mod nanos - ?t div nanos mod 60 * nanos = ?t - ?t mod (60 * nanos)"
    using zmod_zmult2_eq [of 60 ?t nanos] by (simp add: mult.commute)
  finally show ?thesis .
qed

end
