(* ===== verification/Addon_Controller.thy ===== *)
theory Addon_Controller
  imports Kube_Objects Conditions Go_Base64 Go_Time
begin

text \<open>
  The addon controller (\<^verbatim>\<open>pkg/controller/master/addon\<close>): an addon is a Helm chart that the user
  switches on and off. The controller keeps a status and three conditions on the addon, creates,
  updates and deletes the \<^verbatim>\<open>HelmChart\<close> object and follows the jobs the Helm controller starts for
  it. The same package keeps the volume of Grafana across a reinstallation and marks the Rancher
  apps that belong to an addon.

  A mark of the conditions reads the clock once and stamps with a resolution of one second.
\<close>

section \<open>Objects, requests and environment\<close>

record addon =
  ad_Kind :: string
  ad_APIVersion :: string
  ad_Namespace :: string
  ad_Name :: string
  ad_UID :: string
  ad_Labels :: smap
  ad_Annotations :: smap
  ad_DeletionTimestamp :: "time option"
  ad_Repo :: string
  ad_Chart :: string
  ad_Version :: string
  ad_Enabled :: bool
  ad_ValuesContent :: string
  ad_Status :: string
  ad_Conditions :: "condition list"

record helm_chart =
  hc_Namespace :: string
  hc_Name :: string
  hc_OwnerReferences :: "owner_ref list"
  hc_DeletionTimestamp :: "time option"
  hc_Chart :: string
  hc_Repo :: string
  hc_Version :: string
  hc_ValuesContent :: string
  hc_BackOffLimit :: "int option"
  hc_JobName :: string

record helm_job =
  hj_Name :: string
  hj_CreationTimestamp :: time
  hj_CompletionTime :: "time option"
  hj_Failed :: int
  hj_Succeeded :: int
  hj_Conditions :: "(string \<times> string) list"

record pvolume =
  pv_Name :: string
  pv_ReclaimPolicy :: string
  pv_ClaimRefUID :: "string option"
  pv_Phase :: string

record catalog_app =
  app_Namespace :: string
  app_Name :: string
  app_DeletionTimestamp :: "time option"
  app_Metadata :: "smap option"

datatype addon_call =
    HelmGet string string
  | HelmCreate helm_chart
  | HelmUpdate helm_chart
  | HelmDelete string string
  | AddonUpdate addon
  | AddonUpdateStatus addon
  | AddonEnqueueAfter string string int
  | PVUpdate pvolume
  | AppUpdate catalog_app

record addon_env =
  helm_Get :: "addon_call list \<Rightarrow> string \<Rightarrow> string \<Rightarrow> helm_chart result"
  helm_Create :: "addon_call list \<Rightarrow> helm_chart \<Rightarrow> helm_chart result"
  helm_Update :: "addon_call list \<Rightarrow> helm_chart \<Rightarrow> helm_chart result"
  helm_Delete :: "addon_call list \<Rightarrow> string \<Rightarrow> string \<Rightarrow> unit result"
  addons_Update :: "addon_call list \<Rightarrow> addon \<Rightarrow> addon result"
  addons_UpdateStatus :: "addon_call list \<Rightarrow> addon \<Rightarrow> addon result"
  addonCache_Get :: "string \<Rightarrow> string \<Rightarrow> addon result"
  helm_jobCache_Get :: "string \<Rightarrow> string \<Rightarrow> helm_job result"
  pvcCache_GetVolumeName :: "string \<Rightarrow> string \<Rightarrow> string result"
  pvCache_Get :: "string \<Rightarrow> pvolume result"
  pvs_Update :: "addon_call list \<Rightarrow> pvolume \<Rightarrow> pvolume result"
  apps_Update :: "addon_call list \<Rightarrow> catalog_app \<Rightarrow> catalog_app result"
  addon_clock :: "addon_call list \<Rightarrow> time"

text \<open>\<^verbatim>\<open>time.Now().UTC().Format(time.RFC3339)\<close>\<close>

definition addon_now :: "addon_env \<Rightarrow> addon_call list \<Rightarrow> string" where
  "addon_now e h = Format_RFC3339 (addon_clock e h)"

abbreviation AddonEnabling :: string where "AddonEnabling \<equiv> ''AddonEnabling''"
abbreviation AddonDeployed :: string where "AddonDeployed \<equiv> ''AddonDeploySuccessful''"
abbreviation AddonDisabled :: string where "AddonDisabled \<equiv> ''AddonDisabled''"
abbreviation AddonDisabling :: string where "AddonDisabling \<equiv> ''AddonDisabling''"
abbreviation AddonUpdating :: string where "AddonUpdating \<equiv> ''AddonUpdating''"
abbreviation (input) AddonInitState :: string where "AddonInitState \<equiv> []"

abbreviation AddonOperationInProgress :: string where "AddonOperationInProgress \<equiv> ''InProgress''"
abbreviation AddonOperationCompleted :: string where "AddonOperationCompleted \<equiv> ''Completed''"
abbreviation AddonOperationFailed :: string where "AddonOperationFailed \<equiv> ''OperationFailed''"

definition DefaultJobBackOffLimit :: int where "DefaultJobBackOffLimit = 5"
definition helmChartJobDeletePrefix :: string where "helmChartJobDeletePrefix = ''helm-delete''"
definition enqueueInterval :: int where "enqueueInterval = 5"
definition AddonValuesAnnotation :: string where
  [key_defs]: "AddonValuesAnnotation = ''harvesterhci.io/addon-defaults''"

abbreviation in_progress :: "addon \<Rightarrow> bool" where
  "in_progress a \<equiv> cond_IsTrue AddonOperationInProgress (ad_Conditions a)"
abbreviation completed :: "addon \<Rightarrow> bool" where
  "completed a \<equiv> cond_IsTrue AddonOperationCompleted (ad_Conditions a)"
abbreviation failed :: "addon \<Rightarrow> bool" where
  "failed a \<equiv> cond_IsTrue AddonOperationFailed (ad_Conditions a)"

definition addon_update_status :: "addon_env \<Rightarrow> addon \<Rightarrow> (addon_call, addon option result) act" where
  "addon_update_status e a =
     andthen (request (AddonUpdateStatus a) (\<lambda>h. addons_UpdateStatus e h a)) (\<lambda>u. ret (Inr (Some u)))"

section \<open>Conditions\<close>

definition markErrorCondition :: "string \<Rightarrow> addon \<Rightarrow> go_error \<Rightarrow> addon" where
  "markErrorCondition now a msg =
     a\<lparr>ad_Conditions :=
        cond_False now AddonOperationCompleted
          (cond_False now AddonOperationInProgress
            (cond_LastUpdated AddonOperationFailed now
              (cond_True now AddonOperationFailed
                (cond_SetError now AddonOperationFailed [] msg (ad_Conditions a)))))\<rparr>"

definition markInProgressCondition :: "string \<Rightarrow> addon \<Rightarrow> addon" where
  "markInProgressCondition now a =
     a\<lparr>ad_Conditions :=
        cond_Message now AddonOperationFailed []
          (cond_Reason AddonOperationFailed []
            (cond_False now AddonOperationFailed
              (cond_True now AddonOperationInProgress
                (cond_LastUpdated AddonOperationInProgress now
                  (cond_False now AddonOperationCompleted (ad_Conditions a))))))\<rparr>"

definition markCompletedCondition :: "string \<Rightarrow> addon \<Rightarrow> addon" where
  "markCompletedCondition now a =
     a\<lparr>ad_Conditions :=
        cond_Message now AddonOperationFailed []
          (cond_Reason AddonOperationFailed []
            (cond_False now AddonOperationFailed
              (cond_False now AddonOperationInProgress
                (cond_LastUpdated AddonOperationCompleted now
                  (cond_True now AddonOperationCompleted (ad_Conditions a))))))\<rparr>"

section \<open>Helm chart of an addon\<close>

definition addon_owns :: "addon \<Rightarrow> owner_ref \<Rightarrow> bool" where
  "addon_owns a v \<longleftrightarrow>
     or_Kind v = ad_Kind a \<and> or_APIVersion v = ad_APIVersion a \<and> or_UID v = ad_UID a \<and> or_Name v = ad_Name a"

definition getAddonHelmChart :: "addon_env \<Rightarrow> addon \<Rightarrow> (addon_call, (helm_chart option \<times> bool) result) act" where
  "getAddonHelmChart e a = do {
     r \<leftarrow> request (HelmGet (ad_Namespace a) (ad_Name a)) (\<lambda>h. helm_Get e h (ad_Namespace a) (ad_Name a));
     case r of
       Inl err \<Rightarrow> if is_not_found err then ret (Inr (None, False))
                  else ret (Inl (errorf_v ''error querying helmchart '' err))
     | Inr hc \<Rightarrow> ret (Inr (Some hc, list_ex (addon_owns a) (hc_OwnerReferences hc))) }"

definition defaultValues :: "addon \<Rightarrow> string result" where
  "defaultValues a =
     (if ad_ValuesContent a \<noteq> [] then Inr (ad_ValuesContent a)
      else case sget (ad_Annotations a) AddonValuesAnnotation of
        Some valsEncoded \<Rightarrow>
          (case DecodeString valsEncoded of
             Inl err \<Rightarrow> Inl (errorf_v ''error decoding addon defaults: '' err)
           | Inr valByte \<Rightarrow> Inr valByte)
      | None \<Rightarrow> Inr [])"

definition isHelmchartUpdateNeeded :: "addon \<Rightarrow> helm_chart \<Rightarrow> (bool \<times> string) result" where
  "isHelmchartUpdateNeeded a hc =
     (case defaultValues a of
        Inl err \<Rightarrow> Inl (errorf_v (''error generating default values of addon '' @ ad_Namespace a @ ''/'' @ ad_Name a @ '': '') err)
      | Inr vals \<Rightarrow>
          Inr (hc_ValuesContent hc \<noteq> vals \<or> hc_Version hc \<noteq> ad_Version a \<or> hc_Chart hc \<noteq> ad_Chart a \<or> hc_Repo hc \<noteq> ad_Repo a,
               vals))"

definition new_helm_chart :: "addon \<Rightarrow> string \<Rightarrow> helm_chart" where
  "new_helm_chart a vals =
     \<lparr>hc_Namespace = ad_Namespace a, hc_Name = ad_Name a,
      hc_OwnerReferences = [\<lparr>or_APIVersion = ad_APIVersion a, or_Kind = ad_Kind a, or_Name = ad_Name a, or_UID = ad_UID a\<rparr>],
      hc_DeletionTimestamp = None, hc_Chart = ad_Chart a, hc_Repo = ad_Repo a, hc_Version = ad_Version a,
      hc_ValuesContent = vals, hc_BackOffLimit = Some DefaultJobBackOffLimit, hc_JobName = []\<rparr>"

definition deployHelmChart :: "addon_env \<Rightarrow> addon \<Rightarrow> (addon_call, unit result) act" where
  "deployHelmChart e a =
     (case defaultValues a of
        Inl err \<Rightarrow> ret (Inl err)
      | Inr vals \<Rightarrow> do {
          let hc = new_helm_chart a vals;
          r \<leftarrow> request (HelmCreate hc) (\<lambda>h. helm_Create e h hc);
          case r of
            Inl err \<Rightarrow> ret (Inl (errorf_v ''error creating helmchart object '' err))
          | Inr _ \<Rightarrow> ret (Inr ()) })"

definition isJobComplete :: "helm_job \<Rightarrow> bool" where
  "isJobComplete j \<longleftrightarrow>
     hj_CompletionTime j \<noteq> None \<or> list_ex (\<lambda>(t, reason). t = ''Failed'' \<and> reason = ''BackoffLimitExceeded'') (hj_Conditions j)"

definition enqueueAfter :: "addon \<Rightarrow> (addon_call, addon option result) act" where
  "enqueueAfter a = do {
     _ \<leftarrow> request (AddonEnqueueAfter (ad_Namespace a) (ad_Name a) (enqueueInterval * 1000000000)) (\<lambda>h. ());
     ret (Inr (Some a)) }"

definition getJob :: "addon_env \<Rightarrow> helm_chart \<Rightarrow> helm_job result" where
  "getJob e hc =
     (if hc_JobName hc = [] then Inl (ErrorString (''waiting for job to be populated on helmchart '' @ hc_Name hc))
      else helm_jobCache_Get e (hc_Namespace hc) (hc_JobName hc))"

definition currentDeletionJob :: "addon_env \<Rightarrow> helm_chart \<Rightarrow> time \<Rightarrow> (helm_job \<times> bool) result" where
  "currentDeletionJob e hc deletionTimestamp =
     (case getJob e hc of
        Inl err \<Rightarrow> Inl err
      | Inr j \<Rightarrow> Inr (j, hj_CreationTimestamp j > deletionTimestamp \<or> hj_CreationTimestamp j = deletionTimestamp))"

definition currentInstallationJob :: "addon_env \<Rightarrow> helm_chart \<Rightarrow> addon \<Rightarrow> (helm_job \<times> bool) result" where
  "currentInstallationJob e hc a =
     (case getJob e hc of
        Inl err \<Rightarrow> Inl err
      | Inr j \<Rightarrow>
          (case Parse_RFC3339 (cond_GetLastUpdated AddonOperationInProgress (ad_Conditions a)) of
             Inl err \<Rightarrow> Inl (errorf_v ''error parsing last updated time for AddonOperationInProgress: '' err)
           | Inr lastUpdatedTime \<Rightarrow>
               Inr (j, hj_CreationTimestamp j > lastUpdatedTime \<or> hj_CreationTimestamp j = lastUpdatedTime)))"

section \<open>Status machine\<close>

definition reconcileCurrentInstallationJob ::
  "addon_env \<Rightarrow> helm_chart \<Rightarrow> addon \<Rightarrow> string \<Rightarrow> (addon_call, addon option result) act" where
  "reconcileCurrentInstallationJob e hc a state =
     (case currentInstallationJob e hc a of
        Inl err \<Rightarrow> ret (Inl err)
      | Inr (j, ok) \<Rightarrow>
          if \<not> ok \<or> \<not> isJobComplete j then enqueueAfter a
          else if hj_Failed j > 0 \<and> failed a then ret (Inr (Some a))
          else do {
            now \<leftarrow> observe (addon_now e);
            let a1 = (if hj_Failed j > 0
                      then markErrorCondition now a (ErrorString (''addon deployment job '' @ hj_Name j @ '' failed''))
                      else a);
            let a2 = (if hj_Succeeded j > 0 then (markCompletedCondition now a1)\<lparr>ad_Status := state\<rparr> else a1);
            addon_update_status e a2 })"

definition processEnableAddon :: "addon_env \<Rightarrow> addon \<Rightarrow> (addon_call, addon option result) act" where
  "processEnableAddon e a =
     andthen (getAddonHelmChart e a) (\<lambda>(hc, owned).
       if owned \<and> (case hc of None \<Rightarrow> False | Some c \<Rightarrow> hc_DeletionTimestamp c \<noteq> None) then enqueueAfter a
       else if \<not> owned \<and> hc \<noteq> None then enqueueAfter a
       else if \<not> in_progress a
       then do {
         now \<leftarrow> observe (addon_now e);
         addon_update_status e (markInProgressCondition now a) }
       else do {
         r \<leftarrow> (if hc = None then deployHelmChart e a else ret (Inr ()));
         case r of
           Inl err \<Rightarrow> ret (Inl (errorf_v ''error deploying helmChart: '' err))
         | Inr _ \<Rightarrow> addon_update_status e (a\<lparr>ad_Status := AddonEnabling\<rparr>) })"

definition processEnablingAddon :: "addon_env \<Rightarrow> addon \<Rightarrow> (addon_call, addon option result) act" where
  "processEnablingAddon e a =
     andthen (getAddonHelmChart e a) (\<lambda>(hc, _).
       if failed a then ret (Inr (Some a))
       else case hc of
         None \<Rightarrow> do {
           now \<leftarrow> observe (addon_now e);
           addon_update_status e ((markCompletedCondition now a)\<lparr>ad_Status := AddonDisabled\<rparr>) }
       | Some c \<Rightarrow> reconcileCurrentInstallationJob e c a AddonDeployed)"

definition processAddonUpgrades :: "addon_env \<Rightarrow> addon \<Rightarrow> (addon_call, addon option result) act" where
  "processAddonUpgrades e a =
     andthen (getAddonHelmChart e a) (\<lambda>(hc, _).
       case hc of
         None \<Rightarrow> andthen (deployHelmChart e a) (\<lambda>_. ret (Inr (Some a)))
       | Some c \<Rightarrow>
           (case isHelmchartUpdateNeeded a c of
              Inl err \<Rightarrow> ret (Inl err)
            | Inr (needed, vals) \<Rightarrow>
                if \<not> needed then ret (Inr (Some a))
                else if ad_Status a \<noteq> AddonUpdating \<and> \<not> in_progress a
                then do {
                  now \<leftarrow> observe (addon_now e);
                  addon_update_status e (markInProgressCondition now a) }
                else andthen (getAddonHelmChart e a) (\<lambda>(hc', _).
                  case hc' of
                    None \<Rightarrow> ret (Inl (Panic ''nil pointer dereference''))
                  | Some c' \<Rightarrow>
                      let u = c'\<lparr>hc_Chart := ad_Chart a, hc_Repo := ad_Repo a, hc_Version := ad_Version a, hc_ValuesContent := vals\<rparr>
                      in andthen (request (HelmUpdate u) (\<lambda>h. helm_Update e h u)) (\<lambda>_.
                           if ad_Status a \<noteq> AddonUpdating \<and> in_progress a
                           then addon_update_status e (a\<lparr>ad_Status := AddonUpdating\<rparr>)
                           else ret (Inr (Some a))))))"

definition processEnabledAddons :: "addon_env \<Rightarrow> addon \<Rightarrow> (addon_call, addon option result) act" where
  "processEnabledAddons e a =
     (if ad_Status a = AddonDisabled \<or> ad_Status a = AddonInitState then processEnableAddon e a
      else if ad_Status a = AddonEnabling \<or> ad_Status a = AddonUpdating then processEnablingAddon e a
      else if ad_Status a = AddonDeployed then processAddonUpgrades e a
      else ret (Inr (Some a)))"

fun has_infix :: "string \<Rightarrow> string \<Rightarrow> bool" where
  "has_infix sub [] = (sub = [])"
| "has_infix sub (c # cs) = (take (length sub) (c # cs) = sub \<or> has_infix sub cs)"

definition disable_owned_chart :: "addon_env \<Rightarrow> addon \<Rightarrow> helm_chart \<Rightarrow> (addon_call, addon option result) act" where
  "disable_owned_chart e a hc =
     (case hc_DeletionTimestamp hc of
        None \<Rightarrow> do {
          now \<leftarrow> observe (addon_now e);
          let a' = a\<lparr>ad_Conditions := cond_True now AddonOperationInProgress (ad_Conditions a)\<rparr>;
          r \<leftarrow> request (HelmDelete (hc_Namespace hc) (hc_Name hc)) (\<lambda>h. helm_Delete e h (hc_Namespace hc) (hc_Name hc));
          case r of
            Inl err \<Rightarrow> ret (Inl (errorf_v ''error deleting helm chart: '' err))
          | Inr _ \<Rightarrow> addon_update_status e a' }
      | Some deletionTimestamp \<Rightarrow>
          if \<not> has_infix helmChartJobDeletePrefix (hc_JobName hc) then enqueueAfter a
          else (case currentDeletionJob e hc deletionTimestamp of
                  Inl err \<Rightarrow> ret (Inl err)
                | Inr (j, ok) \<Rightarrow>
                    if \<not> ok then enqueueAfter a
                    else if \<not> isJobComplete j then enqueueAfter a
                    else do {
                      now \<leftarrow> observe (addon_now e);
                      let a1 = (if hj_Failed j > 0
                                then markErrorCondition now a (ErrorString (''addon disable job '' @ hj_Name j @ '' failed''))
                                else a);
                      let a2 = (if hj_Succeeded j > 0 then (markCompletedCondition now a1)\<lparr>ad_Status := AddonDisabled\<rparr> else a1);
                      addon_update_status e a2 }))"

definition waitForAddonDisable :: "addon_env \<Rightarrow> addon \<Rightarrow> (addon_call, addon option result) act" where
  "waitForAddonDisable e a =
     andthen (getAddonHelmChart e a) (\<lambda>(hc, owned).
       if \<not> owned
       then (case hc of
               None \<Rightarrow> do {
                 now \<leftarrow> observe (addon_now e);
                 addon_update_status e ((markCompletedCondition now a)\<lparr>ad_Status := AddonDisabled\<rparr>) }
             | Some c \<Rightarrow>
                 if failed a then enqueueAfter a
                 else do {
                   now \<leftarrow> observe (addon_now e);
                   addon_update_status e (markErrorCondition now a (ErrorString (''helmChart '' @ hc_Name c @
                     '' exists and is now owned by Addon '' @ ad_Name a @ ''. cannot proceed further''))) })
       else (case hc of
               None \<Rightarrow> ret (Inl (Panic ''nil pointer dereference''))
             | Some c \<Rightarrow> disable_owned_chart e a c))"

definition processDisabledAddons :: "addon_env \<Rightarrow> addon \<Rightarrow> (addon_call, addon option result) act" where
  "processDisabledAddons e a =
     (if ad_Status a = AddonDisabled then ret (Inr (Some a))
      else if ad_Status a \<noteq> AddonDisabling \<and> in_progress a then enqueueAfter a
      else if ad_Status a \<noteq> AddonDisabling then addon_update_status e (a\<lparr>ad_Status := AddonDisabling\<rparr>)
      else waitForAddonDisable e a)"

definition MonitorAddonPerStatus :: "addon_env \<Rightarrow> addon option \<Rightarrow> (addon_call, addon option result) act" where
  "MonitorAddonPerStatus e arg =
     (case arg of
        None \<Rightarrow> ret (Inr None)
      | Some a \<Rightarrow>
          if ad_DeletionTimestamp a \<noteq> None then ret (Inr None)
          else if ad_Enabled a then processEnabledAddons e a
          else processDisabledAddons e a)"

section \<open>Charts, apps and the volume of Grafana\<close>

definition to_lower :: "string \<Rightarrow> string" where
  "to_lower = map (\<lambda>c. if 65 \<le> (of_char c :: nat) \<and> (of_char c :: nat) \<le> 90 then char_of (of_char c + 32 :: nat) else c)"

definition ReconcileHelmChartOwners :: "helm_chart option \<Rightarrow> (string \<times> string) list" where
  "ReconcileHelmChartOwners obj =
     (case obj of
        None \<Rightarrow> []
      | Some hc \<Rightarrow>
          (case find (\<lambda>v. to_lower (or_Kind v) = ''addon'') (hc_OwnerReferences hc) of
             None \<Rightarrow> []
           | Some v \<Rightarrow> [(hc_Namespace hc, or_Name v)]))"

definition managedChartKey :: string where "managedChartKey = ''catalog.cattle.io/managed''"
definition additionalApps :: "string list" where
  "additionalApps = [''cattle-system/rancher'', ''cattle-system/rancher-webhook'']"

definition patch_app :: "addon_env \<Rightarrow> catalog_app \<Rightarrow> (addon_call, catalog_app option result) act" where
  "patch_app e app =
     (case app_Metadata app of
        None \<Rightarrow> ret (Inl (Panic ''nil pointer dereference''))
      | Some annotations \<Rightarrow>
          let appCopy = app\<lparr>app_Metadata := Some (sset annotations managedChartKey ''true'')\<rparr>
          in if appCopy \<noteq> app
             then andthen (request (AppUpdate appCopy) (\<lambda>h. apps_Update e h appCopy)) (\<lambda>u. ret (Inr (Some u)))
             else ret (Inr (Some app)))"

definition PatchApps :: "addon_env \<Rightarrow> string \<Rightarrow> catalog_app option \<Rightarrow> (addon_call, catalog_app option result) act" where
  "PatchApps e key arg =
     (case arg of
        None \<Rightarrow> ret (Inr None)
      | Some app \<Rightarrow>
          if app_DeletionTimestamp app \<noteq> None then ret (Inr None)
          else if key \<in> set additionalApps then patch_app e app
          else case addonCache_Get e (app_Namespace app) (app_Name app) of
            Inl err \<Rightarrow> if is_not_found err then ret (Inr (Some app))
                       else ret (Inl (errorf_v (''error fetching app '' @ app_Name app @ '': '') err))
          | Inr _ \<Rightarrow> patch_app e app)"

definition RancherMonitoringName :: string where "RancherMonitoringName = ''rancher-monitoring''"
definition CattleMonitoringSystemNamespaceName :: string where
  "CattleMonitoringSystemNamespaceName = ''cattle-monitoring-system''"
definition GrafanaPVCName :: string where "GrafanaPVCName = ''rancher-monitoring-grafana''"
definition AnnotationGrafanaPVName :: string where
  [key_defs]: "AnnotationGrafanaPVName = ''harvesterhci.io/grafana-pv-name''"

abbreviation PersistentVolumeReclaimRetain :: string where "PersistentVolumeReclaimRetain \<equiv> ''Retain''"
abbreviation VolumeAvailable :: string where "VolumeAvailable \<equiv> ''Available''"
abbreviation VolumeReleased :: string where "VolumeReleased \<equiv> ''Released''"

definition patchGrafanaPVReclaimPolicy :: "addon_env \<Rightarrow> string \<Rightarrow> string \<Rightarrow> (addon_call, (bool \<times> string) result) act" where
  "patchGrafanaPVReclaimPolicy e namespace name =
     (case pvcCache_GetVolumeName e namespace name of
        Inl err \<Rightarrow> if is_not_found err then ret (Inr (False, []))
                   else ret (Inl (errorf_v (''error fetching grafana pvc '' @ namespace @ ''/'' @ name @ '': '') err))
      | Inr volumeName \<Rightarrow>
          (case pvCache_Get e volumeName of
             Inl err \<Rightarrow> if is_not_found err then ret (Inl (ErrorString (''grafana PV '' @ volumeName @ '' is not found, retry'')))
                        else ret (Inl (errorf_v (''error fetching grafana pv '' @ volumeName @ '': '') err))
           | Inr pv \<Rightarrow>
               if pv_ReclaimPolicy pv = PersistentVolumeReclaimRetain then ret (Inr (False, volumeName))
               else do {
                 let pvCopy = pv\<lparr>pv_ReclaimPolicy := PersistentVolumeReclaimRetain\<rparr>;
                 r \<leftarrow> request (PVUpdate pvCopy) (\<lambda>h. pvs_Update e h pvCopy);
                 case r of
                   Inl err \<Rightarrow> ret (Inl (errorf_v (''grafana PV '' @ volumeName @ '' is failed to patch ReclaimPolicy: '') err))
                 | Inr _ \<Rightarrow> ret (Inr (True, volumeName)) }))"

definition annotateGrafanaPVName :: "addon_env \<Rightarrow> string \<Rightarrow> addon \<Rightarrow> (addon_call, addon option result) act" where
  "annotateGrafanaPVName e pvname a =
     (if ad_DeletionTimestamp a \<noteq> None then ret (Inr None)
      else if ad_Annotations a \<noteq> None \<and> sval (ad_Annotations a) AnnotationGrafanaPVName = pvname then ret (Inr (Some a))
      else let a' = a\<lparr>ad_Annotations := sset (ad_Annotations a) AnnotationGrafanaPVName pvname\<rparr>
           in andthen (request (AddonUpdate a') (\<lambda>h. addons_Update e h a')) (\<lambda>u. ret (Inr (Some u))))"

definition patchGrafanaPVClaimRef :: "addon_env \<Rightarrow> addon \<Rightarrow> (addon_call, addon option result) act" where
  "patchGrafanaPVClaimRef e a =
     (if ad_DeletionTimestamp a \<noteq> None then ret (Inr None)
      else let pvname = sval (ad_Annotations a) AnnotationGrafanaPVName
           in if pvname = [] then ret (Inr (Some a))
              else case pvCache_Get e pvname of
                Inl err \<Rightarrow> if is_not_found err then ret (Inr (Some a))
                           else ret (Inl (errorf_v (''error fetching grafana pv '' @ pvname @ '': '') err))
              | Inr pv \<Rightarrow>
                  if pv_ReclaimPolicy pv \<noteq> PersistentVolumeReclaimRetain then ret (Inr (Some a))
                  else if pv_ClaimRefUID pv = None \<or> pv_ClaimRefUID pv = Some [] then ret (Inr (Some a))
                  else if pv_Phase pv = VolumeAvailable then ret (Inr (Some a))
                  else if pv_Phase pv \<noteq> VolumeReleased then ret (Inr (Some a))
                  else do {
                    let pvCopy = pv\<lparr>pv_ClaimRefUID := Some []\<rparr>;
                    r \<leftarrow> request (PVUpdate pvCopy) (\<lambda>h. pvs_Update e h pvCopy);
                    case r of
                      Inl err \<Rightarrow> ret (Inl (errorf_v (''grafana PV '' @ pvname @ '' is failed to patch: '') err))
                    | Inr _ \<Rightarrow> ret (Inr (Some a)) })"

definition MonitorAddonRancherMonitoring :: "addon_env \<Rightarrow> addon option \<Rightarrow> (addon_call, addon option result) act" where
  "MonitorAddonRancherMonitoring e arg =
     (case arg of
        None \<Rightarrow> ret (Inr None)
      | Some a \<Rightarrow>
          if ad_DeletionTimestamp a \<noteq> None then ret (Inr None)
          else if ad_Name a \<noteq> RancherMonitoringName \<or> ad_Namespace a \<noteq> CattleMonitoringSystemNamespaceName
          then ret (Inr (Some a))
          else let disabled_step =
                 (if \<not> ad_Enabled a \<and> ad_Status a = AddonDisabled then patchGrafanaPVClaimRef e a else ret (Inr (Some a)))
               in if ad_Enabled a \<and> ad_Status a = AddonDeployed
                  then andthen (patchGrafanaPVReclaimPolicy e CattleMonitoringSystemNamespaceName GrafanaPVCName) (\<lambda>(_, pvname).
                    if pvname \<noteq> [] then annotateGrafanaPVName e pvname a else disabled_step)
                  else disabled_step)"

section \<open>What the marks do\<close>

named_theorems mark_simps \<open>what the condition marks make true\<close>

lemma markError_conds [mark_simps]:
  shows "failed (markErrorCondition now a msg)" and "\<not> in_progress (markErrorCondition now a msg)"
    and "\<not> completed (markErrorCondition now a msg)"
  by (simp_all add: markErrorCondition_def cond_simps)

lemma markInProgress_conds [mark_simps]:
  shows "\<not> failed (markInProgressCondition now a)" and "in_progress (markInProgressCondition now a)"
    and "\<not> completed (markInProgressCondition now a)"
  by (simp_all add: markInProgressCondition_def cond_simps)

lemma markCompleted_conds [mark_simps]:
  shows "\<not> failed (markCompletedCondition now a)" and "\<not> in_progress (markCompletedCondition now a)"
    and "completed (markCompletedCondition now a)"
  by (simp_all add: markCompletedCondition_def cond_simps)

lemma mark_frame [mark_simps]:
  "ad_Status (markErrorCondition now a msg) = ad_Status a"
  "ad_Status (markInProgressCondition now a) = ad_Status a"
  "ad_Status (markCompletedCondition now a) = ad_Status a"
  by (simp_all add: markErrorCondition_def markInProgressCondition_def markCompletedCondition_def)

section \<open>Guards of the requests\<close>

text \<open>What the last look at the chart of the addon returned.\<close>

definition saw :: "addon_env \<Rightarrow> addon \<Rightarrow> addon_call list \<Rightarrow> (helm_chart result \<Rightarrow> bool) \<Rightarrow> bool" where
  "saw e a pre P \<longleftrightarrow>
     (\<exists>h rest. pre = h @ HelmGet (ad_Namespace a) (ad_Name a) # rest \<and> P (helm_Get e h (ad_Namespace a) (ad_Name a)))"

definition no_chart :: "helm_chart result \<Rightarrow> bool" where
  "no_chart r \<longleftrightarrow> (\<exists>err. r = Inl err \<and> is_not_found err)"

definition own_chart :: "addon \<Rightarrow> (helm_chart \<Rightarrow> bool) \<Rightarrow> helm_chart result \<Rightarrow> bool" where
  "own_chart a P r \<longleftrightarrow> (\<exists>hc. r = Inr hc \<and> list_ex (addon_owns a) (hc_OwnerReferences hc) \<and> P hc)"

definition matches_spec :: "addon \<Rightarrow> helm_chart \<Rightarrow> bool" where
  "matches_spec a hc \<longleftrightarrow>
     defaultValues a = Inr (hc_ValuesContent hc) \<and> hc_Version hc = ad_Version a \<and> hc_Chart hc = ad_Chart a \<and> hc_Repo hc = ad_Repo a"

definition installed_by :: "addon_env \<Rightarrow> addon \<Rightarrow> helm_chart \<Rightarrow> helm_job \<Rightarrow> bool" where
  "installed_by e a hc j \<longleftrightarrow> currentInstallationJob e hc a = Inr (j, True) \<and> isJobComplete j"

definition deleted_by :: "addon_env \<Rightarrow> helm_chart \<Rightarrow> helm_job \<Rightarrow> bool" where
  "deleted_by e hc j \<longleftrightarrow>
     (\<exists>t. hc_DeletionTimestamp hc = Some t \<and> currentDeletionJob e hc t = Inr (j, True)) \<and> isJobComplete j"

text \<open>The transitions of the status machine with their guards.\<close>

inductive addon_transition :: "addon_env \<Rightarrow> addon \<Rightarrow> addon_call list \<Rightarrow> addon \<Rightarrow> bool" for e a pre where
  start_enable: "addon_transition e a pre (markInProgressCondition now a)"
    if "ad_Enabled a" "ad_Status a = AddonDisabled \<or> ad_Status a = AddonInitState" "\<not> in_progress a"
      "saw e a pre (\<lambda>r. no_chart r \<or> own_chart a (\<lambda>hc. hc_DeletionTimestamp hc = None) r)"
| deploying: "addon_transition e a pre (a\<lparr>ad_Status := AddonEnabling\<rparr>)"
    if "ad_Enabled a" "ad_Status a = AddonDisabled \<or> ad_Status a = AddonInitState" "in_progress a"
      "saw e a pre (own_chart a (\<lambda>hc. hc_DeletionTimestamp hc = None)) \<or>
       saw e a pre no_chart \<and> (\<exists>vals. defaultValues a = Inr vals \<and> HelmCreate (new_helm_chart a vals) \<in> set pre)"
| chart_lost: "addon_transition e a pre ((markCompletedCondition now a)\<lparr>ad_Status := AddonDisabled\<rparr>)"
    if "ad_Enabled a" "ad_Status a = AddonEnabling \<or> ad_Status a = AddonUpdating" "\<not> failed a" "saw e a pre no_chart"
| deployed: "addon_transition e a pre ((markCompletedCondition now b)\<lparr>ad_Status := AddonDeployed\<rparr>)"
    if "ad_Enabled a" "ad_Status a = AddonEnabling \<or> ad_Status a = AddonUpdating" "\<not> failed a"
      "saw e a pre (\<lambda>r. \<exists>hc j. r = Inr hc \<and> installed_by e a hc j \<and> hj_Succeeded j > 0)"
      "b = a \<or> (\<exists>err. b = markErrorCondition now a err)"
| deploy_failed: "addon_transition e a pre (markErrorCondition now a err)"
    if "ad_Enabled a" "ad_Status a = AddonEnabling \<or> ad_Status a = AddonUpdating" "\<not> failed a"
      "saw e a pre (\<lambda>r. \<exists>hc j. r = Inr hc \<and> installed_by e a hc j \<and> hj_Failed j > 0)"
| deploy_unknown: "addon_transition e a pre a"
    if "ad_Enabled a" "ad_Status a = AddonEnabling \<or> ad_Status a = AddonUpdating" "\<not> failed a"
      "saw e a pre (\<lambda>r. \<exists>hc j. r = Inr hc \<and> installed_by e a hc j \<and> hj_Failed j \<le> 0 \<and> hj_Succeeded j \<le> 0)"
| start_update: "addon_transition e a pre (markInProgressCondition now a)"
    if "ad_Enabled a" "ad_Status a = AddonDeployed" "\<not> in_progress a"
      "saw e a pre (\<lambda>r. \<exists>hc. r = Inr hc \<and> \<not> matches_spec a hc)"
| updating: "addon_transition e a pre (a\<lparr>ad_Status := AddonUpdating\<rparr>)"
    if "ad_Enabled a" "ad_Status a = AddonDeployed" "in_progress a" "HelmUpdate u \<in> set pre" "matches_spec a u"
| disabling: "addon_transition e a pre (a\<lparr>ad_Status := AddonDisabling\<rparr>)"
    if "\<not> ad_Enabled a" "ad_Status a \<noteq> AddonDisabled" "ad_Status a \<noteq> AddonDisabling" "\<not> in_progress a"
| chart_deleted: "addon_transition e a pre (a\<lparr>ad_Conditions := cond_True now AddonOperationInProgress (ad_Conditions a)\<rparr>)"
    if "\<not> ad_Enabled a" "ad_Status a = AddonDisabling" "HelmDelete ns n \<in> set pre"
| disabled: "addon_transition e a pre ((markCompletedCondition now b)\<lparr>ad_Status := AddonDisabled\<rparr>)"
    if "\<not> ad_Enabled a" "ad_Status a = AddonDisabling"
      "saw e a pre (\<lambda>r. no_chart r \<or> own_chart a (\<lambda>hc. \<exists>j. deleted_by e hc j \<and> hj_Succeeded j > 0) r)"
      "b = a \<or> (\<exists>err. b = markErrorCondition now a err)"
| disable_failed: "addon_transition e a pre (markErrorCondition now a err)"
    if "\<not> ad_Enabled a" "ad_Status a = AddonDisabling"
      "saw e a pre (\<lambda>r. (\<exists>hc. r = Inr hc \<and> \<not> list_ex (addon_owns a) (hc_OwnerReferences hc)) \<and> \<not> failed a \<or>
         own_chart a (\<lambda>hc. \<exists>j. deleted_by e hc j \<and> hj_Failed j > 0) r)"
| disable_unknown: "addon_transition e a pre a"
    if "\<not> ad_Enabled a" "ad_Status a = AddonDisabling"
      "saw e a pre (own_chart a (\<lambda>hc. \<exists>j. deleted_by e hc j \<and> hj_Failed j \<le> 0 \<and> hj_Succeeded j \<le> 0))"

definition addon_policy :: "addon_env \<Rightarrow> addon \<Rightarrow> addon_call list \<Rightarrow> addon_call \<Rightarrow> bool" where
  "addon_policy e a pre c =
     (case c of
        HelmGet ns n \<Rightarrow> ns = ad_Namespace a \<and> n = ad_Name a
      | AddonEnqueueAfter ns n t \<Rightarrow> ns = ad_Namespace a \<and> n = ad_Name a \<and> t = 5000000000
      | HelmCreate hc \<Rightarrow>
          ad_Enabled a \<and> saw e a pre no_chart \<and> (\<exists>vals. defaultValues a = Inr vals \<and> hc = new_helm_chart a vals) \<and>
          (ad_Status a = AddonDeployed \<or> (ad_Status a = AddonDisabled \<or> ad_Status a = AddonInitState) \<and> in_progress a)
      | HelmUpdate hc \<Rightarrow> ad_Enabled a \<and> ad_Status a = AddonDeployed \<and> in_progress a \<and> matches_spec a hc
      | HelmDelete ns n \<Rightarrow>
          \<not> ad_Enabled a \<and> ad_Status a = AddonDisabling \<and>
          saw e a pre (own_chart a (\<lambda>hc. hc_Namespace hc = ns \<and> hc_Name hc = n \<and> hc_DeletionTimestamp hc = None))
      | AddonUpdateStatus u \<Rightarrow> addon_transition e a pre u
      | _ \<Rightarrow> False)"

lemma saw_here: "P (helm_Get e h (ad_Namespace a) (ad_Name a)) \<Longrightarrow> saw e a (h @ [HelmGet (ad_Namespace a) (ad_Name a)]) P"
  unfolding saw_def by blast

lemma saw_later: "saw e a pre P \<Longrightarrow> saw e a (pre @ [c]) P"
  unfolding saw_def by (elim exE) (metis append_assoc append_Cons)

lemma saw_mono: "saw e a pre P \<Longrightarrow> (\<And>r. P r \<Longrightarrow> Q r) \<Longrightarrow> saw e a pre Q"
  unfolding saw_def by blast

lemma emits_update_status: "addon_policy e a h (AddonUpdateStatus u) \<Longrightarrow> emits (addon_policy e a) (addon_update_status e u) h"
  unfolding addon_update_status_def by (intro emits_request_andthen emits_return)

lemma emits_enqueue: "emits (addon_policy e a) (enqueueAfter a) h"
  unfolding enqueueAfter_def by (intro emits_request_bind emits_return) (simp add: addon_policy_def enqueueInterval_def)

lemma emits_observe_bind: "emits P (f (g h)) h \<Longrightarrow> emits P (State_Monad.bind (observe g) f) h"
  by (rule emits_bind) (auto intro: emits_observe)

lemma emits_getAddonHelmChart:
  assumes "\<And>h'. saw e a h' no_chart \<Longrightarrow> emits (addon_policy e a) (k (None, False)) h'"
    and "\<And>c h'. saw e a h' (\<lambda>r. r = Inr c) \<Longrightarrow>
      emits (addon_policy e a) (k (Some c, list_ex (addon_owns a) (hc_OwnerReferences c))) h'"
  shows "emits (addon_policy e a) (andthen (getAddonHelmChart e a) k) h"
proof (cases "helm_Get e h (ad_Namespace a) (ad_Name a)")
  case (Inl err)
  have "emits (addon_policy e a) (k (None, False)) (h @ [HelmGet (ad_Namespace a) (ad_Name a)])" if "is_not_found err"
    using that Inl by (intro assms saw_here) (simp add: no_chart_def)
  with Inl show ?thesis
    unfolding andthen_def getAddonHelmChart_def bind_assoc
    by (intro emits_request_bind) (simp_all add: addon_policy_def emits_return)
next
  case (Inr c)
  have "emits (addon_policy e a) (k (Some c, list_ex (addon_owns a) (hc_OwnerReferences c)))
      (h @ [HelmGet (ad_Namespace a) (ad_Name a)])"
    using Inr by (intro assms saw_here) simp
  with Inr show ?thesis
    unfolding andthen_def getAddonHelmChart_def bind_assoc
    by (intro emits_request_bind) (simp_all add: addon_policy_def)
qed

lemma policy_status [simp]: "addon_policy e a h (AddonUpdateStatus u) = addon_transition e a h u"
  by (simp add: addon_policy_def)

lemma saw_own: "saw e a h (\<lambda>r. r = Inr c) \<Longrightarrow> list_ex (addon_owns a) (hc_OwnerReferences c) \<Longrightarrow> P c \<Longrightarrow> saw e a h (own_chart a P)"
  by (erule saw_mono) (auto simp: own_chart_def)

lemma emits_deployHelmChart:
  assumes "ad_Enabled a" and "saw e a h no_chart"
    and "ad_Status a = AddonDeployed \<or> (ad_Status a = AddonDisabled \<or> ad_Status a = AddonInitState) \<and> in_progress a"
  shows "emits (addon_policy e a) (deployHelmChart e a) h"
  unfolding deployHelmChart_def
  by (intro emits_case_sum emits_return emits_let emits_request_bind) (use assms in \<open>auto simp: addon_policy_def\<close>)

lemma run_deployHelmChart:
  assumes "run_state (deployHelmChart e a) h = (Inr u, h')"
  shows "\<exists>vals. defaultValues a = Inr vals \<and> h' = h @ [HelmCreate (new_helm_chart a vals)]"
  using assms by (cases "defaultValues a") (auto simp: deployHelmChart_def Let_def split: sum.splits)

lemma emits_reconcileJob:
  assumes "ad_Enabled a" and "ad_Status a = AddonEnabling \<or> ad_Status a = AddonUpdating" and "\<not> failed a"
    and "saw e a h (\<lambda>r. r = Inr c)"
  shows "emits (addon_policy e a) (reconcileCurrentInstallationJob e c a AddonDeployed) h"
proof -
  have seen: "saw e a h (\<lambda>r. \<exists>hc j. r = Inr hc \<and> installed_by e a hc j \<and> P j)"
    if "currentInstallationJob e c a = Inr (j, True)" "isJobComplete j" "P j" for j P
    using assms(4) by (rule saw_mono) (use that in \<open>auto simp: installed_by_def\<close>)
  have success: "addon_transition e a h ((markCompletedCondition now b)\<lparr>ad_Status := AddonDeployed\<rparr>)"
    if "currentInstallationJob e c a = Inr (j, True)" "isJobComplete j" "hj_Succeeded j > 0"
      "b = a \<or> (\<exists>err. b = markErrorCondition now a err)" for j b now
    using addon_transition.deployed [OF assms(1-3) seen [OF that(1,2), of "\<lambda>j. hj_Succeeded j > 0"] that(4)] that(3) by simp
  have wrong: "addon_transition e a h (markErrorCondition now a err)"
    if "currentInstallationJob e c a = Inr (j, True)" "isJobComplete j" "hj_Failed j > 0" for j err now
    using addon_transition.deploy_failed [OF assms(1-3) seen [OF that(1,2), of "\<lambda>j. hj_Failed j > 0"]] that(3) by simp
  have neither: "addon_transition e a h a"
    if "currentInstallationJob e c a = Inr (j, True)" "isJobComplete j" "\<not> hj_Failed j > 0" "\<not> hj_Succeeded j > 0" for j
    using addon_transition.deploy_unknown [OF assms(1-3) seen [OF that(1,2), of "\<lambda>j. hj_Failed j \<le> 0 \<and> hj_Succeeded j \<le> 0"]] that(3,4)
    by simp
  show ?thesis
    unfolding reconcileCurrentInstallationJob_def
  proof (intro emits_case_sum emits_case_prod emits_if emits_return emits_enqueue emits_observe_bind emits_let emits_update_status, goal_cases)
    case (1 p j ok)
    then have job: "currentInstallationJob e c a = Inr (j, True)" "isJobComplete j" by auto
    show ?case
      using success [OF job] wrong [OF job] neither [OF job] by (cases "hj_Failed j > 0"; cases "hj_Succeeded j > 0") auto
  qed
qed

lemma emits_start_enable:
  assumes "ad_Enabled a" and "ad_Status a = AddonDisabled \<or> ad_Status a = AddonInitState" and "\<not> in_progress a"
    and "saw e a h no_chart \<or> saw e a h (own_chart a (\<lambda>hc. hc_DeletionTimestamp hc = None))"
  shows "emits (addon_policy e a) (do { now \<leftarrow> observe (addon_now e); addon_update_status e (markInProgressCondition now a) }) h"
proof -
  have "saw e a h (\<lambda>r. no_chart r \<or> own_chart a (\<lambda>hc. hc_DeletionTimestamp hc = None) r)"
    using assms(4) by (auto elim: saw_mono)
  then show ?thesis
    by (intro emits_observe_bind emits_update_status) (simp add: addon_transition.start_enable assms(1-3))
qed

lemma emits_deploying:
  assumes "ad_Enabled a" and "ad_Status a = AddonDisabled \<or> ad_Status a = AddonInitState" and "in_progress a"
    and "saw e a h (own_chart a (\<lambda>hc. hc_DeletionTimestamp hc = None)) \<or>
      saw e a h no_chart \<and> (\<exists>vals. defaultValues a = Inr vals \<and> HelmCreate (new_helm_chart a vals) \<in> set h)"
  shows "emits (addon_policy e a) (addon_update_status e (a\<lparr>ad_Status := AddonEnabling\<rparr>)) h"
  by (intro emits_update_status) (simp add: addon_transition.deploying assms)

lemma emits_deploy_new:
  assumes "ad_Enabled a" and "ad_Status a = AddonDisabled \<or> ad_Status a = AddonInitState" and "in_progress a"
    and "saw e a h no_chart"
  shows "emits (addon_policy e a) (do {
      r \<leftarrow> deployHelmChart e a;
      case r of Inl err \<Rightarrow> ret (Inl (errorf_v ''error deploying helmChart: '' err))
      | Inr _ \<Rightarrow> addon_update_status e (a\<lparr>ad_Status := AddonEnabling\<rparr>) }) h"
proof (rule emits_bind, goal_cases)
  case 1
  show ?case using assms by (intro emits_deployHelmChart) auto
next
  case (2 r h')
  show ?case
  proof (cases r)
    case (Inr u)
    then obtain vals where "defaultValues a = Inr vals" "h' = h @ [HelmCreate (new_helm_chart a vals)]"
      using run_deployHelmChart 2 by blast
    then have "emits (addon_policy e a) (addon_update_status e (a\<lparr>ad_Status := AddonEnabling\<rparr>)) h'"
      using saw_later [OF assms(4)] by (intro emits_deploying [OF assms(1-3)]) auto
    with Inr show ?thesis by simp
  qed (simp add: emits_return)
qed

lemma emits_processEnableAddon:
  assumes "ad_Enabled a" and "ad_Status a = AddonDisabled \<or> ad_Status a = AddonInitState"
  shows "emits (addon_policy e a) (processEnableAddon e a) h"
  unfolding processEnableAddon_def
proof (rule emits_getAddonHelmChart, goal_cases)
  case (1 h')
  then show ?case
    using emits_start_enable [OF assms, of e h'] emits_deploy_new [OF assms, of e h'] by simp
next
  case (2 c h')
  then have "saw e a h' (own_chart a (\<lambda>hc. hc_DeletionTimestamp hc = None))"
    if "list_ex (addon_owns a) (hc_OwnerReferences c)" "hc_DeletionTimestamp c = None"
    using that by (rule saw_own)
  then show ?case
    using emits_start_enable [OF assms, of e h'] emits_deploying [OF assms, of e h'] by (simp add: emits_enqueue)
qed

lemma emits_processEnablingAddon:
  assumes "ad_Enabled a" and "ad_Status a = AddonEnabling \<or> ad_Status a = AddonUpdating"
  shows "emits (addon_policy e a) (processEnablingAddon e a) h"
  unfolding processEnablingAddon_def
proof (rule emits_getAddonHelmChart, goal_cases)
  case (1 h')
  have "emits (addon_policy e a) (do { now \<leftarrow> observe (addon_now e);
      addon_update_status e ((markCompletedCondition now a)\<lparr>ad_Status := AddonDisabled\<rparr>) }) h'" if "\<not> failed a"
    by (intro emits_observe_bind emits_update_status) (simp add: addon_transition.chart_lost [OF assms that 1])
  then show ?case by (simp add: emits_return)
next
  case (2 c h')
  then show ?case using emits_reconcileJob [OF assms] by (simp add: emits_return)
qed

lemma isHelmchartUpdateNeeded_spec:
  "isHelmchartUpdateNeeded a c = Inr (needed, vals) \<Longrightarrow> needed = (\<not> matches_spec a c) \<and> defaultValues a = Inr vals"
  by (auto simp: isHelmchartUpdateNeeded_def matches_spec_def split: sum.splits)

lemma emits_upgrade_chart:
  assumes "ad_Enabled a" and "ad_Status a = AddonDeployed" and "in_progress a" and "defaultValues a = Inr vals"
    and "u = c\<lparr>hc_Chart := ad_Chart a, hc_Repo := ad_Repo a, hc_Version := ad_Version a, hc_ValuesContent := vals\<rparr>"
  shows "emits (addon_policy e a) (andthen (request (HelmUpdate u) (\<lambda>h. helm_Update e h u)) (\<lambda>_.
      if ad_Status a \<noteq> AddonUpdating \<and> in_progress a then addon_update_status e (a\<lparr>ad_Status := AddonUpdating\<rparr>)
      else ret (Inr (Some a)))) h"
proof -
  have m: "matches_spec a u" using assms(4,5) by (simp add: matches_spec_def)
  have "addon_transition e a (h @ [HelmUpdate u]) (a\<lparr>ad_Status := AddonUpdating\<rparr>)"
    by (rule addon_transition.updating [OF assms(1-3) _ m]) simp
  then show ?thesis
    using assms(1-3) m by (intro emits_request_andthen) (auto simp: addon_policy_def intro!: emits_update_status)
qed

lemma emits_processAddonUpgrades:
  assumes "ad_Enabled a" and "ad_Status a = AddonDeployed"
  shows "emits (addon_policy e a) (processAddonUpgrades e a) h"
  unfolding processAddonUpgrades_def
proof (rule emits_getAddonHelmChart, goal_cases)
  case (1 h')
  then have "emits (addon_policy e a) (andthen (deployHelmChart e a) (\<lambda>_. ret (Inr (Some a)))) h'"
    using assms by (intro emits_andthen emits_deployHelmChart emits_return) auto
  then show ?case by simp
next
  case (2 c h')
  have start: "emits (addon_policy e a) (do { now \<leftarrow> observe (addon_now e); addon_update_status e (markInProgressCondition now a) }) h'"
    if "\<not> in_progress a" "\<not> matches_spec a c"
  proof -
    have "saw e a h' (\<lambda>r. \<exists>hc. r = Inr hc \<and> \<not> matches_spec a hc)" using 2 that(2) by (auto elim: saw_mono)
    then show ?thesis
      by (intro emits_observe_bind emits_update_status) (simp add: addon_transition.start_update [OF assms that(1)])
  qed
  show ?case
    unfolding prod.case option.case
  proof (intro emits_case_sum emits_case_prod emits_if emits_return, goal_cases)
    case (1 p needed vals)
    then show ?case using start isHelmchartUpdateNeeded_spec by blast
  next
    case (2 p needed vals)
    then have "in_progress a" "defaultValues a = Inr vals" using assms(2) isHelmchartUpdateNeeded_spec [of a c needed vals] by auto
    from emits_upgrade_chart [OF assms this refl] show ?case
      by (intro emits_getAddonHelmChart) (simp_all add: emits_return Let_def)
  qed
qed

lemma emits_disable_owned_chart:
  assumes "\<not> ad_Enabled a" and "ad_Status a = AddonDisabling" and "saw e a h (\<lambda>r. r = Inr c)"
    and "list_ex (addon_owns a) (hc_OwnerReferences c)"
  shows "emits (addon_policy e a) (disable_owned_chart e a c) h"
proof -
  note own = saw_own [OF assms(3,4)]
  have success: "addon_transition e a h ((markCompletedCondition now b)\<lparr>ad_Status := AddonDisabled\<rparr>)"
    if "deleted_by e c j" "hj_Succeeded j > 0" "b = a \<or> (\<exists>err. b = markErrorCondition now a err)" for j b now
  proof -
    have "saw e a h (own_chart a (\<lambda>hc. \<exists>j. deleted_by e hc j \<and> hj_Succeeded j > 0))"
      using that(1,2) by (intro own) blast
    then have "saw e a h (\<lambda>r. no_chart r \<or> own_chart a (\<lambda>hc. \<exists>j. deleted_by e hc j \<and> hj_Succeeded j > 0) r)"
      by (rule saw_mono) simp
    then show ?thesis by (rule addon_transition.disabled [OF assms(1,2) _ that(3)])
  qed
  have wrong: "addon_transition e a h (markErrorCondition now a err)" if "deleted_by e c j" "hj_Failed j > 0" for j err now
  proof -
    have "saw e a h (own_chart a (\<lambda>hc. \<exists>j. deleted_by e hc j \<and> hj_Failed j > 0))" using that by (intro own) blast
    then show ?thesis by (intro addon_transition.disable_failed [OF assms(1,2)]) (auto elim: saw_mono)
  qed
  have neither: "addon_transition e a h a" if "deleted_by e c j" "\<not> hj_Failed j > 0" "\<not> hj_Succeeded j > 0" for j
  proof -
    have "saw e a h (own_chart a (\<lambda>hc. \<exists>j. deleted_by e hc j \<and> hj_Failed j \<le> 0 \<and> hj_Succeeded j \<le> 0))"
      using that by (intro own) auto
    then show ?thesis by (rule addon_transition.disable_unknown [OF assms(1,2)])
  qed
  have fresh: "saw e a h (own_chart a (\<lambda>hc. hc_Namespace hc = hc_Namespace c \<and> hc_Name hc = hc_Name c \<and> hc_DeletionTimestamp hc = None))"
    if "hc_DeletionTimestamp c = None" using that by (intro own) simp
  show ?thesis
    unfolding disable_owned_chart_def
  proof (intro emits_case_option emits_case_sum emits_case_prod emits_if emits_return emits_enqueue emits_observe_bind
      emits_let emits_request_bind emits_update_status, goal_cases)
    case 1
    then show ?case using assms(1,2) fresh by (simp add: addon_policy_def)
  next
    case (2 u)
    show ?case
      unfolding policy_status by (rule addon_transition.chart_deleted [OF assms(1,2), of "hc_Namespace c" "hc_Name c"]) simp
  next
    case (3 t p j ok)
    then have "deleted_by e c j" by (auto simp: deleted_by_def)
    then show ?case
      using success wrong neither by (cases "hj_Failed j > 0"; cases "hj_Succeeded j > 0") auto
  qed
qed

lemma emits_waitForAddonDisable:
  assumes "\<not> ad_Enabled a" and "ad_Status a = AddonDisabling"
  shows "emits (addon_policy e a) (waitForAddonDisable e a) h"
  unfolding waitForAddonDisable_def
proof (rule emits_getAddonHelmChart, goal_cases)
  case (1 h')
  then have "saw e a h' (\<lambda>r. no_chart r \<or> own_chart a (\<lambda>hc. \<exists>j. deleted_by e hc j \<and> hj_Succeeded j > 0) r)"
    by (rule saw_mono) simp
  from addon_transition.disabled [OF assms this] show ?case
    by (simp add: emits_observe_bind emits_update_status)
next
  case (2 c h')
  note seen = 2
  have stranger: "emits (addon_policy e a) (do { now \<leftarrow> observe (addon_now e);
      addon_update_status e (markErrorCondition now a err) }) h'"
    if "\<not> list_ex (addon_owns a) (hc_OwnerReferences c)" "\<not> failed a" for err
  proof -
    have "saw e a h' (\<lambda>r. (\<exists>hc. r = Inr hc \<and> \<not> list_ex (addon_owns a) (hc_OwnerReferences hc)) \<and> \<not> failed a \<or>
         own_chart a (\<lambda>hc. \<exists>j. deleted_by e hc j \<and> hj_Failed j > 0) r)"
      using 2 by (rule saw_mono) (use that in auto)
    from addon_transition.disable_failed [OF assms this] show ?thesis
      by (intro emits_observe_bind emits_update_status) simp
  qed
  show ?case
    unfolding prod.case option.case
  proof (intro emits_if emits_enqueue, goal_cases)
    case 1
    then show ?case by (intro stranger)
  next
    case 2
    then show ?case using seen by (intro emits_disable_owned_chart assms) simp_all
  qed
qed

lemma emits_MonitorAddonPerStatus: "emits (addon_policy e a) (MonitorAddonPerStatus e (Some a)) h"
proof -
  have "emits (addon_policy e a) (addon_update_status e (a\<lparr>ad_Status := AddonDisabling\<rparr>)) h"
    if "\<not> ad_Enabled a" "ad_Status a \<noteq> AddonDisabled" "ad_Status a \<noteq> AddonDisabling" "\<not> in_progress a"
    using addon_transition.disabling [OF that] by (intro emits_update_status) simp
  then show ?thesis
    using emits_processEnableAddon [of a e h] emits_processEnablingAddon [of a e h] emits_processAddonUpgrades [of a e h]
      emits_waitForAddonDisable [of a e h]
    unfolding MonitorAddonPerStatus_def processEnabledAddons_def processDisabledAddons_def option.case
    by (intro emits_if emits_return emits_enqueue) simp_all
qed

text \<open>
  C28. Every request of the addon controller is guarded: a chart is created only when the lookup has
  just found none, from the specification of an enabled addon; it is updated only to match the
  specification of a deployed addon; it is deleted only when the addon is being disabled and owns
  it; and every status write is one of the transitions of the status machine, so an addon becomes
  deployed only after the installation job of this operation has succeeded, and disabled only when
  the chart is gone or its deletion job has succeeded.
\<close>

theorem addon_requests_guarded:
  assumes "issued (MonitorAddonPerStatus e (Some a)) = pre @ c # post"
  shows "addon_policy e a pre c"
  by (rule emits_issued [OF emits_MonitorAddonPerStatus assms])

text \<open>Default values that were packaged as base64 in the annotation are read back unchanged.\<close>

lemma packaged_values:
  "ad_ValuesContent a = [] \<Longrightarrow> sget (ad_Annotations a) AddonValuesAnnotation = Some (EncodeToString vals) \<Longrightarrow> defaultValues a = Inr vals"
  by (simp add: defaultValues_def)

section \<open>Switching an addon on and off\<close>

text \<open>
  The controller with a server that keeps one addon and its chart, and a Helm controller whose jobs
  succeed.
\<close>

record addon_world =
  w_addon :: addon
  w_chart :: "helm_chart option"
  w_job :: "helm_job option"
  w_time :: time

fun apply_addon_call :: "addon_call \<Rightarrow> addon_world \<Rightarrow> addon_world" where
  "apply_addon_call (HelmCreate c) w = w\<lparr>w_chart := Some c\<rparr>"
| "apply_addon_call (HelmUpdate c) w = w\<lparr>w_chart := Some c\<rparr>"
| "apply_addon_call (HelmDelete ns n) w = w\<lparr>w_chart := map_option (\<lambda>c. c\<lparr>hc_DeletionTimestamp := Some (w_time w)\<rparr>) (w_chart w)\<rparr>"
| "apply_addon_call (AddonUpdateStatus u) w = w\<lparr>w_addon := u\<rparr>"
| "apply_addon_call _ w = w"

definition world_env :: "addon_env \<Rightarrow> addon_world \<Rightarrow> addon_env" where
  "world_env e w = e\<lparr>
     helm_Get := \<lambda>h ns n. (case w_chart (fold apply_addon_call h w) of None \<Rightarrow> Inl (ApiStatus NotFound ''not found'') | Some c \<Rightarrow> Inr c),
     helm_Create := \<lambda>h c. Inr c,
     helm_Update := \<lambda>h c. Inr c,
     helm_Delete := \<lambda>h ns n. Inr (),
     addons_UpdateStatus := \<lambda>h u. Inr u,
     helm_jobCache_Get := \<lambda>ns n. (case w_job w of None \<Rightarrow> Inl (ApiStatus NotFound ''not found'') | Some j \<Rightarrow> Inr j),
     addon_clock := \<lambda>h. w_time w\<rparr>"

definition reconcile_addon :: "addon_env \<Rightarrow> addon_world \<Rightarrow> addon_world" where
  "reconcile_addon e w = fold apply_addon_call (issued (MonitorAddonPerStatus (world_env e w) (Some (w_addon w)))) w"

definition succeeded_job :: "string \<Rightarrow> time \<Rightarrow> helm_job" where
  "succeeded_job name t = \<lparr>hj_Name = name, hj_CreationTimestamp = t, hj_CompletionTime = Some t, hj_Failed = 0, hj_Succeeded = 1, hj_Conditions = []\<rparr>"

text \<open>The Helm controller runs the job \<open>name\<close> of the chart to success at time \<open>t\<close>.\<close>

definition helm_runs :: "string \<Rightarrow> time \<Rightarrow> addon_world \<Rightarrow> addon_world" where
  "helm_runs name t w = w\<lparr>w_chart := map_option (\<lambda>c. c\<lparr>hc_JobName := name\<rparr>) (w_chart w), w_job := Some (succeeded_job name t), w_time := t\<rparr>"

lemma world_env_server [simp]:
  "helm_Get (world_env e w) h ns n =
     (case w_chart (fold apply_addon_call h w) of None \<Rightarrow> Inl (ApiStatus NotFound ''not found'') | Some c \<Rightarrow> Inr c)"
  "helm_Create (world_env e w) h c = Inr c" "helm_Update (world_env e w) h c = Inr c"
  "helm_Delete (world_env e w) h ns n = Inr ()" "addons_UpdateStatus (world_env e w) h u = Inr u"
  "helm_jobCache_Get (world_env e w) ns n = (case w_job w of None \<Rightarrow> Inl (ApiStatus NotFound ''not found'') | Some j \<Rightarrow> Inr j)"
  "addon_now (world_env e w) h = Format_RFC3339 (w_time w)"
  by (simp_all add: world_env_def addon_now_def)

lemma mark_spec [simp]:
  "ad_Enabled (markInProgressCondition now a) = ad_Enabled a" "ad_Enabled (markCompletedCondition now a) = ad_Enabled a"
  "ad_DeletionTimestamp (markInProgressCondition now a) = ad_DeletionTimestamp a"
  "ad_DeletionTimestamp (markCompletedCondition now a) = ad_DeletionTimestamp a"
  "defaultValues (markInProgressCondition now a) = defaultValues a" "defaultValues (markCompletedCondition now a) = defaultValues a"
  "new_helm_chart (markInProgressCondition now a) = new_helm_chart a"
  "addon_owns (markInProgressCondition now a) = addon_owns a" "addon_owns (markCompletedCondition now a) = addon_owns a"
  "matches_spec (markCompletedCondition now a) = matches_spec a" "matches_spec (markInProgressCondition now a) = matches_spec a"
  by (simp_all add: markInProgressCondition_def markCompletedCondition_def defaultValues_def new_helm_chart_def addon_owns_def
      matches_spec_def fun_eq_iff)

lemma status_spec [simp]:
  "defaultValues (a\<lparr>ad_Status := s\<rparr>) = defaultValues a" "new_helm_chart (a\<lparr>ad_Status := s\<rparr>) = new_helm_chart a"
  "addon_owns (a\<lparr>ad_Status := s\<rparr>) = addon_owns a" "matches_spec (a\<lparr>ad_Status := s\<rparr>) = matches_spec a"
  "defaultValues (a\<lparr>ad_Enabled := b\<rparr>) = defaultValues a" "addon_owns (a\<lparr>ad_Enabled := b\<rparr>) = addon_owns a"
  "addon_owns (a\<lparr>ad_Conditions := cs\<rparr>) = addon_owns a"
  by (simp_all add: defaultValues_def new_helm_chart_def addon_owns_def matches_spec_def fun_eq_iff)

lemma new_chart_owned [simp]: "list_ex (addon_owns a) (hc_OwnerReferences (new_helm_chart a vals))"
  by (simp add: new_helm_chart_def addon_owns_def)

lemma new_chart_matches: "defaultValues a = Inr vals \<Longrightarrow> matches_spec a (new_helm_chart a vals)"
  by (simp add: new_helm_chart_def matches_spec_def)

lemmas addon_run_defs = reconcile_addon_def MonitorAddonPerStatus_def processEnabledAddons_def processDisabledAddons_def
  getAddonHelmChart_def addon_update_status_def issued_def

lemma reconcile_start:
  assumes "ad_Enabled (w_addon w)" and "ad_DeletionTimestamp (w_addon w) = None"
    and "ad_Status (w_addon w) = AddonDisabled \<or> ad_Status (w_addon w) = AddonInitState"
    and "\<not> in_progress (w_addon w)" and "w_chart w = None"
  shows "reconcile_addon e w = w\<lparr>w_addon := markInProgressCondition (Format_RFC3339 (w_time w)) (w_addon w)\<rparr>"
  using assms by (simp add: addon_run_defs processEnableAddon_def)

lemma reconcile_deploy:
  assumes "ad_Enabled (w_addon w)" and "ad_DeletionTimestamp (w_addon w) = None"
    and "ad_Status (w_addon w) = AddonDisabled \<or> ad_Status (w_addon w) = AddonInitState"
    and "in_progress (w_addon w)" and "w_chart w = None" and "defaultValues (w_addon w) = Inr vals"
  shows "reconcile_addon e w =
    w\<lparr>w_addon := (w_addon w)\<lparr>ad_Status := AddonEnabling\<rparr>, w_chart := Some (new_helm_chart (w_addon w) vals)\<rparr>"
  using assms by (simp add: addon_run_defs processEnableAddon_def deployHelmChart_def Let_def)

lemma reconcile_installed:
  assumes "ad_Enabled (w_addon w)" and "ad_DeletionTimestamp (w_addon w) = None" and "ad_Status (w_addon w) = AddonEnabling"
    and "\<not> failed (w_addon w)" and "w_chart w = Some c" and "hc_JobName c \<noteq> []" and "w_job w = Some (succeeded_job name t)"
    and "Parse_RFC3339 (cond_GetLastUpdated AddonOperationInProgress (ad_Conditions (w_addon w))) = Inr since" and "since \<le> t"
  shows "reconcile_addon e w =
    w\<lparr>w_addon := (markCompletedCondition (Format_RFC3339 (w_time w)) (w_addon w))\<lparr>ad_Status := AddonDeployed\<rparr>\<rparr>"
  using assms
  by (auto simp: addon_run_defs processEnablingAddon_def reconcileCurrentInstallationJob_def currentInstallationJob_def
      getJob_def succeeded_job_def isJobComplete_def Let_def)

lemma reconcile_disabling:
  assumes "\<not> ad_Enabled (w_addon w)" and "ad_DeletionTimestamp (w_addon w) = None" and "ad_Status (w_addon w) = AddonDeployed"
    and "\<not> in_progress (w_addon w)"
  shows "reconcile_addon e w = w\<lparr>w_addon := (w_addon w)\<lparr>ad_Status := AddonDisabling\<rparr>\<rparr>"
  using assms by (simp add: addon_run_defs)

lemma reconcile_delete_chart:
  assumes "\<not> ad_Enabled (w_addon w)" and "ad_DeletionTimestamp (w_addon w) = None" and "ad_Status (w_addon w) = AddonDisabling"
    and "w_chart w = Some c" and "list_ex (addon_owns (w_addon w)) (hc_OwnerReferences c)" and "hc_DeletionTimestamp c = None"
  shows "reconcile_addon e w =
    w\<lparr>w_addon := (w_addon w)\<lparr>ad_Conditions := cond_True (Format_RFC3339 (w_time w)) AddonOperationInProgress (ad_Conditions (w_addon w))\<rparr>,
      w_chart := Some (c\<lparr>hc_DeletionTimestamp := Some (w_time w)\<rparr>)\<rparr>"
  using assms by (simp add: addon_run_defs waitForAddonDisable_def disable_owned_chart_def Let_def)

lemma reconcile_uninstalled:
  assumes "\<not> ad_Enabled (w_addon w)" and "ad_DeletionTimestamp (w_addon w) = None" and "ad_Status (w_addon w) = AddonDisabling"
    and "w_chart w = Some c" and "list_ex (addon_owns (w_addon w)) (hc_OwnerReferences c)" and "hc_DeletionTimestamp c = Some since"
    and "has_infix helmChartJobDeletePrefix (hc_JobName c)" and "hc_JobName c \<noteq> []" and "w_job w = Some (succeeded_job name t)" and "since \<le> t"
  shows "reconcile_addon e w =
    w\<lparr>w_addon := (markCompletedCondition (Format_RFC3339 (w_time w)) (w_addon w))\<lparr>ad_Status := AddonDisabled\<rparr>\<rparr>"
  using assms
  by (auto simp: addon_run_defs waitForAddonDisable_def disable_owned_chart_def currentDeletionJob_def getJob_def
      succeeded_job_def isJobComplete_def Let_def)

lemma in_progress_stamp:
  "cond_GetLastUpdated AddonOperationInProgress (ad_Conditions (markInProgressCondition now a)) = now"
  by (simp add: markInProgressCondition_def stamp_other stamp_True_same)

text \<open>
  C29. Switching an addon on and off again completes: after the addon has been enabled, two reconciles
  create its chart, and once the installation job has succeeded a third one reports the addon as
  deployed with a chart that matches its specification. After it has been disabled, two reconciles
  delete the chart, and once the deletion job has succeeded a third one reports the addon as disabled.
\<close>

theorem addon_on_and_off_completes:
  assumes "four_digit_year (w_time w)" and "ad_Enabled (w_addon w)" and "ad_DeletionTimestamp (w_addon w) = None"
    and "ad_Status (w_addon w) = AddonDisabled \<or> ad_Status (w_addon w) = AddonInitState"
    and "\<not> in_progress (w_addon w)" and "w_chart w = None" and "defaultValues (w_addon w) = Inr vals"
    and "w_time w \<le> t1" and "t1 \<le> t2" and "install \<noteq> []" and "has_infix helmChartJobDeletePrefix delete" and "delete \<noteq> []"
    and "on = reconcile_addon e (helm_runs install t1 (reconcile_addon e (reconcile_addon e w)))"
    and "switched = on\<lparr>w_addon := (w_addon on)\<lparr>ad_Enabled := False\<rparr>\<rparr>"
    and "off = reconcile_addon e (helm_runs delete t2 (reconcile_addon e (reconcile_addon e switched)))"
  shows "ad_Status (w_addon on) = AddonDeployed \<and> completed (w_addon on) \<and> \<not> in_progress (w_addon on) \<and>
    (\<exists>c. w_chart on = Some c \<and> matches_spec (w_addon on) c) \<and>
    ad_Status (w_addon off) = AddonDisabled \<and> completed (w_addon off) \<and> \<not> in_progress (w_addon off)"
proof -
  let ?a = "w_addon w"
  let ?a1 = "markInProgressCondition (Format_RFC3339 (w_time w)) ?a"
  let ?c = "new_helm_chart ?a vals"
  let ?a3 = "(markCompletedCondition (Format_RFC3339 t1) (?a1\<lparr>ad_Status := AddonEnabling\<rparr>))\<lparr>ad_Status := AddonDeployed\<rparr>"
  note marks = markInProgress_conds markCompleted_conds mark_frame
  have w1: "reconcile_addon e w = w\<lparr>w_addon := ?a1\<rparr>" using assms(2-6) by (rule reconcile_start)
  have w2: "reconcile_addon e (w\<lparr>w_addon := ?a1\<rparr>) = w\<lparr>w_addon := ?a1\<lparr>ad_Status := AddonEnabling\<rparr>, w_chart := Some ?c\<rparr>"
    using assms(2-7) by (subst reconcile_deploy) (simp_all add: marks)
  have since: "w_time w - w_time w mod nanos \<le> t1"
    using assms(8) pos_mod_sign [of nanos "w_time w"] by (simp add: nanos_def)
  have on: "on = w\<lparr>w_addon := ?a3, w_chart := Some (?c\<lparr>hc_JobName := install\<rparr>), w_job := Some (succeeded_job install t1), w_time := t1\<rparr>"
    using assms(2,3,10) since unfolding assms(13) w1 w2 helm_runs_def
    by (subst reconcile_installed [where since = "w_time w - w_time w mod nanos" and t = t1 and name = install and c = "?c\<lparr>hc_JobName := install\<rparr>"]) (simp_all add: marks in_progress_stamp Parse_Format_RFC3339 [OF assms(1)])
  have a3: "\<not> in_progress ?a3" "completed ?a3" using marks by simp_all
  have matches: "matches_spec ?a3 (?c\<lparr>hc_JobName := install\<rparr>)"
    using new_chart_matches [OF assms(7)] by (simp add: matches_spec_def)
  let ?a4 = "?a3\<lparr>ad_Enabled := False, ad_Status := AddonDisabling\<rparr>"
  let ?a5 = "?a4\<lparr>ad_Conditions := cond_True (Format_RFC3339 t1) AddonOperationInProgress (ad_Conditions ?a4)\<rparr>"
  have w4: "reconcile_addon e switched = switched\<lparr>w_addon := ?a4\<rparr>"
    using assms(3) a3 unfolding assms(14) on by (subst reconcile_disabling) simp_all
  have own: "list_ex (addon_owns ?a3) (hc_OwnerReferences ?c)" by simp
  have w5: "reconcile_addon e (switched\<lparr>w_addon := ?a4\<rparr>) =
      switched\<lparr>w_addon := ?a5, w_chart := Some (?c\<lparr>hc_JobName := install, hc_DeletionTimestamp := Some t1\<rparr>)\<rparr>"
    using assms(3) own unfolding assms(14) on by (subst reconcile_delete_chart [where c = "?c\<lparr>hc_JobName := install\<rparr>"]) (simp_all add: new_helm_chart_def)
  have "w_addon off = (markCompletedCondition (Format_RFC3339 t2) ?a5)\<lparr>ad_Status := AddonDisabled\<rparr>"
    using assms(3,9,11,12) own unfolding assms(15) w4 w5 helm_runs_def unfolding assms(14) on
    by (subst reconcile_uninstalled [where since = t1 and t = t2 and name = delete and
        c = "?c\<lparr>hc_JobName := delete, hc_DeletionTimestamp := Some t1\<rparr>"]) (simp_all)
  with on a3 matches show ?thesis using marks by simp
qed

section \<open>Concrete instances\<close>

definition plain_env :: addon_env where
  "plain_env = \<lparr>
     helm_Get = \<lambda>h ns n. Inl (ApiStatus NotFound ''not found''), helm_Create = \<lambda>h c. Inr c, helm_Update = \<lambda>h c. Inr c,
     helm_Delete = \<lambda>h ns n. Inr (), addons_Update = \<lambda>h a. Inr a, addons_UpdateStatus = \<lambda>h a. Inr a,
     addonCache_Get = \<lambda>ns n. Inl (ApiStatus NotFound ''not found''), helm_jobCache_Get = \<lambda>ns n. Inl (ApiStatus NotFound ''not found''),
     pvcCache_GetVolumeName = \<lambda>ns n. Inl (ApiStatus NotFound ''not found''), pvCache_Get = \<lambda>n. Inl (ApiStatus NotFound ''not found''),
     pvs_Update = \<lambda>h p. Inr p, apps_Update = \<lambda>h p. Inr p, addon_clock = \<lambda>h. 1735689600 * nanos\<rparr>"

definition sample_addon :: addon where
  "sample_addon = \<lparr>ad_Kind = ''Addon'', ad_APIVersion = ''harvesterhci.io/v1beta1'', ad_Namespace = ''harvester-system'',
     ad_Name = ''vm-import-controller'', ad_UID = ''u1'', ad_Labels = None,
     ad_Annotations = None, ad_DeletionTimestamp = None,
     ad_Repo = ''http://charts'', ad_Chart = ''harvester-vm-import-controller'', ad_Version = ''1.8.0'', ad_Enabled = True,
     ad_ValuesContent = ''replicas: 1'', ad_Status = AddonDisabled, ad_Conditions = []\<rparr>"

definition sample_world :: addon_world where
  "sample_world = \<lparr>w_addon = sample_addon, w_chart = None, w_job = None, w_time = 1735689600 * nanos\<rparr>"

theorem addon_requests_guarded_witness:
  "issued (MonitorAddonPerStatus plain_env (Some sample_addon)) =
     [HelmGet ''harvester-system'' ''vm-import-controller'', AddonUpdateStatus (markInProgressCondition ''2025-01-01T00:00:00Z'' sample_addon)] \<and>
   addon_policy plain_env sample_addon [HelmGet ''harvester-system'' ''vm-import-controller'']
     (AddonUpdateStatus (markInProgressCondition ''2025-01-01T00:00:00Z'' sample_addon))"
proof -
  have run: "issued (MonitorAddonPerStatus plain_env (Some sample_addon)) =
     [HelmGet ''harvester-system'' ''vm-import-controller'', AddonUpdateStatus (markInProgressCondition ''2025-01-01T00:00:00Z'' sample_addon)]"
    by code_simp
  with addon_requests_guarded [of plain_env sample_addon "[HelmGet ''harvester-system'' ''vm-import-controller'']" _ "[]"]
  show ?thesis by simp
qed

theorem addon_on_and_off_witness:
  "ad_Status (w_addon (reconcile_addon plain_env (helm_runs ''helm-install-x'' (1735689660 * nanos)
     (reconcile_addon plain_env (reconcile_addon plain_env sample_world))))) = AddonDeployed"
proof -
  have "four_digit_year (w_time sample_world)" "ad_Enabled (w_addon sample_world)" "ad_DeletionTimestamp (w_addon sample_world) = None"
    "ad_Status (w_addon sample_world) = AddonDisabled \<or> ad_Status (w_addon sample_world) = AddonInitState"
    "\<not> in_progress (w_addon sample_world)" "w_chart sample_world = None" "defaultValues (w_addon sample_world) = Inr ''replicas: 1''"
    "w_time sample_world \<le> 1735689660 * nanos" "1735689660 * nanos \<le> 1735689720 * nanos"
    "has_infix helmChartJobDeletePrefix ''helm-delete-x''"
    by code_simp+
  from addon_on_and_off_completes [where e = plain_env, OF this(1-9) _ this(10) _ refl refl refl, of "''helm-install-x''"]
  show ?thesis by simp
qed

end
