(* ===== verification/Admission.thy ===== *)
theory Admission
  imports Kube_Objects
begin

text \<open>
  What the admission webhooks share: the errors of \<^verbatim>\<open>pkg/webhook/error\<close>, a typed error whose type is
  the status reason, and helpers of \<^verbatim>\<open>fmt\<close> and \<^verbatim>\<open>sort\<close>.
\<close>

definition NewBadRequest :: "string \<Rightarrow> go_error" where
  "NewBadRequest message = TypedError ''BadRequest'' message"

definition NewConflict :: "string \<Rightarrow> go_error" where
  "NewConflict message = TypedError ''Conflict'' message"

definition NewInternalError :: "string \<Rightarrow> go_error" where
  "NewInternalError message = TypedError ''InternalError'' message"

definition NewInvalidError :: "string \<Rightarrow> string \<Rightarrow> go_error" where
  "NewInvalidError message field = TypedError (''Invalid:'' @ field) message"

text \<open>\<^verbatim>\<open>%v\<close> of a \<^verbatim>\<open>[]string\<close>.\<close>

definition fmt_strings :: "string list \<Rightarrow> string" where
  "fmt_strings xs = ''['' @ join '' '' xs @ '']''"

text \<open>A sequence of checks that stops at the first error.\<close>

fun checks :: "unit result list \<Rightarrow> unit result" where
  "checks [] = Inr ()"
| "checks (r # rs) = (case r of Inl err \<Rightarrow> Inl err | Inr _ \<Rightarrow> checks rs)"

lemma checks_ok_iff: "checks rs = Inr () \<longleftrightarrow> (\<forall>r \<in> set rs. r = Inr ())"
  by (induction rs) (auto split: sum.splits)

lemma checks_map_ok: "checks (map f xs) = Inr () \<longleftrightarrow> (\<forall>x \<in> set xs. f x = Inr ())"
  by (simp add: checks_ok_iff)

lemma checks_append: "checks (xs @ ys) = (case checks xs of Inl err \<Rightarrow> Inl err | Inr _ \<Rightarrow> checks ys)"
  by (induction xs) (auto split: sum.splits)

lemma checks_append_ok: "checks (xs @ ys) = Inr () \<longleftrightarrow> checks xs = Inr () \<and> checks ys = Inr ()"
  by (auto simp: checks_ok_iff)

lemma unit_result_iff: "r = Inr () \<longleftrightarrow> (\<forall>err. r \<noteq> Inl err)" for r :: "unit result"
  by (cases r) auto

end
