(* ===== verification/Addon_Webhook.thy ===== *)
theory Addon_Webhook
  imports Addon_Controller Admission
begin

text \<open>
  Admission of addon changes (\<^verbatim>\<open>pkg/webhook/resources/addon/validator.go\<close> and
  \<^verbatim>\<open>pkg/util/logging/logging.go\<close>), and the addon lifecycle that the webhook and the controller
  produce together. The caches and the clients are fields of the environment; the nested fields of
  an unstructured block device are what the accessors of the library return for it.
\<close>

section \<open>Objects and environment\<close>

record flow =
  flow_Namespace :: string
  flow_Name :: string
  flow_GlobalOutputRefs :: "string list"
  flow_LocalOutputRefs :: "string list"
  flow_LoggingRef :: string

record log_output =
  out_Name :: string
  out_LoggingRef :: string

record host_vm =
  hv_Namespace :: string
  hv_Name :: string
  hv_HostDevices :: "string list option"

record storage_class =
  sc_Name :: string
  sc_Provisioner :: string
  sc_Annotations :: smap

record volume_claim =
  pvc_Namespace :: string
  pvc_Name :: string
  pvc_StorageClassName :: "string option"
  pvc_Annotations :: smap

record snapshot_class =
  vsc_Name :: string
  vsc_Driver :: string
  vsc_Annotations :: smap

record volume_snapshot =
  vs_Namespace :: string
  vs_Name :: string
  vs_ClassName :: "string option"

record snapshot_content =
  vsct_Name :: string
  vsct_Driver :: string

record block_device =
  bd_Namespace :: string
  bd_Name :: string
  bd_provision :: "bool option result"
  bd_lvm :: "bool result"

record subnet =
  sn_Name :: string
  sn_Provider :: string
  sn_V4UsingIPs :: bool
  sn_V6UsingIPs :: bool

record addon_webhook_env =
  addonCache_List :: "addon list result"
  flowCache_List :: "string \<Rightarrow> flow list result"
  outputCache_List :: "string \<Rightarrow> log_output list result"
  clusterFlowCache_List :: "string \<Rightarrow> flow list result"
  clusterOutputCache_List :: "string \<Rightarrow> log_output list result"
  upgradeLogCache_List :: "string \<Rightarrow> (string \<times> string) list result"
  aw_nodeCount :: "nat result"
  aw_vmCache_List :: "host_vm list result"
  vgpuDevices :: "string list result"
  kubeovnSubnet :: "subnet list result option"
  scCache_List :: "storage_class list result"
  pvcCache_List :: "volume_claim list result"
  vsClassCache_List :: "snapshot_class list result"
  vsCache_List :: "volume_snapshot list result"
  vscCache_List :: "snapshot_content list result"
  blockDevices_List :: "block_device list result"
  aw_order :: "string list \<Rightarrow> string list"

definition HarvesterSystemNamespaceName :: string where "HarvesterSystemNamespaceName = ''harvester-system''"
definition RancherLoggingName :: string where "RancherLoggingName = ''rancher-logging''"
definition DeschedulerName :: string where "DeschedulerName = ''descheduler''"
definition PCIDevicesControllerName :: string where "PCIDevicesControllerName = ''pcidevices-controller''"
definition NvidiaDriverToolkitName :: string where "NvidiaDriverToolkitName = ''nvidia-driver-toolkit''"
definition HarvesterCSIDriverLVMName :: string where "HarvesterCSIDriverLVMName = ''harvester-csi-driver-lvm''"
definition KubeOVNOperatorName :: string where "KubeOVNOperatorName = ''kubeovn-operator''"
definition CSIProvisionerLVM :: string where "CSIProvisionerLVM = ''lvm.driver.harvesterhci.io''"
definition AddonExperimentalLabel :: string where "AddonExperimentalLabel = ''addon.harvesterhci.io/experimental''"
definition AnnotationSkipRancherLoggingAddonWebhookCheck :: string where
  "AnnotationSkipRancherLoggingAddonWebhookCheck = ''harvesterhci.io/skipRancherLoggingAddonWebhookCheck''"
definition AnnotationSkipDeschedulerAddonWebhookCheck :: string where
  "AnnotationSkipDeschedulerAddonWebhookCheck = ''harvesterhci.io/skipDeschedulerAddonWebhookCheck''"
definition AnnotationSkipPCIDevicesControllerAddonWebhookCheck :: string where
  "AnnotationSkipPCIDevicesControllerAddonWebhookCheck = ''harvesterhci.io/skipPCIDevicesControllerAddonWebhookCheck''"
definition AnnotationSkipNvidiaDriverToolkitAddonWebhookCheck :: string where
  "AnnotationSkipNvidiaDriverToolkitAddonWebhookCheck = ''harvesterhci.io/skipNvidiaDriverToolkitAddonWebhookCheck''"
definition AnnStorageProvisioner :: string where "AnnStorageProvisioner = ''volume.kubernetes.io/storage-provisioner''"
definition AnnBetaStorageProvisioner :: string where
  "AnnBetaStorageProvisioner = ''volume.beta.kubernetes.io/storage-provisioner''"
definition HelmReleaseNameAnnotation :: string where "HelmReleaseNameAnnotation = ''meta.helm.sh/release-name''"
definition HelmReleaseNamespaceAnnotation :: string where "HelmReleaseNamespaceAnnotation = ''meta.helm.sh/release-namespace''"

section \<open>Dangling log flows\<close>

definition getOutputs :: "log_output list \<Rightarrow> (string \<times> string) list" where
  "getOutputs outputList = fold (\<lambda>o1. AList.update (out_Name o1) (out_LoggingRef o1)) outputList []"

definition dangling_ref :: "string \<Rightarrow> string \<Rightarrow> flow \<Rightarrow> (string \<times> string) list \<Rightarrow> string \<Rightarrow> unit result" where
  "dangling_ref what missing f outputs ref =
     (case map_of outputs ref of
        None \<Rightarrow> Inl (ErrorString (what @ ref @ missing))
      | Some lr \<Rightarrow>
          if lr \<noteq> flow_LoggingRef f
          then Inl (ErrorString (what @ ref @ '', the LoggingRef is different '' @ flow_LoggingRef f @ '' '' @ lr))
          else Inr ())"

definition flowDangling :: "flow \<Rightarrow> (string \<times> string) list \<Rightarrow> unit result" where
  "flowDangling f outputs =
     (let name = flow_Namespace f @ ''/'' @ flow_Name f
      in checks (map (dangling_ref (''flow '' @ name @ '' has a GlobalOutputRefs '') '', the Output does not exist'' f outputs)
                   (flow_GlobalOutputRefs f) @
                 map (dangling_ref (''flow '' @ name @ '' has a LocalOutputRefs '') '', the output does not exist'' f outputs)
                   (flow_LocalOutputRefs f)))"

definition clusterFlowDangling :: "flow \<Rightarrow> (string \<times> string) list \<Rightarrow> unit result" where
  "clusterFlowDangling f outputs =
     checks (map (dangling_ref (''clusterFlow '' @ flow_Namespace f @ ''/'' @ flow_Name f @ '' has a GlobalOutputRefs '')
                    '', the ClusterOutput does not exist'' f outputs) (flow_GlobalOutputRefs f))"

definition FlowsDangling :: "addon_webhook_env \<Rightarrow> string \<Rightarrow> unit result" where
  "FlowsDangling v ns =
     (case flowCache_List v ns of
        Inl err \<Rightarrow> Inl err
      | Inr flowlist \<Rightarrow>
          if flowlist = [] then Inr ()
          else (case outputCache_List v ns of
                  Inl err \<Rightarrow> Inl err
                | Inr outputlist \<Rightarrow> checks (map (\<lambda>f. flowDangling f (getOutputs outputlist)) flowlist)))"

definition ClusterFlowsDangling :: "addon_webhook_env \<Rightarrow> string \<Rightarrow> unit result" where
  "ClusterFlowsDangling v ns =
     (case clusterFlowCache_List v ns of
        Inl err \<Rightarrow> Inl err
      | Inr flowlist \<Rightarrow>
          if flowlist = [] then Inr ()
          else (case clusterOutputCache_List v ns of
                  Inl err \<Rightarrow> Inl err
                | Inr outputlist \<Rightarrow> checks (map (\<lambda>f. clusterFlowDangling f (getOutputs outputlist)) flowlist)))"

section \<open>Checks of single addons\<close>

definition isUpgradeLogRunning :: "addon_webhook_env \<Rightarrow> (string option) result" where
  "isUpgradeLogRunning v =
     (case upgradeLogCache_List v HarvesterSystemNamespaceName of
        Inl err \<Rightarrow> Inl (NewBadRequest (''error list upgradeLog objects: '' @ err_text err))
      | Inr [] \<Rightarrow> Inr None
      | Inr ((ns, name) # _) \<Rightarrow> Inr (Some (ns @ ''/'' @ name)))"

definition validateEnableRancherLoggingAddon :: "addon_webhook_env \<Rightarrow> addon \<Rightarrow> unit result" where
  "validateEnableRancherLoggingAddon v newAddon =
     (case FlowsDangling v (ad_Namespace newAddon) of
        Inl err \<Rightarrow> Inl (NewBadRequest (err_text err @ '', fix or delete it before enabling addon''))
      | Inr _ \<Rightarrow>
          (case ClusterFlowsDangling v (ad_Namespace newAddon) of
             Inl err \<Rightarrow> Inl (NewBadRequest (err_text err @ '', fix or delete it before enabling addon''))
           | Inr _ \<Rightarrow>
               (case isUpgradeLogRunning v of
                  Inl err \<Rightarrow> Inl err
                | Inr (Some name) \<Rightarrow> Inl (NewBadRequest (RancherLoggingName @ '' addon cannot be enabled as upgradeLog '' @ name @
                    '' exists in the cluster, wait until the Harvester upgrade is finished or removed''))
                | Inr None \<Rightarrow> Inr ())))"

definition validateDisableRancherLoggingAddon :: "addon_webhook_env \<Rightarrow> addon \<Rightarrow> unit result" where
  "validateDisableRancherLoggingAddon v newAddon =
     (case isUpgradeLogRunning v of
        Inl err \<Rightarrow> Inl err
      | Inr (Some name) \<Rightarrow> Inl (NewBadRequest (RancherLoggingName @ '' addon cannot be disabled as upgradeLog '' @ name @
          '' exists in the cluster, wait until the Harvester upgrade is finished or removed''))
      | Inr None \<Rightarrow> Inr ())"

definition validateRancherLoggingAddonUpdate :: "addon_webhook_env \<Rightarrow> addon \<Rightarrow> addon \<Rightarrow> unit result" where
  "validateRancherLoggingAddonUpdate v newAddon oldAddon =
     (if ad_Enabled oldAddon = ad_Enabled newAddon then Inr ()
      else let skip = sval (ad_Annotations newAddon) AnnotationSkipRancherLoggingAddonWebhookCheck = ''true''
           in if ad_Enabled newAddon
              then (if skip then Inr () else validateEnableRancherLoggingAddon v newAddon)
              else if skip then Inr () else validateDisableRancherLoggingAddon v newAddon)"

definition validateDeschedulerAddon :: "addon_webhook_env \<Rightarrow> addon \<Rightarrow> unit result" where
  "validateDeschedulerAddon v newAddon =
     (case aw_nodeCount v of
        Inl err \<Rightarrow> Inl (NewBadRequest (''error listing nodes: '' @ err_text err))
      | Inr n \<Rightarrow>
          if n \<le> 1 then Inl (NewBadRequest ''descheduler addon cannot be enabled as not enough nodes exist in the cluster'')
          else Inr ())"

definition validateDeschedulerAddonUpdate :: "addon_webhook_env \<Rightarrow> addon \<Rightarrow> addon \<Rightarrow> unit result" where
  "validateDeschedulerAddonUpdate v newAddon oldAddon =
     (if \<not> ad_Enabled newAddon then Inr ()
      else if ad_Annotations newAddon \<noteq> None \<and>
              sval (ad_Annotations newAddon) AnnotationSkipDeschedulerAddonWebhookCheck = ''true'' then Inr ()
      else validateDeschedulerAddon v newAddon)"

definition isAddonBeingDisabled :: "addon \<Rightarrow> addon \<Rightarrow> bool" where
  "isAddonBeingDisabled newAddon oldAddon \<longleftrightarrow> ad_Enabled oldAddon \<and> \<not> ad_Enabled newAddon"

definition validatePCIDevicesControllerAddon :: "addon_webhook_env \<Rightarrow> unit result" where
  "validatePCIDevicesControllerAddon v =
     (case aw_vmCache_List v of
        Inl err \<Rightarrow> Inl (NewInternalError (''error listing virtual machines: '' @ err_text err))
      | Inr vms \<Rightarrow>
          let vmsWithDevices = map (\<lambda>m. hv_Namespace m @ ''/'' @ hv_Name m)
                (filter (\<lambda>m. case hv_HostDevices m of None \<Rightarrow> False | Some ds \<Rightarrow> 0 < length ds) vms)
          in if 0 < length vmsWithDevices
             then Inl (NewBadRequest (''pcidevices-controller addon cannot be disabled as the following VMs are using passthrough devices: '' @
                    fmt_strings vmsWithDevices))
             else Inr ())"

definition validatePCIDevicesControllerAddonUpdate :: "addon_webhook_env \<Rightarrow> addon \<Rightarrow> addon \<Rightarrow> unit result" where
  "validatePCIDevicesControllerAddonUpdate v newAddon oldAddon =
     (if \<not> isAddonBeingDisabled newAddon oldAddon then Inr ()
      else if ad_Annotations newAddon \<noteq> None \<and>
              sval (ad_Annotations newAddon) AnnotationSkipPCIDevicesControllerAddonWebhookCheck = ''true'' then Inr ()
      else validatePCIDevicesControllerAddon v)"

definition host_device_names :: "host_vm list \<Rightarrow> (string \<times> string) list" where
  "host_device_names vms =
     fold (\<lambda>m. fold (\<lambda>hd. AList.update hd (hv_Namespace m @ ''/'' @ hv_Name m)) (case hv_HostDevices m of None \<Rightarrow> [] | Some ds \<Rightarrow> ds)) vms []"

definition validateNvidiaDriverToolkitAddon :: "addon_webhook_env \<Rightarrow> unit result" where
  "validateNvidiaDriverToolkitAddon v =
     (case aw_vmCache_List v of
        Inl err \<Rightarrow> Inl (NewInternalError (''error listing virtual machines: '' @ err_text err))
      | Inr vms \<Rightarrow>
          let hostDeviceNames = host_device_names vms
          in if length hostDeviceNames = 0 then Inr ()
             else (case vgpuDevices v of
                     Inl err \<Rightarrow> Inl (NewInternalError (''error listing VGPUDevices: '' @ err_text err))
                   | Inr vgpuDeviceNames \<Rightarrow>
                       let vmsWithVGPU = map snd (filter (\<lambda>(devName, _). devName \<in> set vgpuDeviceNames)
                             (range_over (aw_order v) hostDeviceNames))
                       in if 0 < length vmsWithVGPU
                          then Inl (NewBadRequest (''nvidia-driver-toolkit addon cannot be disabled as the following VMs are using vGPU devices: '' @
                                 fmt_strings vmsWithVGPU))
                          else Inr ()))"

definition validateNvidiaDriverToolkitAddonUpdate :: "addon_webhook_env \<Rightarrow> addon \<Rightarrow> addon \<Rightarrow> unit result" where
  "validateNvidiaDriverToolkitAddonUpdate v newAddon oldAddon =
     (if \<not> isAddonBeingDisabled newAddon oldAddon then Inr ()
      else if ad_Annotations newAddon \<noteq> None \<and>
              sval (ad_Annotations newAddon) AnnotationSkipNvidiaDriverToolkitAddonWebhookCheck = ''true'' then Inr ()
      else validateNvidiaDriverToolkitAddon v)"

definition validateKubeOVNAddonUpdate :: "addon_webhook_env \<Rightarrow> addon \<Rightarrow> addon \<Rightarrow> unit result" where
  "validateKubeOVNAddonUpdate v newAddon oldAddon =
     (if \<not> isAddonBeingDisabled newAddon oldAddon then Inr ()
      else case kubeovnSubnet v of
        None \<Rightarrow> Inr ()
      | Some (Inl err) \<Rightarrow> Inl (NewInternalError (''failed to retrieve subnets err='' @ err_text err))
      | Some (Inr subnets) \<Rightarrow>
          checks (map (\<lambda>s. if sn_V4UsingIPs s \<or> sn_V6UsingIPs s
                     then Inl (NewBadRequest (''kubeovn-operator addon cannot be disabled as VMs attached to overlay network '' @
                       sn_Provider s @ '' in subnet '' @ sn_Name s @ '' are still in use, delete the VMs before disabling the addon''))
                     else Inr ()) subnets))"

section \<open>Disabling the LVM driver\<close>

definition isLVMAddonHelmManaged :: "smap \<Rightarrow> bool" where
  "isLVMAddonHelmManaged annotations \<longleftrightarrow>
     sval annotations HelmReleaseNameAnnotation = HarvesterCSIDriverLVMName \<and>
     sval annotations HelmReleaseNamespaceAnnotation = HarvesterSystemNamespaceName"

definition isLVMPersistentVolumeClaim :: "volume_claim \<Rightarrow> string list \<Rightarrow> bool" where
  "isLVMPersistentVolumeClaim pvc lvmStorageClasses =
     (if (case pvc_StorageClassName pvc of None \<Rightarrow> False | Some n \<Rightarrow> n \<in> set lvmStorageClasses) then True
      else if sval (pvc_Annotations pvc) AnnStorageProvisioner = CSIProvisionerLVM then True
      else sval (pvc_Annotations pvc) AnnBetaStorageProvisioner = CSIProvisionerLVM)"

definition objectNamespacedName :: "string \<Rightarrow> string \<Rightarrow> string" where
  "objectNamespacedName namespace name = (if namespace = [] then name else NamespacedName namespace name)"

definition getLVMStorageClasses :: "addon_webhook_env \<Rightarrow> (string list \<times> string list) result" where
  "getLVMStorageClasses v =
     (case scCache_List v of
        Inl err \<Rightarrow> Inl err
      | Inr storageClasses \<Rightarrow>
          let lvm = filter (\<lambda>sc. sc_Provisioner sc = CSIProvisionerLVM) storageClasses
          in Inr (map sc_Name lvm, sort (map sc_Name (filter (\<lambda>sc. \<not> isLVMAddonHelmManaged (sc_Annotations sc)) lvm))))"

definition getLVMPVCs :: "addon_webhook_env \<Rightarrow> string list \<Rightarrow> string list result" where
  "getLVMPVCs v lvmStorageClasses =
     (case pvcCache_List v of
        Inl err \<Rightarrow> Inl err
      | Inr pvcs \<Rightarrow>
          Inr (sort (map (\<lambda>p. objectNamespacedName (pvc_Namespace p) (pvc_Name p))
                 (filter (\<lambda>p. isLVMPersistentVolumeClaim p lvmStorageClasses) pvcs))))"

definition getLVMVolumeSnapshotClasses :: "addon_webhook_env \<Rightarrow> (string list \<times> string list) result" where
  "getLVMVolumeSnapshotClasses v =
     (case vsClassCache_List v of
        Inl err \<Rightarrow> Inl err
      | Inr classes \<Rightarrow>
          let lvm = filter (\<lambda>c. vsc_Driver c = CSIProvisionerLVM) classes
          in Inr (map vsc_Name lvm, sort (map vsc_Name (filter (\<lambda>c. \<not> isLVMAddonHelmManaged (vsc_Annotations c)) lvm))))"

definition getLVMVolumeSnapshots :: "addon_webhook_env \<Rightarrow> string list \<Rightarrow> string list result" where
  "getLVMVolumeSnapshots v lvmVolumeSnapshotClasses =
     (case vsCache_List v of
        Inl err \<Rightarrow> Inl err
      | Inr snapshots \<Rightarrow>
          Inr (sort (map (\<lambda>s. objectNamespacedName (vs_Namespace s) (vs_Name s))
                 (filter (\<lambda>s. case vs_ClassName s of None \<Rightarrow> False | Some n \<Rightarrow> n \<in> set lvmVolumeSnapshotClasses) snapshots))))"

definition getLVMVolumeSnapshotContents :: "addon_webhook_env \<Rightarrow> string list result" where
  "getLVMVolumeSnapshotContents v =
     (case vscCache_List v of
        Inl err \<Rightarrow> Inl err
      | Inr contents \<Rightarrow> Inr (sort (map vsct_Name (filter (\<lambda>c. vsct_Driver c = CSIProvisionerLVM) contents))))"

definition listBlockDevices :: "addon_webhook_env \<Rightarrow> block_device list result" where
  "listBlockDevices v =
     (case blockDevices_List v of
        Inl err \<Rightarrow>
          if is_not_found err \<or> (case err of NoKindMatch _ \<Rightarrow> True | _ \<Rightarrow> False) then Inr [] else Inl err
      | Inr items \<Rightarrow> Inr items)"

fun lvm_block_devices :: "block_device list \<Rightarrow> string list result" where
  "lvm_block_devices [] = Inr []"
| "lvm_block_devices (d # ds) =
     (case bd_provision d of
        Inl err \<Rightarrow> Inl err
      | Inr provisioned \<Rightarrow>
          if provisioned \<noteq> Some True then lvm_block_devices ds
          else (case bd_lvm d of
                  Inl err \<Rightarrow> Inl err
                | Inr found \<Rightarrow>
                    if \<not> found then lvm_block_devices ds
                    else (case lvm_block_devices ds of
                            Inl err \<Rightarrow> Inl err
                          | Inr names \<Rightarrow> Inr (objectNamespacedName (bd_Namespace d) (bd_Name d) # names))))"

definition getLVMBlockDevices :: "addon_webhook_env \<Rightarrow> string list result" where
  "getLVMBlockDevices v =
     (case listBlockDevices v of
        Inl err \<Rightarrow> Inl err
      | Inr devices \<Rightarrow> (case lvm_block_devices devices of Inl err \<Rightarrow> Inl err | Inr names \<Rightarrow> Inr (sort names)))"

definition formatLVMBlocker :: "string \<Rightarrow> string list \<Rightarrow> string" where
  "formatLVMBlocker kind names = kind @ '' '' @ fmt_strings names"

definition formatLVMAddonBlockersError :: "string list \<Rightarrow> string" where
  "formatLVMAddonBlockersError blockers =
     HarvesterCSIDriverLVMName @ '' addon cannot be disabled as LVM resources still exist: '' @ join ''; '' blockers @
     ''. Delete these resources before disabling the addon''"

definition toBlocker :: "string \<Rightarrow> string \<Rightarrow> string list result \<Rightarrow> string result" where
  "toBlocker kind listErr r =
     (case r of
        Inl err \<Rightarrow> Inl (NewInternalError (listErr @ '': '' @ err_text err))
      | Inr names \<Rightarrow> if length names = 0 then Inr [] else Inr (formatLVMBlocker kind names))"

text \<open>The six checks in order; the second and the fourth read what the first and the third found.\<close>

definition lvm_checks :: "addon_webhook_env \<Rightarrow> string result list" where
  "lvm_checks v =
     (let scs = getLVMStorageClasses v;
          vscs = getLVMVolumeSnapshotClasses v;
          storageClasses = (case scs of Inl _ \<Rightarrow> [] | Inr p \<Rightarrow> fst p);
          volumeSnapshotClasses = (case vscs of Inl _ \<Rightarrow> [] | Inr p \<Rightarrow> fst p)
      in [toBlocker ''StorageClass'' ''failed to list storage classes'' (map_sum id snd scs),
          toBlocker ''PersistentVolumeClaim'' ''failed to list persistent volume claims'' (getLVMPVCs v storageClasses),
          toBlocker ''VolumeSnapshotClass'' ''failed to list volume snapshot classes'' (map_sum id snd vscs),
          toBlocker ''VolumeSnapshot'' ''failed to list volume snapshots'' (getLVMVolumeSnapshots v volumeSnapshotClasses),
          toBlocker ''VolumeSnapshotContent'' ''failed to list volume snapshot contents'' (getLVMVolumeSnapshotContents v),
          toBlocker ''BlockDevice'' ''failed to list block devices'' (getLVMBlockDevices v)])"

definition validateDisableLVMAddon :: "addon_webhook_env \<Rightarrow> unit result" where
  "validateDisableLVMAddon v =
     (case map_result (\<lambda>check. check) (lvm_checks v) of
        Inl err \<Rightarrow> Inl err
      | Inr found \<Rightarrow>
          let blockers = filter (\<lambda>b. b \<noteq> []) found
          in if length blockers > 0 then Inl (NewBadRequest (formatLVMAddonBlockersError blockers)) else Inr ())"

definition validateLVMAddonUpdate :: "addon_webhook_env \<Rightarrow> addon \<Rightarrow> addon \<Rightarrow> unit result" where
  "validateLVMAddonUpdate v newAddon oldAddon =
     (if \<not> isAddonBeingDisabled newAddon oldAddon then Inr () else validateDisableLVMAddon v)"

section \<open>Entry points\<close>

definition validateNewAddon :: "addon_webhook_env \<Rightarrow> addon \<Rightarrow> unit result" where
  "validateNewAddon v newAddon =
     (case addonCache_List v of
        Inl err \<Rightarrow> Inl (NewInternalError (''cannot list addons, err: '' @ err_text err))
      | Inr addonList \<Rightarrow>
          checks (map (\<lambda>a. if ad_Chart a = ad_Chart newAddon
                     then Inl (NewConflict (''addon with Chart \"'' @ ad_Chart a @ ''\" has been created, cannot create a new one''))
                     else Inr ()) addonList))"

definition validateUpdatedAddon :: "addon_webhook_env \<Rightarrow> addon \<Rightarrow> addon \<Rightarrow> unit result" where
  "validateUpdatedAddon v newAddon oldAddon =
     (if ad_Chart newAddon \<noteq> ad_Chart oldAddon then Inl (NewBadRequest ''chart field cannot be changed.'')
      else if in_progress oldAddon
      then Inl (NewBadRequest (''cannot perform operation, as an existing operation is in progress on addon '' @ ad_Name oldAddon))
      else if ad_Name newAddon = RancherLoggingName then validateRancherLoggingAddonUpdate v newAddon oldAddon
      else if ad_Name newAddon = DeschedulerName then validateDeschedulerAddonUpdate v newAddon oldAddon
      else if ad_Name newAddon = PCIDevicesControllerName then validatePCIDevicesControllerAddonUpdate v newAddon oldAddon
      else if ad_Name newAddon = NvidiaDriverToolkitName then validateNvidiaDriverToolkitAddonUpdate v newAddon oldAddon
      else if ad_Name newAddon = KubeOVNOperatorName then validateKubeOVNAddonUpdate v newAddon oldAddon
      else if ad_Name newAddon = HarvesterCSIDriverLVMName then validateLVMAddonUpdate v newAddon oldAddon
      else Inr ())"

definition Create_addon :: "addon_webhook_env \<Rightarrow> addon \<Rightarrow> unit result" where
  "Create_addon v newAddon = validateNewAddon v newAddon"

definition Update_addon :: "addon_webhook_env \<Rightarrow> addon \<Rightarrow> addon \<Rightarrow> unit result" where
  "Update_addon v oldAddon newAddon = validateUpdatedAddon v newAddon oldAddon"

definition Delete_addon :: "addon \<Rightarrow> unit result" where
  "Delete_addon oldAddon =
     (if ad_Name oldAddon = KubeOVNOperatorName \<or> ad_Name oldAddon = RancherLoggingName \<or> ad_Name oldAddon = RancherMonitoringName \<or>
         sval (ad_Labels oldAddon) AddonExperimentalLabel \<noteq> ''true''
      then Inl (NewBadRequest (ad_Namespace oldAddon @ ''/'' @ ad_Name oldAddon @ '' addon cannot be deleted''))
      else Inr ())"

section \<open>What the webhook admits\<close>

text \<open>The specification, over the lists the caches return when they answer.\<close>

definition listed :: "'a list result \<Rightarrow> 'a list" where
  "listed r = (case r of Inl _ \<Rightarrow> [] | Inr xs \<Rightarrow> xs)"

definition answered :: "'a result \<Rightarrow> bool" where
  "answered r \<longleftrightarrow> (case r of Inl _ \<Rightarrow> False | Inr _ \<Rightarrow> True)"

lemma answered_listed: "answered r \<Longrightarrow> r = Inr (listed r)" for r :: "'a list result"
  by (cases r) (simp_all add: answered_def listed_def)

definition webhook_answered :: "addon_webhook_env \<Rightarrow> string \<Rightarrow> bool" where
  "webhook_answered v ns \<longleftrightarrow>
     answered (flowCache_List v ns) \<and> answered (outputCache_List v ns) \<and> answered (clusterFlowCache_List v ns) \<and>
     answered (clusterOutputCache_List v ns) \<and> answered (upgradeLogCache_List v HarvesterSystemNamespaceName) \<and>
     answered (aw_nodeCount v) \<and> answered (aw_vmCache_List v) \<and> answered (vgpuDevices v) \<and>
     (case kubeovnSubnet v of None \<Rightarrow> True | Some r \<Rightarrow> answered r) \<and> answered (scCache_List v) \<and> answered (pvcCache_List v) \<and>
     answered (vsClassCache_List v) \<and> answered (vsCache_List v) \<and> answered (vscCache_List v) \<and> answered (blockDevices_List v) \<and>
     list_all (\<lambda>d. answered (bd_provision d) \<and> answered (bd_lvm d)) (listed (blockDevices_List v)) \<and>
     (\<forall>ks. mset (aw_order v ks) = mset ks)"

definition flows_resolved :: "flow list \<Rightarrow> log_output list \<Rightarrow> (flow \<Rightarrow> string list) \<Rightarrow> bool" where
  "flows_resolved flows outputs refs \<longleftrightarrow>
     list_all (\<lambda>f. list_all (\<lambda>ref. map_of (rev (map (\<lambda>o1. (out_Name o1, out_LoggingRef o1)) outputs)) ref = Some (flow_LoggingRef f)) (refs f)) flows"

definition logging_safe :: "addon_webhook_env \<Rightarrow> addon \<Rightarrow> bool" where
  "logging_safe v a \<longleftrightarrow>
     listed (upgradeLogCache_List v HarvesterSystemNamespaceName) = [] \<and>
     (ad_Enabled a \<longrightarrow>
        flows_resolved (listed (flowCache_List v (ad_Namespace a))) (listed (outputCache_List v (ad_Namespace a)))
          (\<lambda>f. flow_GlobalOutputRefs f @ flow_LocalOutputRefs f) \<and>
        flows_resolved (listed (clusterFlowCache_List v (ad_Namespace a))) (listed (clusterOutputCache_List v (ad_Namespace a)))
          flow_GlobalOutputRefs)"

definition host_devices :: "addon_webhook_env \<Rightarrow> string list" where
  "host_devices v = concat (map (\<lambda>m. case hv_HostDevices m of None \<Rightarrow> [] | Some ds \<Rightarrow> ds) (listed (aw_vmCache_List v)))"

definition lvm_unused :: "addon_webhook_env \<Rightarrow> bool" where
  "lvm_unused v \<longleftrightarrow>
     (let scs = filter (\<lambda>sc. sc_Provisioner sc = CSIProvisionerLVM) (listed (scCache_List v));
          vscs = filter (\<lambda>c. vsc_Driver c = CSIProvisionerLVM) (listed (vsClassCache_List v))
      in list_all (\<lambda>sc. isLVMAddonHelmManaged (sc_Annotations sc)) scs \<and>
         list_all (\<lambda>p. \<not> isLVMPersistentVolumeClaim p (map sc_Name scs)) (listed (pvcCache_List v)) \<and>
         list_all (\<lambda>c. isLVMAddonHelmManaged (vsc_Annotations c)) vscs \<and>
         list_all (\<lambda>s. \<forall>n \<in> set (map vsc_Name vscs). vs_ClassName s \<noteq> Some n) (listed (vsCache_List v)) \<and>
         list_all (\<lambda>c. vsct_Driver c \<noteq> CSIProvisionerLVM) (listed (vscCache_List v)) \<and>
         list_all (\<lambda>d. \<not> (bd_provision d = Inr (Some True) \<and> bd_lvm d = Inr True)) (listed (blockDevices_List v)))"

definition subnets_unused :: "addon_webhook_env \<Rightarrow> bool" where
  "subnets_unused v =
     (case kubeovnSubnet v of
        Some (Inr subnets) \<Rightarrow> list_all (\<lambda>s. \<not> sn_V4UsingIPs s \<and> \<not> sn_V6UsingIPs s) subnets
      | _ \<Rightarrow> True)"

definition skips :: "string \<Rightarrow> addon \<Rightarrow> bool" where
  "skips k a \<longleftrightarrow> sval (ad_Annotations a) k = ''true''"

definition change_safe :: "addon_webhook_env \<Rightarrow> addon \<Rightarrow> addon \<Rightarrow> bool" where
  "change_safe v newAddon oldAddon \<longleftrightarrow>
     (let name = ad_Name newAddon; off = ad_Enabled oldAddon \<and> \<not> ad_Enabled newAddon
      in if name = RancherLoggingName
         then ad_Enabled oldAddon = ad_Enabled newAddon \<or> skips AnnotationSkipRancherLoggingAddonWebhookCheck newAddon \<or>
              logging_safe v newAddon
         else if name = DeschedulerName
         then \<not> ad_Enabled newAddon \<or> skips AnnotationSkipDeschedulerAddonWebhookCheck newAddon \<or>
              (case aw_nodeCount v of Inl _ \<Rightarrow> False | Inr n \<Rightarrow> 2 \<le> n)
         else if name = PCIDevicesControllerName
         then \<not> off \<or> skips AnnotationSkipPCIDevicesControllerAddonWebhookCheck newAddon \<or> host_devices v = []
         else if name = NvidiaDriverToolkitName
         then \<not> off \<or> skips AnnotationSkipNvidiaDriverToolkitAddonWebhookCheck newAddon \<or>
              set (host_devices v) \<inter> set (listed (vgpuDevices v)) = {}
         else if name = KubeOVNOperatorName
         then \<not> off \<or> subnets_unused v
         else if name = HarvesterCSIDriverLVMName then \<not> off \<or> lvm_unused v
         else True)"

lemma map_of_getOutputs:
  "map_of (getOutputs outputs) = map_of (rev (map (\<lambda>o1. (out_Name o1, out_LoggingRef o1)) outputs))"
proof -
  have "map_of (fold (\<lambda>o1. AList.update (out_Name o1) (out_LoggingRef o1)) os m) =
      map_of m ++ map_of (rev (map (\<lambda>o1. (out_Name o1, out_LoggingRef o1)) os))" for os m
    by (induction os arbitrary: m) (simp_all add: update_conv')
  from this [of outputs "[]"] show ?thesis by (simp add: getOutputs_def)
qed

lemma dangling_ref_ok: "dangling_ref what missing f outputs ref = Inr () \<longleftrightarrow> map_of outputs ref = Some (flow_LoggingRef f)"
  by (auto simp: dangling_ref_def split: option.splits)

lemma flowDangling_ok:
  "flowDangling f (getOutputs outputs) = Inr () \<longleftrightarrow> flows_resolved [f] outputs (\<lambda>f. flow_GlobalOutputRefs f @ flow_LocalOutputRefs f)"
  "clusterFlowDangling f (getOutputs outputs) = Inr () \<longleftrightarrow> flows_resolved [f] outputs flow_GlobalOutputRefs"
  by (simp_all add: flowDangling_def clusterFlowDangling_def Let_def checks_append_ok checks_map_ok dangling_ref_ok map_of_getOutputs
      flows_resolved_def list_all_iff ball_Un)

lemma flows_resolved_split: "flows_resolved flows outputs refs \<longleftrightarrow> (\<forall>f \<in> set flows. flows_resolved [f] outputs refs)"
  by (simp add: flows_resolved_def list_all_iff)

lemma FlowsDangling_ok:
  assumes "answered (flowCache_List v ns)" "answered (outputCache_List v ns)"
  shows "FlowsDangling v ns = Inr () \<longleftrightarrow>
    flows_resolved (listed (flowCache_List v ns)) (listed (outputCache_List v ns)) (\<lambda>f. flow_GlobalOutputRefs f @ flow_LocalOutputRefs f)"
  using assms flows_resolved_split [of "listed (flowCache_List v ns)"]
  by (cases "flowCache_List v ns"; cases "outputCache_List v ns")
    (simp_all add: FlowsDangling_def answered_def listed_def checks_map_ok flowDangling_ok)

lemma ClusterFlowsDangling_ok:
  assumes "answered (clusterFlowCache_List v ns)" "answered (clusterOutputCache_List v ns)"
  shows "ClusterFlowsDangling v ns = Inr () \<longleftrightarrow>
    flows_resolved (listed (clusterFlowCache_List v ns)) (listed (clusterOutputCache_List v ns)) flow_GlobalOutputRefs"
  using assms flows_resolved_split [of "listed (clusterFlowCache_List v ns)"]
  by (cases "clusterFlowCache_List v ns"; cases "clusterOutputCache_List v ns")
    (simp_all add: ClusterFlowsDangling_def answered_def listed_def checks_map_ok flowDangling_ok)

lemma validateEnableRancherLogging_ok:
  assumes "webhook_answered v (ad_Namespace a)" and "ad_Enabled a"
  shows "validateEnableRancherLoggingAddon v a = Inr () \<longleftrightarrow> logging_safe v a"
proof -
  have "FlowsDangling v (ad_Namespace a) = Inr () \<longleftrightarrow> flows_resolved (listed (flowCache_List v (ad_Namespace a)))
      (listed (outputCache_List v (ad_Namespace a))) (\<lambda>f. flow_GlobalOutputRefs f @ flow_LocalOutputRefs f)"
    "ClusterFlowsDangling v (ad_Namespace a) = Inr () \<longleftrightarrow> flows_resolved (listed (clusterFlowCache_List v (ad_Namespace a)))
      (listed (clusterOutputCache_List v (ad_Namespace a))) flow_GlobalOutputRefs"
    using assms(1) by (simp_all add: webhook_answered_def FlowsDangling_ok ClusterFlowsDangling_ok)
  moreover have "answered (upgradeLogCache_List v HarvesterSystemNamespaceName)" using assms(1) by (simp add: webhook_answered_def)
  ultimately show ?thesis
    using assms(2) unfolding logging_safe_def
    by (cases "upgradeLogCache_List v HarvesterSystemNamespaceName")
      (auto simp: validateEnableRancherLoggingAddon_def isUpgradeLogRunning_def answered_def listed_def split: sum.splits list.splits)
qed

lemma validateDisableRancherLogging_ok:
  assumes "webhook_answered v ns" and "\<not> ad_Enabled a"
  shows "validateDisableRancherLoggingAddon v a = Inr () \<longleftrightarrow> logging_safe v a"
proof -
  have "answered (upgradeLogCache_List v HarvesterSystemNamespaceName)" using assms(1) by (simp add: webhook_answered_def)
  then show ?thesis
    using assms(2) unfolding logging_safe_def
    by (cases "upgradeLogCache_List v HarvesterSystemNamespaceName")
      (auto simp: validateDisableRancherLoggingAddon_def isUpgradeLogRunning_def answered_def listed_def split: list.splits)
qed

lemma validatePCIDevices_ok:
  assumes "answered (aw_vmCache_List v)"
  shows "validatePCIDevicesControllerAddon v = Inr () \<longleftrightarrow> host_devices v = []"
  using assms
  by (cases "aw_vmCache_List v")
    (auto simp: validatePCIDevicesControllerAddon_def answered_def listed_def host_devices_def filter_empty_conv Let_def split: option.splits)

lemma host_device_names_keys:
  assumes "aw_vmCache_List v = Inr vms"
  shows "fst ` set (host_device_names vms) = set (host_devices v)" and "distinct (map fst (host_device_names vms))"
proof -
  have inner: "fst ` set (fold (\<lambda>hd. AList.update hd (r :: string)) ds m) = fst ` set m \<union> set ds" for r ds m
    by (induction ds arbitrary: m) (auto simp: dom_update)
  have "fst ` set (fold (\<lambda>m. fold (\<lambda>hd. AList.update hd (hv_Namespace m @ ''/'' @ hv_Name m)) (case hv_HostDevices m of None \<Rightarrow> [] | Some ds \<Rightarrow> ds)) ms acc)
      = fst ` set acc \<union> set (concat (map (\<lambda>m. case hv_HostDevices m of None \<Rightarrow> [] | Some ds \<Rightarrow> ds) ms))" for ms acc
    by (induction ms arbitrary: acc) (simp_all add: inner Un_assoc)
  from this [of vms "[]"] assms show "fst ` set (host_device_names vms) = set (host_devices v)"
    by (simp add: host_device_names_def host_devices_def listed_def)
  have d: "distinct (map fst (fold (\<lambda>hd. AList.update hd (r :: string)) ds m))" if "distinct (map fst m)" for r ds m
    using that by (induction ds arbitrary: m) (simp_all add: distinct_update)
  have "distinct (map fst (fold (\<lambda>m. fold (\<lambda>hd. AList.update hd (hv_Namespace m @ ''/'' @ hv_Name m)) (case hv_HostDevices m of None \<Rightarrow> [] | Some ds \<Rightarrow> ds)) ms acc))"
    if "distinct (map fst acc)" for ms acc
    using that by (induction ms arbitrary: acc) (simp_all add: d)
  from this [of "[]"] show "distinct (map fst (host_device_names vms))" by (simp add: host_device_names_def)
qed

lemma validateNvidia_ok:
  assumes "answered (aw_vmCache_List v)" and "answered (vgpuDevices v)" and "\<And>ks. mset (aw_order v ks) = mset ks"
  shows "validateNvidiaDriverToolkitAddon v = Inr () \<longleftrightarrow> set (host_devices v) \<inter> set (listed (vgpuDevices v)) = {}"
proof -
  obtain vms vgpus where v: "aw_vmCache_List v = Inr vms" "vgpuDevices v = Inr vgpus"
    using assms(1,2) by (auto simp: answered_def split: sum.splits)
  note keys = host_device_names_keys [OF v(1)]
  have "mset (range_over (aw_order v) (host_device_names vms)) = mset (host_device_names vms)"
    by (rule range_over_perm) (rule assms(3), rule keys(2))
  then have set: "set (range_over (aw_order v) (host_device_names vms)) = set (host_device_names vms)" by (rule mset_eq_setD)
  have "filter (\<lambda>(d, _). d \<in> set vgpus) (range_over (aw_order v) (host_device_names vms)) = [] \<longleftrightarrow>
      fst ` set (host_device_names vms) \<inter> set vgpus = {}"
    by (auto simp: filter_empty_conv set)
  moreover have "host_device_names vms = [] \<longleftrightarrow> set (host_devices v) = {}" using keys(1) by auto
  ultimately show ?thesis
    using v keys(1) by (simp add: validateNvidiaDriverToolkitAddon_def listed_def Let_def)
qed

lemma toBlocker_ok:
  assumes "kind \<noteq> []"
  shows "toBlocker kind msg r = Inr [] \<longleftrightarrow> r = Inr []"
  using assms by (cases r) (auto simp: toBlocker_def formatLVMBlocker_def)

lemma map_result_all_empty:
  "(\<exists>found. map_result (\<lambda>check. check) rs = Inr found \<and> filter (\<lambda>b. b \<noteq> []) found = []) \<longleftrightarrow> (\<forall>r \<in> set rs. r = Inr [])"
  for rs :: "string result list"
proof (induction rs)
  case (Cons r rs)
  show ?case
  proof (cases r)
    case (Inr y)
    have "(\<exists>found. map_result (\<lambda>check. check) (r # rs) = Inr found \<and> filter (\<lambda>b. b \<noteq> []) found = []) \<longleftrightarrow>
        y = [] \<and> (\<exists>found. map_result (\<lambda>check. check) rs = Inr found \<and> filter (\<lambda>b. b \<noteq> []) found = [])"
      using Inr by (cases "map_result (\<lambda>check. check) rs") auto
    then show ?thesis unfolding Cons using Inr by auto
  qed simp
qed simp

lemma validateDisableLVM_checks: "validateDisableLVMAddon v = Inr () \<longleftrightarrow> (\<forall>r \<in> set (lvm_checks v). r = Inr [])"
proof -
  have "validateDisableLVMAddon v = Inr () \<longleftrightarrow>
      (\<exists>found. map_result (\<lambda>check. check) (lvm_checks v) = Inr found \<and> filter (\<lambda>b. b \<noteq> []) found = [])"
    by (cases "map_result (\<lambda>check. check) (lvm_checks v)") (simp_all add: validateDisableLVMAddon_def Let_def)
  then show ?thesis by (simp only: map_result_all_empty)
qed

lemma lvm_block_devices_ok:
  assumes "list_all (\<lambda>d. answered (bd_provision d) \<and> answered (bd_lvm d)) ds"
  shows "lvm_block_devices ds = Inr [] \<longleftrightarrow> list_all (\<lambda>d. \<not> (bd_provision d = Inr (Some True) \<and> bd_lvm d = Inr True)) ds"
  using assms by (induction ds) (auto simp: answered_def split: sum.splits)

lemma sort_Nil_iff: "sort xs = [] \<longleftrightarrow> xs = []"
  by (metis mset_sort mset_zero_iff)

lemma validateDisableLVM_ok:
  assumes "webhook_answered v ns"
  shows "validateDisableLVMAddon v = Inr () \<longleftrightarrow> lvm_unused v"
proof -
  obtain scs pvcs vscs vss vscts bds where l: "scCache_List v = Inr scs" "pvcCache_List v = Inr pvcs" "vsClassCache_List v = Inr vscs"
    "vsCache_List v = Inr vss" "vscCache_List v = Inr vscts" "blockDevices_List v = Inr bds"
    using assms unfolding webhook_answered_def answered_def by (auto split: sum.splits)
  have "getLVMBlockDevices v = Inr [] \<longleftrightarrow> lvm_block_devices bds = Inr []"
    using l(6) by (auto simp: getLVMBlockDevices_def listBlockDevices_def sort_Nil_iff split: sum.splits)
  also have "\<dots> \<longleftrightarrow> list_all (\<lambda>d. \<not> (bd_provision d = Inr (Some True) \<and> bd_lvm d = Inr True)) bds"
    using assms l(6) by (intro lvm_block_devices_ok) (simp add: webhook_answered_def listed_def)
  finally have bd: "getLVMBlockDevices v = Inr [] \<longleftrightarrow> list_all (\<lambda>d. \<not> (bd_provision d = Inr (Some True) \<and> bd_lvm d = Inr True)) bds" .
  have vs: "getLVMVolumeSnapshots v names = Inr [] \<longleftrightarrow> list_all (\<lambda>s. \<forall>n \<in> set names. vs_ClassName s \<noteq> Some n) vss" for names
    using l(4) by (auto simp: getLVMVolumeSnapshots_def sort_Nil_iff filter_empty_conv list_all_iff split: option.splits)
  show ?thesis
    unfolding validateDisableLVM_checks lvm_unused_def Let_def
    using l by (simp add: lvm_checks_def toBlocker_ok getLVMStorageClasses_def getLVMVolumeSnapshotClasses_def getLVMPVCs_def
        getLVMVolumeSnapshotContents_def bd vs listed_def Let_def sort_Nil_iff filter_empty_conv list_all_iff) blast
qed

lemma validateKubeOVN_ok:
  assumes "webhook_answered v ns" and "isAddonBeingDisabled newAddon oldAddon"
  shows "validateKubeOVNAddonUpdate v newAddon oldAddon = Inr () \<longleftrightarrow>
    subnets_unused v"
proof -
  have "case kubeovnSubnet v of None \<Rightarrow> True | Some r \<Rightarrow> answered r" using assms(1) by (simp add: webhook_answered_def)
  then show ?thesis
    using assms(2)
    by (auto simp: validateKubeOVNAddonUpdate_def subnets_unused_def checks_map_ok list_all_iff answered_def split: option.splits sum.splits)
qed

text \<open>
  C31. When the caches answer, the webhook admits a change of an addon exactly when the chart stays the
  same, no operation is in progress on the addon, and the change is safe for what runs in the
  cluster: rancher-logging is not switched while an upgrade log exists or with dangling flows, the
  descheduler runs only with two nodes or more, the PCI and vGPU addons and the overlay network are
  not taken away from VMs that use them, and the LVM driver not from LVM resources.
\<close>

theorem addon_update_admitted_iff:
  assumes "webhook_answered v (ad_Namespace newAddon)"
  shows "validateUpdatedAddon v newAddon oldAddon = Inr () \<longleftrightarrow>
    ad_Chart newAddon = ad_Chart oldAddon \<and> \<not> in_progress oldAddon \<and> change_safe v newAddon oldAddon"
proof -
  have n: "answered (aw_nodeCount v)" "answered (aw_vmCache_List v)" "answered (vgpuDevices v)" "mset (aw_order v ks) = mset ks" for ks
    using assms by (simp_all add: webhook_answered_def)
  have logging: "validateRancherLoggingAddonUpdate v newAddon oldAddon = Inr () \<longleftrightarrow>
      ad_Enabled oldAddon = ad_Enabled newAddon \<or> skips AnnotationSkipRancherLoggingAddonWebhookCheck newAddon \<or> logging_safe v newAddon"
    using validateEnableRancherLogging_ok [OF assms] validateDisableRancherLogging_ok [OF assms]
    by (auto simp: validateRancherLoggingAddonUpdate_def skips_def Let_def)
  have "validateDeschedulerAddon v newAddon = Inr () \<longleftrightarrow> (case aw_nodeCount v of Inl _ \<Rightarrow> False | Inr n \<Rightarrow> 2 \<le> n)"
    using n(1) by (cases "aw_nodeCount v") (auto simp: validateDeschedulerAddon_def answered_def)
  then have desched: "validateDeschedulerAddonUpdate v newAddon oldAddon = Inr () \<longleftrightarrow>
      \<not> ad_Enabled newAddon \<or> skips AnnotationSkipDeschedulerAddonWebhookCheck newAddon \<or> (case aw_nodeCount v of Inl _ \<Rightarrow> False | Inr n \<Rightarrow> 2 \<le> n)"
    by (auto simp: validateDeschedulerAddonUpdate_def skips_def)
  have pci: "validatePCIDevicesControllerAddonUpdate v newAddon oldAddon = Inr () \<longleftrightarrow> \<not> isAddonBeingDisabled newAddon oldAddon \<or>
      skips AnnotationSkipPCIDevicesControllerAddonWebhookCheck newAddon \<or> host_devices v = []"
    using validatePCIDevices_ok [OF n(2)] by (auto simp: validatePCIDevicesControllerAddonUpdate_def skips_def)
  have nvidia: "validateNvidiaDriverToolkitAddonUpdate v newAddon oldAddon = Inr () \<longleftrightarrow> \<not> isAddonBeingDisabled newAddon oldAddon \<or>
      skips AnnotationSkipNvidiaDriverToolkitAddonWebhookCheck newAddon \<or> set (host_devices v) \<inter> set (listed (vgpuDevices v)) = {}"
    using validateNvidia_ok [OF n(2,3,4)] by (auto simp: validateNvidiaDriverToolkitAddonUpdate_def skips_def)
  have kubeovn: "validateKubeOVNAddonUpdate v newAddon oldAddon = Inr () \<longleftrightarrow> \<not> isAddonBeingDisabled newAddon oldAddon \<or>
      subnets_unused v"
    using validateKubeOVN_ok [OF assms, of newAddon oldAddon] by (cases "isAddonBeingDisabled newAddon oldAddon") (simp_all add: validateKubeOVNAddonUpdate_def)
  have lvm: "validateLVMAddonUpdate v newAddon oldAddon = Inr () \<longleftrightarrow> \<not> isAddonBeingDisabled newAddon oldAddon \<or> lvm_unused v"
    using validateDisableLVM_ok [OF assms] by (simp add: validateLVMAddonUpdate_def)
  show ?thesis
    unfolding change_safe_def Let_def isAddonBeingDisabled_def [symmetric]
    by (simp add: validateUpdatedAddon_def logging desched pci nvidia kubeovn lvm)
qed

section \<open>Lifecycle under the webhook and the controller\<close>

text \<open>
  One addon under any interleaving of reconciles, with arbitrary answers of the API servers, and of
  changes by users that the webhook admits. A change by a user does not touch the status, which is
  a subresource; a status write does not touch the rest.
\<close>

inductive addon_step :: "addon \<Rightarrow> addon \<Rightarrow> bool" where
  reconcile: "addon_step a u"
    if "AddonUpdateStatus u \<in> set (issued (MonitorAddonPerStatus e' (Some a)))"
| user: "addon_step a u"
    if "Update_addon v a u = Inr ()" "ad_Status u = ad_Status a" "ad_Conditions u = ad_Conditions a"
      "ad_Namespace u = ad_Namespace a" "ad_Name u = ad_Name a"

definition addon_states :: "string list" where
  "addon_states = [AddonInitState, AddonEnabling, AddonDeployed, AddonUpdating, AddonDisabling, AddonDisabled]"

definition addon_inv :: "string \<Rightarrow> addon \<Rightarrow> bool" where
  "addon_inv chart a \<longleftrightarrow>
     ad_Chart a = chart \<and> ad_Status a \<in> set addon_states \<and> \<not> (completed a \<and> failed a) \<and>
     (ad_Status a = AddonEnabling \<or> ad_Status a = AddonUpdating \<longrightarrow> in_progress a \<or> failed a)"

lemma mark_chart [simp]:
  "ad_Chart (markErrorCondition now a err) = ad_Chart a" "ad_Chart (markInProgressCondition now a) = ad_Chart a"
  "ad_Chart (markCompletedCondition now a) = ad_Chart a"
  by (simp_all add: markErrorCondition_def markInProgressCondition_def markCompletedCondition_def)

lemma addon_transition_inv:
  assumes "addon_transition e a pre u" and "addon_inv chart a"
  shows "addon_inv chart u"
  using assms(1)
proof cases
  case chart_deleted
  then show ?thesis using assms(2) by (simp add: addon_inv_def cond_simps)
qed (use assms(2) markError_conds markInProgress_conds markCompleted_conds in
    \<open>auto simp: addon_inv_def addon_states_def mark_frame\<close>)

lemma addon_step_inv:
  assumes "addon_step a u" and "addon_inv chart a"
  shows "addon_inv chart u"
  using assms(1)
proof cases
  case (reconcile e)
  then obtain pre post where "issued (MonitorAddonPerStatus e (Some a)) = pre @ AddonUpdateStatus u # post"
    by (meson split_list)
  then have "addon_transition e a pre u" using emits_issued [OF emits_MonitorAddonPerStatus] policy_status by blast
  then show ?thesis using assms(2) by (rule addon_transition_inv)
next
  case (user v)
  then have "ad_Chart u = ad_Chart a" by (auto simp: Update_addon_def validateUpdatedAddon_def split: if_splits)
  then show ?thesis using assms(2) user by (simp add: addon_inv_def)
qed

text \<open>
  C30. Whatever users and the controller do, an addon keeps its chart, its status stays one of the six
  states, it is never reported as completed and failed at once, and an addon that is being enabled
  or updated has an operation in progress or a failed one.
\<close>

theorem addon_lifecycle_invariant:
  assumes "addon_inv chart a" and "addon_step\<^sup>*\<^sup>* a u"
  shows "addon_inv chart u"
  using assms(2,1) by (induction) (blast intro: addon_step_inv)+

text \<open>
  A status update that fails after the chart has been updated leaves the addon deployed with an
  operation in progress. The chart then matches the specification, so the controller never touches
  the addon again, and the webhook rejects every change of the specification.
\<close>

definition wedged :: "addon \<Rightarrow> helm_chart \<Rightarrow> bool" where
  "wedged a c \<longleftrightarrow> ad_Enabled a \<and> ad_DeletionTimestamp a = None \<and> ad_Status a = AddonDeployed \<and> in_progress a \<and> matches_spec a c"

lemma wedged_idle:
  assumes "wedged a c" and "helm_Get e [] (ad_Namespace a) (ad_Name a) = Inr c"
  shows "issued (MonitorAddonPerStatus e (Some a)) = [HelmGet (ad_Namespace a) (ad_Name a)]"
  using assms
  by (auto simp: wedged_def MonitorAddonPerStatus_def processEnabledAddons_def processAddonUpgrades_def getAddonHelmChart_def
      issued_def isHelmchartUpdateNeeded_def matches_spec_def)

text \<open>
  C32. A status update that the API server rejects in the middle of an upgrade wedges the addon: the
  chart has been updated, the addon still says deployed with an operation in progress, and from
  there on the controller only looks at the chart while the webhook refuses every change of the
  addon, switching it off included.
\<close>

theorem interrupted_upgrade_wedges_addon:
  assumes "ad_Enabled a" and "ad_DeletionTimestamp a = None" and "ad_Status a = AddonDeployed" and "in_progress a"
    and "\<And>h. helm_Get e h (ad_Namespace a) (ad_Name a) = Inr c" and "\<not> matches_spec a c" and "defaultValues a = Inr vals"
    and "\<And>h u. helm_Update e h u = Inr u" and "\<And>h u. addons_UpdateStatus e h u = Inl (ApiStatus Conflict msg)"
    and "updated = c\<lparr>hc_Chart := ad_Chart a, hc_Repo := ad_Repo a, hc_Version := ad_Version a, hc_ValuesContent := vals\<rparr>"
    and "later = e\<lparr>helm_Get := \<lambda>h ns n. Inr updated\<rparr>"
  shows "HelmUpdate updated \<in> set (issued (MonitorAddonPerStatus e (Some a))) \<and>
    outcome (MonitorAddonPerStatus e (Some a)) = Inl (ApiStatus Conflict msg) \<and>
    issued (MonitorAddonPerStatus later (Some a)) = [HelmGet (ad_Namespace a) (ad_Name a)] \<and>
    (\<exists>err. Update_addon v a newAddon = Inl err)"
proof -
  have "isHelmchartUpdateNeeded a c = Inr (True, vals)"
    using assms(6,7) by (auto simp: isHelmchartUpdateNeeded_def matches_spec_def)
  then have run: "run_state (MonitorAddonPerStatus e (Some a)) [] =
      (Inl (ApiStatus Conflict msg), [HelmGet (ad_Namespace a) (ad_Name a), HelmGet (ad_Namespace a) (ad_Name a), HelmUpdate updated,
         AddonUpdateStatus (a\<lparr>ad_Status := AddonUpdating\<rparr>)])"
    using assms(1-5,8,9) unfolding assms(10)
    by (simp add: MonitorAddonPerStatus_def processEnabledAddons_def processAddonUpgrades_def getAddonHelmChart_def
        addon_update_status_def Let_def)
  have "wedged a updated"
    using assms(1-4,7) unfolding assms(10,11) by (simp add: wedged_def matches_spec_def)
  then have "issued (MonitorAddonPerStatus later (Some a)) = [HelmGet (ad_Namespace a) (ad_Name a)]"
    by (rule wedged_idle) (simp add: assms(11))
  moreover have "\<exists>err. Update_addon v a newAddon = Inl err" using assms(4) by (simp add: Update_addon_def validateUpdatedAddon_def)
  ultimately show ?thesis by (simp add: issued_def outcome_def run)
qed

text \<open>
  An addon that is enabled again while it is being disabled, e.g. because the deletion job has
  failed, is not processed any more, although the handler of new addons expects it.
\<close>

lemma reenabled_while_disabling_is_ignored:
  assumes "ad_Enabled a" and "ad_Status a = AddonDisabling"
  shows "issued (MonitorAddonPerStatus e (Some a)) = []"
  using assms by (simp add: MonitorAddonPerStatus_def processEnabledAddons_def issued_def)

section \<open>Concrete instances\<close>

definition sample_webhook :: addon_webhook_env where
  "sample_webhook = \<lparr>addonCache_List = Inr [], flowCache_List = \<lambda>ns. Inr [], outputCache_List = \<lambda>ns. Inr [],
     clusterFlowCache_List = \<lambda>ns. Inr [], clusterOutputCache_List = \<lambda>ns. Inr [], upgradeLogCache_List = \<lambda>ns. Inr [],
     aw_nodeCount = Inr 3, aw_vmCache_List = Inr [\<lparr>hv_Namespace = ''default'', hv_Name = ''vm1'', hv_HostDevices = Some [''gpu-1'']\<rparr>],
     vgpuDevices = Inr [''gpu-1''], kubeovnSubnet = None,
     scCache_List = Inr [\<lparr>sc_Name = ''lvm'', sc_Provisioner = CSIProvisionerLVM, sc_Annotations = None\<rparr>],
     pvcCache_List = Inr [], vsClassCache_List = Inr [], vsCache_List = Inr [], vscCache_List = Inr [], blockDevices_List = Inr [],
     aw_order = \<lambda>ks. ks\<rparr>"

definition named_addon :: "string \<Rightarrow> bool \<Rightarrow> addon" where
  "named_addon name b = sample_addon\<lparr>ad_Name := name, ad_Enabled := b\<rparr>"

text \<open>The driver with a storage class of its own stays on, the vGPU toolkit with a VM that uses it as well.\<close>

theorem addon_update_admitted_iff_witness:
  "webhook_answered sample_webhook ''harvester-system'' \<and>
   validateUpdatedAddon sample_webhook (named_addon HarvesterCSIDriverLVMName False) (named_addon HarvesterCSIDriverLVMName True) \<noteq> Inr () \<and>
   validateUpdatedAddon sample_webhook (named_addon NvidiaDriverToolkitName False) (named_addon NvidiaDriverToolkitName True) \<noteq> Inr () \<and>
   validateUpdatedAddon sample_webhook (named_addon DeschedulerName True) (named_addon DeschedulerName False) = Inr ()"
proof -
  have ok: "webhook_answered sample_webhook ''harvester-system''"
    by (simp add: webhook_answered_def answered_def sample_webhook_def listed_def)
  have ns: "ad_Namespace (named_addon n b) = ''harvester-system''" for n b by (simp add: named_addon_def sample_addon_def)
  note iff = addon_update_admitted_iff [of sample_webhook "named_addon n b" "named_addon n' b'" for n b n' b', unfolded ns, OF ok]
  have "\<not> change_safe sample_webhook (named_addon HarvesterCSIDriverLVMName False) (named_addon HarvesterCSIDriverLVMName True)"
    "\<not> change_safe sample_webhook (named_addon NvidiaDriverToolkitName False) (named_addon NvidiaDriverToolkitName True)"
    by code_simp+
  moreover have "change_safe sample_webhook (named_addon DeschedulerName True) (named_addon DeschedulerName False)"
    by (simp add: change_safe_def named_addon_def sample_webhook_def DeschedulerName_def RancherLoggingName_def)
  moreover have "ad_Chart (named_addon DeschedulerName True) = ad_Chart (named_addon DeschedulerName False)"
    "\<not> in_progress (named_addon DeschedulerName False)"
    by code_simp+
  ultimately show ?thesis using ok by (simp add: iff)
qed

theorem addon_lifecycle_invariant_witness:
  "addon_inv (ad_Chart sample_addon) (markInProgressCondition ''2025-01-01T00:00:00Z'' (sample_addon\<lparr>ad_Version := ''1.8.1''\<rparr>))"
proof -
  let ?b = "sample_addon\<lparr>ad_Version := ''1.8.1''\<rparr>"
  have "Update_addon sample_webhook sample_addon ?b = Inr ()" by code_simp
  then have user: "addon_step sample_addon ?b"
    by (rule addon_step.user) simp_all
  have "AddonUpdateStatus (markInProgressCondition ''2025-01-01T00:00:00Z'' ?b) \<in> set (issued (MonitorAddonPerStatus plain_env (Some ?b)))"
    by code_simp
  then have "addon_step ?b (markInProgressCondition ''2025-01-01T00:00:00Z'' ?b)"
    by (rule addon_step.reconcile)
  with user have steps: "addon_step\<^sup>*\<^sup>* sample_addon (markInProgressCondition ''2025-01-01T00:00:00Z'' ?b)" by auto
  have "addon_inv (ad_Chart sample_addon) sample_addon" by code_simp
  from addon_lifecycle_invariant [OF this steps] show ?thesis .
qed

definition upgrading_addon :: addon where
  "upgrading_addon = sample_addon\<lparr>ad_Status := AddonDeployed, ad_Conditions := cond_True ''2025-01-01T00:00:00Z'' AddonOperationInProgress []\<rparr>"

definition conflict_env :: addon_env where
  "conflict_env = plain_env\<lparr>helm_Get := \<lambda>h ns n. Inr ((new_helm_chart sample_addon ''replicas: 1'')\<lparr>hc_Version := ''1.7.0''\<rparr>),
     addons_UpdateStatus := \<lambda>h u. Inl (ApiStatus Conflict ''the object has been modified'')\<rparr>"

theorem interrupted_upgrade_wedges_addon_witness:
  "\<exists>err. Update_addon sample_webhook upgrading_addon (upgrading_addon\<lparr>ad_Enabled := False\<rparr>) = Inl err"
proof -
  have "in_progress upgrading_addon" "\<not> matches_spec upgrading_addon ((new_helm_chart sample_addon ''replicas: 1'')\<lparr>hc_Version := ''1.7.0''\<rparr>)"
    by code_simp+
  from interrupted_upgrade_wedges_addon [where e = conflict_env, OF _ _ _ this(1) _ this(2), of "''replicas: 1''" "''the object has been modified''" _ _ sample_webhook
      "upgrading_addon\<lparr>ad_Enabled := False\<rparr>", OF _ _ _ _ _ _ _ refl refl]
  show ?thesis
    by (simp add: upgrading_addon_def sample_addon_def conflict_env_def plain_env_def sample_webhook_def defaultValues_def)
qed

end
