(* ===== verification/VM_Backup.thy ===== *)
theory VM_Backup
  imports Kube_Objects
begin

text \<open>
  Backups of virtual machines: the objects of \<^verbatim>\<open>pkg/apis/harvesterhci.io/v1beta1/backup.go\<close> with the
  fields the modelled controllers use, the pure readers of \<^verbatim>\<open>pkg/backup/common/operator.go\<close> and
  the splitting of namespaced names (\<^verbatim>\<open>pkg/util/meta.go\<close>).
\<close>

abbreviation BackupType_Backup :: string where "BackupType_Backup \<equiv> ''backup''"
abbreviation BackupType_Snapshot :: string where "BackupType_Snapshot \<equiv> ''snapshot''"

record backup_error =
  be_Time :: "time option"
  be_Message :: "string option"

record volume_backup =
  vb_Name :: "string option"
  vb_VolumeName :: string
  vb_CSIDriverName :: string
  vb_LonghornBackupName :: "string option"
  vb_ReadyToUse :: "bool option"
  vb_Error :: "backup_error option"

record backup_target =
  bt_Endpoint :: string
  bt_BucketName :: string
  bt_BucketRegion :: string

record vmbackup_spec =
  bs_SourceKind :: string
  bs_SourceName :: string
  bs_Type :: string
  bs_FsFreezeDeadline :: "int option"

text \<open>The source of the status is the specification of the VM at the time of the backup; only its presence is read.\<close>

record vmbackup =
  bk_Namespace :: string
  bk_Name :: string
  bk_UID :: string
  bk_Labels :: smap
  bk_Annotations :: smap
  bk_CreationTimestamp :: time
  bk_DeletionTimestamp :: "time option"
  bk_Spec :: vmbackup_spec
  bk_SourceSpec :: "unit option"
  bk_VolumeBackups :: "volume_backup list option"
  bk_ReadyToUse :: "bool option"
  bk_Error :: "backup_error option"
  bk_BackupTarget :: "backup_target option"

definition IsReady :: "vmbackup \<Rightarrow> bool" where
  "IsReady b \<longleftrightarrow> bk_ReadyToUse b = Some True"

definition IsMissingStatus :: "vmbackup \<Rightarrow> bool" where
  "IsMissingStatus b \<longleftrightarrow> bk_SourceSpec b = None \<or> bk_VolumeBackups b = None"

definition GetVolBackups :: "vmbackup \<Rightarrow> volume_backup list" where
  "GetVolBackups b = (case bk_VolumeBackups b of None \<Rightarrow> [] | Some vbs \<Rightarrow> vbs)"

definition GetType :: "vmbackup \<Rightarrow> string" where
  "GetType b = bs_Type (bk_Spec b)"

section \<open>Namespaced names\<close>

definition hasPrefix :: "string \<Rightarrow> string \<Rightarrow> bool" where
  "hasPrefix s p \<longleftrightarrow> take (length p) s = p"

text \<open>\<^verbatim>\<open>strings.SplitN(s, sep, 2)\<close> for a one-character separator.\<close>

definition split_first :: "char \<Rightarrow> string \<Rightarrow> string \<times> string option" where
  "split_first c s =
     (case dropWhile (\<lambda>x. x \<noteq> c) s of [] \<Rightarrow> (s, None) | _ # rest \<Rightarrow> (takeWhile (\<lambda>x. x \<noteq> c) s, Some rest))"

definition SplitNamespacedName :: "string \<Rightarrow> string \<times> string \<times> bool" where
  "SplitNamespacedName s =
     (if s = [] \<or> hd s = CHR ''/'' \<or> last s = CHR ''/'' then ([], [], False)
      else (case split_first CHR ''/'' s of
              (a, None) \<Rightarrow> ([], a, True)
            | (a, Some b) \<Rightarrow> (a, b, True)))"

lemma SplitNamespacedName_NamespacedName:
  assumes "namespace \<noteq> []" and "name \<noteq> []" and "CHR ''/'' \<notin> set namespace" and "CHR ''/'' \<notin> set name"
  shows "SplitNamespacedName (NamespacedName namespace name) = (namespace, name, True)"
proof -
  have "takeWhile (\<lambda>x. x \<noteq> CHR ''/'') (namespace @ CHR ''/'' # name) = namespace"
    "dropWhile (\<lambda>x. x \<noteq> CHR ''/'') (namespace @ CHR ''/'' # name) = CHR ''/'' # name"
    using assms(3) by (subst takeWhile_append2 dropWhile_append2; auto)+
  moreover have "hd (namespace @ CHR ''/'' # name) \<noteq> CHR ''/''" "last (namespace @ CHR ''/'' # name) \<noteq> CHR ''/''"
    using assms by (auto simp: hd_append) (metis hd_in_set, metis last_in_set)
  ultimately show ?thesis using assms(1) by (simp add: SplitNamespacedName_def NamespacedName_def split_first_def)
qed

end
