(* ===== verification/Scheduled_Backup.thy ===== *)
theory Scheduled_Backup
  imports VM_Backup Conditions Go_Time
begin

text \<open>
  Scheduled backups (\<^verbatim>\<open>pkg/controller/master/schedulevmbackup\<close>, \<^verbatim>\<open>pkg/util/svmbackup.go\<close>). A schedule owns
  a cron job; each run of the cron job creates one backup of the VM, named after the time of the
  run. The controller suspends the schedule after too many failures in a row, deletes the oldest
  and failed backups beyond the number to retain, and suspends the schedule as well when the storage
  engine is still working on a backup that has already failed.

  Caches are read through the environment and may depend on the requests sent so far; the clock and
  the offset of the local time zone are part of the environment. \<^verbatim>\<open>sort.Slice\<close> leaves the order of
  equal elements open, so the sorted list is an answer of the environment as well.
\<close>

section \<open>Objects, requests and environment\<close>

record volume_backup_info =
  vbi_Name :: "string option"
  vbi_ReadyToUse :: "bool option"
  vbi_Error :: "backup_error option"

record vmbackup_info =
  bi_Name :: string
  bi_VolumeBackupInfo :: "volume_backup_info list option"
  bi_ReadyToUse :: "bool option"
  bi_Error :: "backup_error option"

record svmbackup =
  sv_Namespace :: string
  sv_Name :: string
  sv_UID :: string
  sv_ResourceVersion :: nat
  sv_Annotations :: smap
  sv_DeletionTimestamp :: "time option"
  sv_Cron :: string
  sv_Retain :: int
  sv_MaxFailure :: int
  sv_Suspend :: bool
  sv_VMBackupSpec :: vmbackup_spec
  sv_VMBackupInfo :: "vmbackup_info list option"
  sv_Failure :: int
  sv_Suspended :: bool
  sv_Conditions :: "condition list"

record cronjob =
  cj_Namespace :: string
  cj_Name :: string
  cj_Annotations :: smap
  cj_DeletionTimestamp :: "time option"
  cj_Schedule :: string
  cj_ConcurrencyPolicy :: string
  cj_Suspend :: "bool option"
  cj_BackoffLimit :: int
  cj_Image :: string
  cj_Command :: "string list"
  cj_Args :: "string list"
  cj_RestartPolicy :: string
  cj_LastScheduleTime :: "time option"

record lhbackup =
  lh_Namespace :: string
  lh_Name :: string
  lh_DeletionTimestamp :: "time option"
  lh_SnapshotName :: string
  lh_State :: string

record controller_ref = owner_ref +
  or_Controller :: "bool option"

record volume_snapshot =
  vs_Namespace :: string
  vs_Name :: string
  vs_OwnerReferences :: "controller_ref list"

datatype sv_call =
    CronJobCreate cronjob
  | CronJobUpdate cronjob
  | CronJobDelete string string
  | BackupCreate vmbackup
  | BackupUpdate vmbackup
  | BackupDelete string string
  | ScheduleUpdate svmbackup
  | ScheduleEnqueue string string
  | ScheduleEnqueueAfter string string int
  | LHBackupDelete string string

record sv_env =
  cronJobCache_Get :: "sv_call list \<Rightarrow> string \<Rightarrow> string \<Rightarrow> cronjob result"
  cronJobs_Create :: "sv_call list \<Rightarrow> cronjob \<Rightarrow> cronjob result"
  cronJobs_Update :: "sv_call list \<Rightarrow> cronjob \<Rightarrow> cronjob result"
  cronJobs_Delete :: "sv_call list \<Rightarrow> string \<Rightarrow> string \<Rightarrow> unit result"
  vmBackupCache_Get :: "sv_call list \<Rightarrow> string \<Rightarrow> string \<Rightarrow> vmbackup result"
  vmBackupCache_List :: "sv_call list \<Rightarrow> string \<Rightarrow> vmbackup list result"
  vmBackups_Create :: "sv_call list \<Rightarrow> vmbackup \<Rightarrow> vmbackup result"
  vmBackups_Update :: "sv_call list \<Rightarrow> vmbackup \<Rightarrow> vmbackup result"
  vmBackups_Delete :: "sv_call list \<Rightarrow> string \<Rightarrow> string \<Rightarrow> unit result"
  svmbackupCache_Get :: "sv_call list \<Rightarrow> string \<Rightarrow> string \<Rightarrow> svmbackup result"
  svmbackups_Update :: "sv_call list \<Rightarrow> svmbackup \<Rightarrow> svmbackup result"
  lhbackupCache_Get :: "sv_call list \<Rightarrow> string \<Rightarrow> string \<Rightarrow> lhbackup result"
  lhbackups_Delete :: "sv_call list \<Rightarrow> string \<Rightarrow> string \<Rightarrow> unit result"
  snapshotContentCache_GetRef :: "string \<Rightarrow> (string \<times> string) result"
  snapshotCache_Get :: "string \<Rightarrow> string \<Rightarrow> volume_snapshot result"
  FetchImage :: "string result"
  sv_clock :: "sv_call list \<Rightarrow> time"
  local_offset :: "time \<Rightarrow> int"
  sort_Slice :: "vmbackup list \<Rightarrow> vmbackup list"

abbreviation reachMaxFailure :: string where "reachMaxFailure \<equiv> ''Reach Max Failure''"
abbreviation proactiveSuspend :: string where "proactiveSuspend \<equiv> ''Proactive Schedule Suspend''"
abbreviation lhbackupNotSync :: string where "lhbackupNotSync \<equiv> ''Longhorn Backup Not Synced''"
abbreviation svmbackupPrefix :: string where "svmbackupPrefix \<equiv> ''svmb''"
abbreviation cronJobNamespace :: string where "cronJobNamespace \<equiv> ''harvester-system''"
abbreviation BackupSuspend :: string where "BackupSuspend \<equiv> ''BackupSuspend''"
abbreviation LonghornSystemNamespaceName :: string where "LonghornSystemNamespaceName \<equiv> ''longhorn-system''"

definition updateInterval :: int where "updateInterval = 5 * nanos"
definition reconcileInterval :: int where "reconcileInterval = 5 * nanos"
definition cronJobBackoffLimit :: int where "cronJobBackoffLimit = 3"
definition cronJobCmd :: string where "cronJobCmd = ''sleep''"
definition cronJobArg :: string where "cronJobArg = ''10''"

definition AnnotationSVMBackupID :: string where
  [key_defs]: "AnnotationSVMBackupID = ''harvesterhci.io/svmbackupId''"
definition AnnotationSVMBackupSkipCronCheck :: string where
  [key_defs]: "AnnotationSVMBackupSkipCronCheck = ''harvesterhci.io/svmbackupSkipCronCheck''"
definition LabelSVMBackupUID :: string where
  [key_defs]: "LabelSVMBackupUID = ''harvesterhci.io/svmbackupUID''"
definition LabelSVMBackupTimestamp :: string where
  [key_defs]: "LabelSVMBackupTimestamp = ''harvesterhci.io/svmbackupTimestamp''"

section \<open>Names and lists of backups\<close>

definition cronJobName :: "svmbackup \<Rightarrow> string" where
  "cronJobName s = svmbackupPrefix @ ''-'' @ sv_UID s"

definition getCronJob :: "sv_env \<Rightarrow> svmbackup \<Rightarrow> (sv_call, cronjob result) act" where
  "getCronJob e s = observe (\<lambda>h. cronJobCache_Get e h cronJobNamespace (cronJobName s))"

definition vmBackupName :: "svmbackup \<Rightarrow> string \<Rightarrow> string" where
  "vmBackupName s timestamp = svmbackupPrefix @ ''-'' @ sv_UID s @ ''-'' @ timestamp"

definition getVMBackup :: "sv_env \<Rightarrow> svmbackup \<Rightarrow> string \<Rightarrow> (sv_call, vmbackup result) act" where
  "getVMBackup e s timestamp = observe (\<lambda>h. vmBackupCache_Get e h (sv_Namespace s) (vmBackupName s timestamp))"

definition backup_time :: "vmbackup \<Rightarrow> time" where
  "backup_time b = Parse_minutes (sval (bk_Labels b) LabelSVMBackupTimestamp)"

text \<open>One iteration of the loop over the sorted backups: failed backups so far, last backup, failures in a row.\<close>

definition count_backup :: "vmbackup \<Rightarrow> vmbackup list \<times> vmbackup option \<times> int \<Rightarrow> vmbackup list \<times> vmbackup option \<times> int" where
  "count_backup b acc =
     (case acc of (errs, _, failure) \<Rightarrow>
        if IsMissingStatus b then (errs, Some b, failure)
        else let (errs', failure') = (if bk_Error b \<noteq> None then (errs @ [b], failure + 1) else (errs, failure));
                 failure'' = (if IsReady b then 0 else failure')
             in (errs', Some b, failure''))"

definition currentVMBackups ::
  "sv_env \<Rightarrow> svmbackup \<Rightarrow> (sv_call, (vmbackup list \<times> vmbackup list \<times> vmbackup option \<times> int) result) act" where
  "currentVMBackups e s =
     andthen (observe (\<lambda>h. vmBackupCache_List e h (sv_Namespace s))) (\<lambda>all.
       let vmbackups = sort_Slice e (filter (\<lambda>b. sget (bk_Labels b) LabelSVMBackupUID = Some (sv_UID s)) all)
       in ret (Inr (vmbackups, fold count_backup vmbackups ([], None, 0))))"

definition new_vmbackup :: "svmbackup \<Rightarrow> string \<Rightarrow> vmbackup" where
  "new_vmbackup s timestamp =
     \<lparr>bk_Namespace = sv_Namespace s, bk_Name = vmBackupName s timestamp, bk_UID = [],
      bk_Labels = Some [(LabelSVMBackupUID, sv_UID s), (LabelSVMBackupTimestamp, timestamp)],
      bk_Annotations = Some [(AnnotationSVMBackupID, NamespacedName (sv_Namespace s) (sv_Name s))],
      bk_CreationTimestamp = zero_time, bk_DeletionTimestamp = None, bk_Spec = sv_VMBackupSpec s,
      bk_SourceSpec = None, bk_VolumeBackups = None, bk_ReadyToUse = None, bk_Error = None, bk_BackupTarget = None\<rparr>"

definition createVMBackup :: "sv_env \<Rightarrow> svmbackup \<Rightarrow> string \<Rightarrow> (sv_call, vmbackup result) act" where
  "createVMBackup e s timestamp =
     request (BackupCreate (new_vmbackup s timestamp)) (\<lambda>h. vmBackups_Create e h (new_vmbackup s timestamp))"

definition cleanseVMBackup :: "sv_env \<Rightarrow> vmbackup \<Rightarrow> (sv_call, unit result) act" where
  "cleanseVMBackup e b =
     request (BackupDelete (bk_Namespace b) (bk_Name b)) (\<lambda>h. vmBackups_Delete e h (bk_Namespace b) (bk_Name b))"

section \<open>Garbage collection\<close>

text \<open>\<^verbatim>\<open>multierr.Append\<close>: nil errors vanish, texts are joined.\<close>

definition multierr_Append :: "go_error option \<Rightarrow> go_error option \<Rightarrow> go_error option" where
  "multierr_Append a b =
     (case (a, b) of (None, _) \<Rightarrow> b | (_, None) \<Rightarrow> a | (Some x, Some y) \<Rightarrow> Some (ErrorString (err_text x @ ''; '' @ err_text y)))"

fun clear_loop :: "sv_env \<Rightarrow> vmbackup list \<Rightarrow> int \<Rightarrow> string list \<Rightarrow> go_error option \<Rightarrow>
    (sv_call, int \<times> string list \<times> go_error option) act" where
  "clear_loop e [] left cleared errs = ret (left, cleared, errs)"
| "clear_loop e (b # bs) left cleared errs =
     (if left \<le> 0 then ret (left, cleared, errs)
      else if bk_Name b \<in> set cleared then clear_loop e bs left cleared errs
      else do {
        r \<leftarrow> cleanseVMBackup e b;
        clear_loop e bs (left - 1) (bk_Name b # cleared)
          (case r of Inr _ \<Rightarrow> errs | Inl err \<Rightarrow> multierr_Append errs (Some err)) })"

definition clearVMBackups :: "sv_env \<Rightarrow> vmbackup list \<Rightarrow> int \<Rightarrow> string list \<Rightarrow> (sv_call, int \<times> string list \<times> go_error option) act" where
  "clearVMBackups e vmbackups target oldCleared = clear_loop e vmbackups target oldCleared None"

text \<open>The results of \<^verbatim>\<open>multierr.Append\<close> are dropped, so the errors of the deletions are lost.\<close>

definition gcVMBackups :: "sv_env \<Rightarrow> svmbackup \<Rightarrow> (sv_call, unit result) act" where
  "gcVMBackups e s =
     andthen (currentVMBackups e s) (\<lambda>(vmBackups, errVMBackups, lastVMBackup, _).
       case lastVMBackup of
         None \<Rightarrow> ret (Inr ())
       | Some l \<Rightarrow>
           if \<not> IsReady l \<and> bk_Error l = None then do {
             _ \<leftarrow> request (ScheduleEnqueueAfter (sv_Namespace s) (sv_Name s) updateInterval) (\<lambda>h. ());
             ret (Inr ()) }
           else if bk_Error l \<noteq> None then ret (Inr ())
           else do {
             (left, cleared, err) \<leftarrow> clearVMBackups e errVMBackups (int (length vmBackups) - sv_Retain s) [];
             if left \<le> 0 then ret (Inr ())
             else do {
               (left', cleared', err') \<leftarrow> clearVMBackups e vmBackups left cleared;
               ret (Inr ()) } })"

section \<open>Status of the schedule\<close>

definition convertVolumeBackup :: "volume_backup \<Rightarrow> volume_backup_info" where
  "convertVolumeBackup vb = \<lparr>vbi_Name = vb_Name vb, vbi_ReadyToUse = vb_ReadyToUse vb, vbi_Error = vb_Error vb\<rparr>"

definition convertVMBackupToInfo :: "vmbackup \<Rightarrow> vmbackup_info" where
  "convertVMBackupToInfo b =
     (let info = \<lparr>bi_Name = bk_Name b, bi_VolumeBackupInfo = None, bi_ReadyToUse = None, bi_Error = None\<rparr>
      in if IsMissingStatus b then info
         else let info' = info\<lparr>bi_ReadyToUse := bk_ReadyToUse b, bi_Error := bk_Error b\<rparr>
              in if GetVolBackups b = [] then info'
                 else info'\<lparr>bi_VolumeBackupInfo := Some (map convertVolumeBackup (GetVolBackups b))\<rparr>)"

definition reconcileVMBackupList :: "sv_env \<Rightarrow> svmbackup \<Rightarrow> (sv_call, unit result) act" where
  "reconcileVMBackupList e s =
     andthen (currentVMBackups e s) (\<lambda>(vmbackups, _, _, failure).
       let cpy = s\<lparr>sv_VMBackupInfo := Some (map convertVMBackupToInfo vmbackups), sv_Failure := failure\<rparr>
       in if sv_VMBackupInfo s = sv_VMBackupInfo cpy \<and> sv_Failure s = sv_Failure cpy then ret (Inr ())
          else andthen (request (ScheduleUpdate cpy) (\<lambda>h. svmbackups_Update e h cpy)) (\<lambda>_. ret (Inr ())))"

definition updateVMBackups :: "sv_env \<Rightarrow> svmbackup \<Rightarrow> (sv_call, go_error option) act" where
  "updateVMBackups e s = do {
     r1 \<leftarrow> gcVMBackups e s;
     r2 \<leftarrow> reconcileVMBackupList e s;
     ret (multierr_Append (case r1 of Inl err \<Rightarrow> Some err | Inr _ \<Rightarrow> None) (case r2 of Inl err \<Rightarrow> Some err | Inr _ \<Rightarrow> None)) }"

definition set_suspend :: "string \<Rightarrow> bool \<Rightarrow> string \<Rightarrow> string \<Rightarrow> svmbackup \<Rightarrow> svmbackup" where
  "set_suspend now suspend reason msg s =
     (if suspend
      then s\<lparr>sv_Suspend := True, sv_Suspended := True,
             sv_Conditions := cond_Message now BackupSuspend msg (cond_Reason BackupSuspend reason (cond_True now BackupSuspend (sv_Conditions s)))\<rparr>
      else s\<lparr>sv_Suspend := False, sv_Suspended := False,
             sv_Conditions := cond_Message now BackupSuspend [] (cond_Reason BackupSuspend [] (cond_False now BackupSuspend (sv_Conditions s)))\<rparr>)"

definition updateSuspendState :: "sv_env \<Rightarrow> svmbackup \<Rightarrow> bool \<Rightarrow> string \<Rightarrow> string \<Rightarrow> (sv_call, unit result) act" where
  "updateSuspendState e s suspend reason msg =
     andthen (getCronJob e s) (\<lambda>cronJob.
       let cronJobCpy = cronJob\<lparr>cj_Suspend := Some suspend\<rparr>
       in andthen (if cronJob \<noteq> cronJobCpy then request (CronJobUpdate cronJobCpy) (\<lambda>h. cronJobs_Update e h cronJobCpy) else ret (Inr cronJob)) (\<lambda>_. do {
            now \<leftarrow> observe (\<lambda>h. Format_RFC3339 (sv_clock e h));
            let cpy = set_suspend now suspend reason msg s;
            if s = cpy then ret (Inr ())
            else andthen (request (ScheduleUpdate cpy) (\<lambda>h. svmbackups_Update e h cpy)) (\<lambda>_. ret (Inr ())) }))"

definition handleReachMaxFailure :: "sv_env \<Rightarrow> svmbackup \<Rightarrow> string \<Rightarrow> (sv_call, unit result) act" where
  "handleReachMaxFailure e s msg = updateSuspendState e s True reachMaxFailure msg"

definition handleLHBackupNotSynced :: "sv_env \<Rightarrow> svmbackup \<Rightarrow> string \<Rightarrow> (sv_call, unit result) act" where
  "handleLHBackupNotSynced e s msg = updateSuspendState e s True lhbackupNotSync msg"

definition handleSuspend :: "sv_env \<Rightarrow> svmbackup \<Rightarrow> (sv_call, unit result) act" where
  "handleSuspend e s = updateSuspendState e s True proactiveSuspend proactiveSuspend"

definition handleResume :: "sv_env \<Rightarrow> svmbackup \<Rightarrow> (sv_call, unit result) act" where
  "handleResume e s =
     andthen (currentVMBackups e s) (\<lambda>(_, errVMbackups, _, failure).
       if failure < sv_MaxFailure s then updateSuspendState e s False [] []
       else andthen (for_each (cleanseVMBackup e) errVMbackups) (\<lambda>_.
              ret (Inl (ErrorString (''svmbackup '' @ sv_Namespace s @ ''/'' @ sv_Name s @ '' retry handle resume'')))))"

definition updateResumeOrSuspend :: "sv_env \<Rightarrow> svmbackup \<Rightarrow> (sv_call, unit result) act" where
  "updateResumeOrSuspend e s =
     (if sv_Suspend s = sv_Suspended s then ret (Inr ())
      else if sv_Suspend s then handleSuspend e s
      else handleResume e s)"

definition updateCronExpression :: "sv_env \<Rightarrow> svmbackup \<Rightarrow> (sv_call, unit result) act" where
  "updateCronExpression e s =
     andthen (getCronJob e s) (\<lambda>cronJob.
       if cj_Schedule cronJob = sv_Cron s then ret (Inr ())
       else let cronJobCpy = cronJob\<lparr>cj_Schedule := sv_Cron s\<rparr>
            in if cronJob = cronJobCpy then ret (Inr ())
               else andthen (request (CronJobUpdate cronJobCpy) (\<lambda>h. cronJobs_Update e h cronJobCpy)) (\<lambda>_. ret (Inr ())))"

section \<open>Backups of the storage engine\<close>

definition lhBackupInFinalState :: "lhbackup \<Rightarrow> bool" where
  "lhBackupInFinalState l \<longleftrightarrow> lh_State l \<noteq> [] \<and> lh_State l \<noteq> ''Pending'' \<and> lh_State l \<noteq> ''InProgress''"

fun check_volume_backups :: "sv_env \<Rightarrow> svmbackup \<Rightarrow> vmbackup \<Rightarrow> volume_backup list \<Rightarrow> (sv_call, unit result) act" where
  "check_volume_backups e s b [] = ret (Inr ())"
| "check_volume_backups e s b (vb # vbs) =
     (case vb_LonghornBackupName vb of
        None \<Rightarrow> check_volume_backups e s b vbs
      | Some name \<Rightarrow>
          andthen (observe (\<lambda>h. lhbackupCache_Get e h LonghornSystemNamespaceName name)) (\<lambda>lhBackup.
            if lhBackupInFinalState lhBackup then check_volume_backups e s b vbs
            else andthen (request (LHBackupDelete (lh_Namespace lhBackup) (lh_Name lhBackup))
                            (\<lambda>h. lhbackups_Delete e h (lh_Namespace lhBackup) (lh_Name lhBackup))) (\<lambda>_.
              case vb_Name vb of
                None \<Rightarrow> ret (Inl (Panic ''invalid memory address or nil pointer dereference''))
              | Some vbName \<Rightarrow>
                  handleLHBackupNotSynced e s
                    (''vmbackup '' @ bk_Namespace b @ ''/'' @ bk_Name b @ '' vb '' @ vbName @ '' in error state but lhbackup '' @
                     lh_Name lhBackup @ '' still in processing, usually caused by backup target not reachable''))))"

definition checkLHBackupUnexpectedProcessing :: "sv_env \<Rightarrow> svmbackup \<Rightarrow> vmbackup \<Rightarrow> (sv_call, unit result) act" where
  "checkLHBackupUnexpectedProcessing e s b =
     (if GetType b = BackupType_Snapshot then ret (Inr ())
      else if \<not> IsReady b \<and> bk_Error b = None then ret (Inr ())
      else check_volume_backups e s b (GetVolBackups b))"

section \<open>New backups\<close>

definition newVMBackups :: "sv_env \<Rightarrow> svmbackup \<Rightarrow> string \<Rightarrow> (sv_call, vmbackup option result) act" where
  "newVMBackups e s timestamp =
     andthen (currentVMBackups e s) (\<lambda>(oldVMBackups, _, lastVMBackup, failure).
       if oldVMBackups = [] then andthen (createVMBackup e s timestamp) (\<lambda>b. ret (Inr (Some b)))
       else if failure \<ge> sv_MaxFailure s
       then andthen (handleReachMaxFailure e s (''failure backups '' @ int_str failure @ '' reach max tolerance '' @ int_str (sv_MaxFailure s)))
              (\<lambda>_. ret (Inr None))
       else (case lastVMBackup of
               None \<Rightarrow> ret (Inl (Panic ''invalid memory address or nil pointer dereference''))
             | Some l \<Rightarrow>
                 if \<not> IsReady l \<and> bk_Error l = None
                 then ret (Inl (ErrorString (''lastest vm backup '' @ bk_Namespace l @ ''/'' @ bk_Name l @ '' in progress'')))
                 else andthen (createVMBackup e s timestamp) (\<lambda>b. ret (Inr (Some b)))))"

section \<open>Handlers\<close>

definition ResolveSVMBackupRef :: "sv_env \<Rightarrow> smap \<Rightarrow> (sv_call, svmbackup option) act" where
  "ResolveSVMBackupRef e annotations =
     (if sval annotations AnnotationSVMBackupID = [] then ret None
      else case SplitNamespacedName (sval annotations AnnotationSVMBackupID) of (ns, name, _) \<Rightarrow>
        observe (\<lambda>h. case svmbackupCache_Get e h ns name of Inl _ \<Rightarrow> None | Inr s \<Rightarrow> Some s))"

definition OnCronjobChanged :: "sv_env \<Rightarrow> cronjob option \<Rightarrow> (sv_call, cronjob option result) act" where
  "OnCronjobChanged e cj =
     (case cj of
        None \<Rightarrow> ret (Inr None)
      | Some cronJob \<Rightarrow>
          (case cj_LastScheduleTime cronJob of
             None \<Rightarrow> ret (Inr (Some cronJob))
           | Some lastScheduleTime \<Rightarrow>
               if cj_DeletionTimestamp cronJob \<noteq> None then ret (Inr (Some cronJob))
               else do {
                 ref \<leftarrow> ResolveSVMBackupRef e (cj_Annotations cronJob);
                 case ref of
                   None \<Rightarrow> ret (Inr None)
                 | Some s \<Rightarrow> do {
                     now \<leftarrow> observe (sv_clock e);
                     if sat64 (now - lastScheduleTime) > 60 * nanos then ret (Inr None)
                     else let timestamp = Format_minutes (local_offset e lastScheduleTime) lastScheduleTime
                          in do {
                            r \<leftarrow> getVMBackup e s timestamp;
                            case r of
                              Inr _ \<Rightarrow> ret (Inr (Some cronJob))
                            | Inl err \<Rightarrow>
                                if \<not> is_not_found err then ret (Inl err)
                                else andthen (newVMBackups e s timestamp) (\<lambda>_. ret (Inr None)) } } }))"

definition deleteCronJob :: "sv_env \<Rightarrow> svmbackup \<Rightarrow> (sv_call, unit result) act" where
  "deleteCronJob e s = do {
     r \<leftarrow> getCronJob e s;
     case r of
       Inl err \<Rightarrow> if is_not_found err then ret (Inr ()) else ret (Inl err)
     | Inr cronJob \<Rightarrow>
         request (CronJobDelete (cj_Namespace cronJob) (cj_Name cronJob)) (\<lambda>h. cronJobs_Delete e h (cj_Namespace cronJob) (cj_Name cronJob)) }"

definition new_cronjob :: "svmbackup \<Rightarrow> string \<Rightarrow> cronjob" where
  "new_cronjob s img =
     \<lparr>cj_Namespace = cronJobNamespace, cj_Name = cronJobName s,
      cj_Annotations = Some [(AnnotationSVMBackupID, NamespacedName (sv_Namespace s) (sv_Name s))], cj_DeletionTimestamp = None,
      cj_Schedule = sv_Cron s, cj_ConcurrencyPolicy = ''Forbid'', cj_Suspend = None, cj_BackoffLimit = cronJobBackoffLimit,
      cj_Image = img, cj_Command = [cronJobCmd], cj_Args = [cronJobArg], cj_RestartPolicy = ''Never'', cj_LastScheduleTime = None\<rparr>"

definition createCronJob :: "sv_env \<Rightarrow> svmbackup \<Rightarrow> (sv_call, cronjob result) act" where
  "createCronJob e s =
     (case FetchImage e of
        Inl err \<Rightarrow> ret (Inl (errorf_v ''failed to get harvester image (): '' err))
      | Inr img \<Rightarrow> request (CronJobCreate (new_cronjob s img)) (\<lambda>h. cronJobs_Create e h (new_cronjob s img)))"

text \<open>The body of \<^verbatim>\<open>OnChanged\<close> without the deferred call.\<close>

definition reconcile_schedule :: "sv_env \<Rightarrow> svmbackup \<Rightarrow> (sv_call, svmbackup option result) act" where
  "reconcile_schedule e s = do {
     r \<leftarrow> getCronJob e s;
     case r of
       Inl err \<Rightarrow>
         if is_not_found err
         then andthen (createCronJob e s) (\<lambda>_. do {
                _ \<leftarrow> request (ScheduleEnqueue (sv_Namespace s) (sv_Name s)) (\<lambda>h. ());
                ret (Inr (Some s)) })
         else ret (Inl err)
     | Inr _ \<Rightarrow>
         andthen (updateResumeOrSuspend e s) (\<lambda>_.
         andthen (updateCronExpression e s) (\<lambda>_.
         ret (Inr (Some s)))) }"

text \<open>The deferred call runs after the result is fixed; its error is only logged.\<close>

definition OnChanged_schedule :: "sv_env \<Rightarrow> svmbackup option \<Rightarrow> (sv_call, svmbackup option result) act" where
  "OnChanged_schedule e so =
     (case so of
        None \<Rightarrow> ret (Inr None)
      | Some s \<Rightarrow>
          if sv_DeletionTimestamp s \<noteq> None then ret (Inr (Some s))
          else do {
            r \<leftarrow> reconcile_schedule e s;
            _ \<leftarrow> updateVMBackups e s;
            ret r })"

definition OnRemove_schedule :: "sv_env \<Rightarrow> svmbackup option \<Rightarrow> (sv_call, svmbackup option result) act" where
  "OnRemove_schedule e so =
     (case so of
        None \<Rightarrow> ret (Inr None)
      | Some s \<Rightarrow> andthen (deleteCronJob e s) (\<lambda>_. ret (Inr (Some s))))"

definition OnVMBackupChange :: "sv_env \<Rightarrow> vmbackup option \<Rightarrow> (sv_call, unit result) act" where
  "OnVMBackupChange e bo =
     (case bo of
        None \<Rightarrow> ret (Inr ())
      | Some b \<Rightarrow>
          if bk_DeletionTimestamp b \<noteq> None then ret (Inr ())
          else do {
            ref \<leftarrow> ResolveSVMBackupRef e (bk_Annotations b);
            case ref of
              None \<Rightarrow> ret (Inr ())
            | Some s \<Rightarrow>
                let enqueue = request (ScheduleEnqueue (sv_Namespace s) (sv_Name s)) (\<lambda>h. ())
                in do {
                  now \<leftarrow> observe (sv_clock e);
                  _ \<leftarrow> if sat64 (now - bk_CreationTimestamp b) < reconcileInterval then enqueue else ret ();
                  _ \<leftarrow> if bk_Error b \<noteq> None then enqueue else ret ();
                  _ \<leftarrow> if IsReady b then enqueue else ret ();
                  checkLHBackupUnexpectedProcessing e s b } })"

definition OnVMBackupRemove :: "sv_env \<Rightarrow> vmbackup option \<Rightarrow> (sv_call, unit result) act" where
  "OnVMBackupRemove e bo =
     (case bo of
        None \<Rightarrow> ret (Inr ())
      | Some b \<Rightarrow> do {
          ref \<leftarrow> ResolveSVMBackupRef e (bk_Annotations b);
          case ref of
            None \<Rightarrow> ret (Inr ())
          | Some s \<Rightarrow> do {
              _ \<leftarrow> request (ScheduleEnqueueAfter (sv_Namespace s) (sv_Name s) updateInterval) (\<lambda>h. ());
              ret (Inr ()) } })"

text \<open>\<^verbatim>\<open>strings.Replace(s, old, new, 1)\<close>\<close>

fun replace_first :: "string \<Rightarrow> string \<Rightarrow> string \<Rightarrow> string" where
  "replace_first old new [] = (if old = [] then new else [])"
| "replace_first old new (c # cs) =
     (if take (length old) (c # cs) = old then new @ drop (length old) (c # cs) else c # replace_first old new cs)"

definition LHSnapToVSCName :: "string \<Rightarrow> string" where
  "LHSnapToVSCName lhSnapshotName = replace_first ''snapshot'' ''snapcontent'' lhSnapshotName"

definition GetControllerOf :: "controller_ref list \<Rightarrow> controller_ref option" where
  "GetControllerOf refs = find (\<lambda>r. or_Controller r = Some True) refs"

definition resolveVolSnapshotRef :: "sv_env \<Rightarrow> string \<Rightarrow> controller_ref \<Rightarrow> (sv_call, vmbackup option) act" where
  "resolveVolSnapshotRef e namespace ref =
     (if or_Kind ref \<noteq> ''VirtualMachineBackup'' then ret None
      else observe (\<lambda>h. case vmBackupCache_Get e h namespace (or_Name ref) of
                           Inl _ \<Rightarrow> None
                         | Inr b \<Rightarrow> if bk_UID b \<noteq> or_UID ref then None else Some b))"

fun set_lhbackup :: "string \<Rightarrow> string \<Rightarrow> volume_backup list \<Rightarrow> volume_backup list result" where
  "set_lhbackup snapshot lhName [] = Inr []"
| "set_lhbackup snapshot lhName (vb # vbs) =
     (case vb_Name vb of
        None \<Rightarrow> Inl (Panic ''invalid memory address or nil pointer dereference'')
      | Some n \<Rightarrow> (case set_lhbackup snapshot lhName vbs of
                     Inl err \<Rightarrow> Inl err
                   | Inr vbs' \<Rightarrow> Inr ((if n = snapshot then vb\<lparr>vb_LonghornBackupName := Some lhName\<rparr> else vb) # vbs')))"

definition OnLHBackupChanged :: "sv_env \<Rightarrow> lhbackup option \<Rightarrow> (sv_call, unit result) act" where
  "OnLHBackupChanged e lo =
     (case lo of
        None \<Rightarrow> ret (Inr ())
      | Some l \<Rightarrow>
          if lh_DeletionTimestamp l \<noteq> None \<or> lh_SnapshotName l = [] then ret (Inr ())
          else (case snapshotContentCache_GetRef e (LHSnapToVSCName (lh_SnapshotName l)) of
                  Inl err \<Rightarrow> if \<not> is_not_found err then ret (Inl err) else ret (Inr ())
                | Inr (ns, name) \<Rightarrow>
                    (case snapshotCache_Get e ns name of
                       Inl err \<Rightarrow> ret (Inl err)
                     | Inr snapshot \<Rightarrow>
                         (case GetControllerOf (vs_OwnerReferences snapshot) of
                            None \<Rightarrow> ret (Inr ())
                          | Some ref \<Rightarrow> do {
                              bo \<leftarrow> resolveVolSnapshotRef e (vs_Namespace snapshot) ref;
                              case bo of
                                None \<Rightarrow> ret (Inr ())
                              | Some b \<Rightarrow>
                                  if bk_BackupTarget b = None then ret (Inr ())
                                  else (case set_lhbackup (vs_Name snapshot) (lh_Name l) (GetVolBackups b) of
                                          Inl err \<Rightarrow> ret (Inl err)
                                        | Inr vbs \<Rightarrow>
                                            let cpy = (if bk_VolumeBackups b = None then b else b\<lparr>bk_VolumeBackups := Some vbs\<rparr>)
                                            in if b = cpy then ret (Inr ())
                                               else andthen (request (BackupUpdate cpy) (\<lambda>h. vmBackups_Update e h cpy)) (\<lambda>_. ret (Inr ()))) }))))"

section \<open>Failures in a row\<close>

definition failed_backup :: "vmbackup \<Rightarrow> bool" where
  "failed_backup b \<longleftrightarrow> \<not> IsMissingStatus b \<and> bk_Error b \<noteq> None"

definition good_backup :: "vmbackup \<Rightarrow> bool" where
  "good_backup b \<longleftrightarrow> \<not> IsMissingStatus b \<and> IsReady b"

definition settled :: "vmbackup \<Rightarrow> bool" where
  "settled b \<longleftrightarrow> IsReady b \<or> bk_Error b \<noteq> None"

text \<open>The number of failed backups since the last good one.\<close>

definition streak :: "vmbackup list \<Rightarrow> int" where
  "streak bs = int (length (filter failed_backup (takeWhile (\<lambda>b. \<not> good_backup b) (rev bs))))"

lemma streak_Nil [simp]: "streak [] = 0"
  by (simp add: streak_def)

lemma streak_snoc: "streak (bs @ [b]) = (if good_backup b then 0 else streak bs + (if failed_backup b then 1 else 0))"
  by (simp add: streak_def)

lemma streak_nonneg [simp]: "0 \<le> streak bs"
  by (simp add: streak_def)

lemma fold_count:
  "fold count_backup bs ([], None, 0) = (filter failed_backup bs, if bs = [] then None else Some (last bs), streak bs)"
proof (induction bs rule: rev_induct)
  case (snoc b bs)
  then show ?case
    by (cases "IsMissingStatus b"; cases "IsReady b")
      (simp_all add: count_backup_def streak_snoc failed_backup_def good_backup_def)
qed simp

definition own_backups :: "sv_env \<Rightarrow> svmbackup \<Rightarrow> vmbackup list \<Rightarrow> vmbackup list" where
  "own_backups e s all = sort_Slice e (filter (\<lambda>b. sget (bk_Labels b) LabelSVMBackupUID = Some (sv_UID s)) all)"

definition backups_summary :: "vmbackup list \<Rightarrow> vmbackup list \<times> vmbackup list \<times> vmbackup option \<times> int" where
  "backups_summary bs = (bs, filter failed_backup bs, if bs = [] then None else Some (last bs), streak bs)"

lemma run_currentVMBackups [simp]:
  "run_state (currentVMBackups e s) h =
     (map_sum id (\<lambda>all. backups_summary (own_backups e s all)) (vmBackupCache_List e h (sv_Namespace s)), h)"
  by (cases "vmBackupCache_List e h (sv_Namespace s)")
    (simp_all add: currentVMBackups_def own_backups_def backups_summary_def fold_count Let_def)

section \<open>What garbage collection deletes\<close>

text \<open>The first \<open>n\<close> failed backups, then the oldest of the rest, \<open>n\<close> in all.\<close>

definition gc_choice :: "nat \<Rightarrow> vmbackup list \<Rightarrow> vmbackup list" where
  "gc_choice n bs =
     (let failed = take n (filter failed_backup bs)
      in failed @ take (n - length failed) (filter (\<lambda>b. bk_Name b \<notin> bk_Name ` set failed) bs))"

abbreviation delete_of :: "vmbackup \<Rightarrow> sv_call" where
  "delete_of b \<equiv> BackupDelete (bk_Namespace b) (bk_Name b)"

lemma run_clear_loop:
  assumes "distinct (map bk_Name bs)"
  shows "\<exists>errs'. run_state (clear_loop e bs left cleared errs) h =
    (let ds = take (nat left) (filter (\<lambda>b. bk_Name b \<notin> set cleared) bs)
     in ((left - int (length ds), rev (map bk_Name ds) @ cleared, errs'), h @ map delete_of ds))"
  using assms
proof (induction bs arbitrary: left cleared errs h)
  case (Cons b bs)
  show ?case
  proof (cases "left \<le> 0 \<or> bk_Name b \<in> set cleared")
    case True
    then show ?thesis using Cons by (cases "left \<le> 0") simp_all
  next
    case False
    have "filter (\<lambda>x. bk_Name x \<notin> set (bk_Name b # cleared)) bs = filter (\<lambda>x. bk_Name x \<notin> set cleared) bs"
      using Cons.prems by (intro filter_cong) (auto intro: rev_image_eqI)
    moreover have "nat left = Suc (nat (left - 1))" using False by linarith
    ultimately show ?thesis
      using Cons.IH [of "left - 1" "bk_Name b # cleared"
          "case vmBackups_Delete e h (bk_Namespace b) (bk_Name b) of Inr _ \<Rightarrow> errs | Inl err \<Rightarrow> multierr_Append errs (Some err)" "h @ [delete_of b]"]
        Cons.prems False
      by (auto simp: cleanseVMBackup_def Let_def split: prod.splits)
  qed
qed simp

lemma distinct_names_filter: "distinct (map bk_Name bs) \<Longrightarrow> distinct (map bk_Name (filter P bs))"
  by (induction bs) auto

definition gc_requests :: "svmbackup \<Rightarrow> vmbackup list \<Rightarrow> sv_call list" where
  "gc_requests s bs =
     (if bs = [] then []
      else if \<not> settled (last bs) then [ScheduleEnqueueAfter (sv_Namespace s) (sv_Name s) updateInterval]
      else if bk_Error (last bs) \<noteq> None then []
      else map delete_of (gc_choice (nat (int (length bs) - sv_Retain s)) bs))"

lemma run_gcVMBackups:
  assumes "vmBackupCache_List e h (sv_Namespace s) = Inr all" and "bs = own_backups e s all" and "distinct (map bk_Name bs)"
  shows "run_state (gcVMBackups e s) h = (Inr (), h @ gc_requests s bs)"
proof -
  define k where "k = int (length bs) - sv_Retain s"
  define F where "F = take (nat k) (filter failed_backup bs)"
  define L where "L = k - int (length F)"
  define R where "R = take (nat L) (filter (\<lambda>b. bk_Name b \<notin> bk_Name ` set F) bs)"
  obtain errs where r1: "run_state (clearVMBackups e (filter failed_backup bs) k []) h = ((L, rev (map bk_Name F), errs), h @ map delete_of F)"
    using run_clear_loop [OF distinct_names_filter [OF assms(3), of failed_backup], of e k "[]" None h]
    by (auto simp: clearVMBackups_def Let_def F_def L_def)
  obtain errs' where r2: "run_state (clearVMBackups e bs L (rev (map bk_Name F))) (h @ map delete_of F) =
      ((L - int (length R), rev (map bk_Name R) @ rev (map bk_Name F), errs'), (h @ map delete_of F) @ map delete_of R)"
    using run_clear_loop [OF assms(3), of e L "rev (map bk_Name F)" None "h @ map delete_of F"]
    by (auto simp: clearVMBackups_def Let_def R_def)
  have "nat k - length F = nat L" by (simp add: L_def)
  then have choice: "gc_choice (nat k) bs = F @ R" by (simp add: gc_choice_def Let_def F_def [symmetric] R_def)
  have none: "L \<le> 0 \<Longrightarrow> R = []" by (simp add: R_def)
  show ?thesis
  proof (cases "bs = [] \<or> \<not> settled (last bs) \<or> bk_Error (last bs) \<noteq> None")
    case True
    then show ?thesis
      using assms(1,2) by (auto simp: gcVMBackups_def backups_summary_def gc_requests_def settled_def)
  next
    case False
    then show ?thesis
      using assms(1) r1 r2 none choice
      by (simp add: gcVMBackups_def backups_summary_def gc_requests_def settled_def assms(2) [symmetric] k_def [symmetric])
  qed
qed

lemma take_drop_disjoint: "distinct xs \<Longrightarrow> x \<in> set (take m xs) \<Longrightarrow> x \<notin> set (drop m xs)"
  by (metis IntI append_take_drop_id distinct_append empty_iff)

lemma last_filter: "xs \<noteq> [] \<Longrightarrow> P (last xs) \<Longrightarrow> last (filter P xs) = last xs"
  by (cases xs rule: rev_cases) simp_all

lemma gc_choice_spec:
  assumes "distinct (map bk_Name bs)" and "n \<le> length bs"
  shows "length (gc_choice n bs) = n" and "distinct (map bk_Name (gc_choice n bs))" and "set (gc_choice n bs) \<subseteq> set bs"
    and "\<lbrakk>b \<in> set bs; b \<notin> set (gc_choice n bs); failed_backup b; d \<in> set (gc_choice n bs)\<rbrakk> \<Longrightarrow> failed_backup d"
    and "\<lbrakk>n < length bs; \<not> failed_backup (last bs)\<rbrakk> \<Longrightarrow> last bs \<notin> set (gc_choice n bs)"
    and "\<lbrakk>sorted (map f bs); d \<in> set (gc_choice n bs); k \<in> set bs; k \<notin> set (gc_choice n bs); \<not> failed_backup d\<rbrakk> \<Longrightarrow> f d \<le> f k"
proof -
  define F where "F = take n (filter failed_backup bs)"
  define G where "G = filter (\<lambda>b. bk_Name b \<notin> bk_Name ` set F) bs"
  define R where "R = take (n - length F) G"
  have choice: "gc_choice n bs = F @ R" by (simp add: gc_choice_def F_def G_def R_def Let_def)
  have inj: "inj_on bk_Name (set bs)" "distinct bs" using assms(1) by (simp_all add: distinct_map)
  have F: "set F \<subseteq> set bs" "distinct F" "\<forall>b \<in> set F. failed_backup b"
    using inj(2) by (auto simp: F_def distinct_filter dest: in_set_takeD)
  have G: "set G = set bs - set F" "distinct G"
    using inj F(1) by (auto simp: G_def distinct_filter) (metis imageI inj_on_image_mem_iff subsetD)+
  have lenG: "length G = length bs - length F"
    using F G inj(2) by (metis card_Diff_subset distinct_card finite_set)
  have lenF: "length F \<le> n" by (simp add: F_def)
  show len: "length (gc_choice n bs) = n" using lenG lenF assms(2) by (simp add: choice R_def)
  have R: "set R \<subseteq> set G" "distinct R" using G(2) by (auto simp: R_def dest: in_set_takeD)
  show sub: "set (gc_choice n bs) \<subseteq> set bs" using F R G by (auto simp: choice)
  have "distinct (F @ R)" using F(2) R G by auto
  then show "distinct (map bk_Name (gc_choice n bs))"
    using inj_on_subset [OF inj(1) sub] unfolding distinct_map choice by blast
  show "failed_backup d" if "b \<in> set bs" "b \<notin> set (gc_choice n bs)" "failed_backup b" "d \<in> set (gc_choice n bs)"
  proof (cases "n < length (filter failed_backup bs)")
    case True
    then have "R = []" by (simp add: R_def F_def)
    with that F show ?thesis by (simp add: choice)
  next
    case False
    then have "F = filter failed_backup bs" by (simp add: F_def)
    with that show ?thesis by (simp add: choice)
  qed
  have setG: "set G = set R \<union> set (drop (n - length F) G)"
    unfolding R_def set_append [symmetric] append_take_drop_id by (rule refl)
  show "last bs \<notin> set (gc_choice n bs)" if "n < length bs" "\<not> failed_backup (last bs)"
  proof -
    have "bs \<noteq> []" using that(1) by auto
    then have "last bs \<in> set bs" by simp
    have "last bs \<notin> set F" using F(3) that(2) by auto
    then have "bk_Name (last bs) \<notin> bk_Name ` set F"
      using inj(1) F(1) \<open>last bs \<in> set bs\<close> by (metis inj_on_image_mem_iff)
    then have "last G = last bs" using \<open>bs \<noteq> []\<close> unfolding G_def by (intro last_filter)
    moreover have "drop (n - length F) G \<noteq> []" using lenG lenF that(1) by simp
    ultimately have "last bs \<in> set (drop (n - length F) G)" by (metis last_drop last_in_set drop_eq_Nil not_le)
    then have "last bs \<notin> set R" unfolding R_def using take_drop_disjoint [OF G(2)] by blast
    with \<open>last bs \<notin> set F\<close> show ?thesis by (simp add: choice)
  qed
  show "f d \<le> f k" if "sorted (map f bs)" "d \<in> set (gc_choice n bs)" "k \<in> set bs" "k \<notin> set (gc_choice n bs)" "\<not> failed_backup d"
  proof -
    have "d \<in> set R" using that(2,5) F(3) by (auto simp: choice)
    moreover have "k \<in> set (drop (n - length F) G)" using that(3,4) G(1) setG by (auto simp: choice)
    moreover have "sorted (map f G)" unfolding G_def using that(1) by (rule sorted_filter)
    then have "sorted (map f (R @ drop (n - length F) G))" by (simp add: R_def)
    ultimately show ?thesis by (simp add: sorted_append)
  qed
qed

text \<open>What \<^verbatim>\<open>sort.Slice\<close> promises: a permutation that is sorted by the time in the label.\<close>

definition sorts :: "sv_env \<Rightarrow> bool" where
  "sorts e \<longleftrightarrow> (\<forall>bs. mset (sort_Slice e bs) = mset bs \<and> sorted (map backup_time (sort_Slice e bs)))"

lemma own_backups_sorted: "sorts e \<Longrightarrow> sorted (map backup_time (own_backups e s all))"
  by (simp add: sorts_def own_backups_def)

lemma own_backups_mset: "sorts e \<Longrightarrow> mset (own_backups e s all) = mset (filter (\<lambda>b. sget (bk_Labels b) LabelSVMBackupUID = Some (sv_UID s)) all)"
  by (simp add: sorts_def own_backups_def)

lemma own_backups_distinct:
  assumes "sorts e" and "distinct (map bk_Name all)"
  shows "distinct (map bk_Name (own_backups e s all))"
proof -
  have "mset (map bk_Name (own_backups e s all)) = mset (map bk_Name (filter (\<lambda>b. sget (bk_Labels b) LabelSVMBackupUID = Some (sv_UID s)) all))"
    by (simp add: own_backups_mset [OF assms(1)])
  then show ?thesis using distinct_names_filter [OF assms(2)] mset_eq_imp_distinct_iff by blast
qed

text \<open>
  C34. Garbage collection after a good backup deletes exactly the backups beyond the number to retain:
  each once, failed backups before good ones, good ones from the oldest on, and never the newest.
\<close>

theorem gc_keeps_retained:
  assumes "sorts e" and "vmBackupCache_List e [] (sv_Namespace s) = Inr all" and "distinct (map bk_Name all)"
    and "bs = own_backups e s all" and "bs \<noteq> []" and "IsReady (last bs)" and "bk_Error (last bs) = None" and "1 \<le> sv_Retain s"
  shows "\<exists>ds. issued (gcVMBackups e s) = map delete_of ds \<and> length ds = nat (int (length bs) - sv_Retain s) \<and>
    distinct (map bk_Name ds) \<and> set ds \<subseteq> set bs \<and> last bs \<notin> set ds \<and>
    (\<forall>b \<in> set bs - set ds. \<forall>d \<in> set ds. failed_backup b \<longrightarrow> failed_backup d) \<and>
    (\<forall>k \<in> set bs - set ds. \<forall>d \<in> set ds. \<not> failed_backup d \<longrightarrow> backup_time d \<le> backup_time k)"
proof -
  let ?n = "nat (int (length bs) - sv_Retain s)"
  have d: "distinct (map bk_Name bs)" unfolding assms(4) by (rule own_backups_distinct [OF assms(1,3)])
  have sorted: "sorted (map backup_time bs)" unfolding assms(4) by (rule own_backups_sorted [OF assms(1)])
  have n: "?n \<le> length bs" "?n < length bs" using assms(5,8) by (auto simp flip: length_greater_0_conv)
  have "\<not> failed_backup (last bs)" using assms(7) by (simp add: failed_backup_def)
  note spec = gc_choice_spec [OF d n(1)]
  have "issued (gcVMBackups e s) = map delete_of (gc_choice ?n bs)"
    using run_gcVMBackups [OF assms(2,4) d] assms(5-7) by (simp add: issued_def gc_requests_def settled_def)
  then show ?thesis
    using spec(1-3) spec(4) spec(5) [OF n(2) \<open>\<not> failed_backup (last bs)\<close>] spec(6) [OF sorted]
    by (intro exI [of _ "gc_choice ?n bs"]) blast
qed

section \<open>When a backup is created\<close>

definition schedule_of :: "sv_env \<Rightarrow> smap \<Rightarrow> svmbackup option" where
  "schedule_of e annotations = fst (run_state (ResolveSVMBackupRef e annotations) [])"

lemma run_ResolveSVMBackupRef [simp]: "snd (run_state (ResolveSVMBackupRef e annotations) h) = h"
  by (auto simp: ResolveSVMBackupRef_def split: prod.splits)

lemma run_Resolve: "run_state (ResolveSVMBackupRef e annotations) [] = (schedule_of e annotations, [])"
  by (metis prod.collapse run_ResolveSVMBackupRef schedule_of_def)

text \<open>The backup \<open>b\<close> is due: the last run of the cron job is at most a minute old and has no backup yet, and the
  schedule has no backup in progress and fewer failures in a row than it tolerates.\<close>

definition backup_due :: "sv_env \<Rightarrow> cronjob \<Rightarrow> vmbackup \<Rightarrow> bool" where
  "backup_due e cj b \<longleftrightarrow>
     (\<exists>s t all err. cj_DeletionTimestamp cj = None \<and> cj_LastScheduleTime cj = Some t \<and>
        schedule_of e (cj_Annotations cj) = Some s \<and> sat64 (sv_clock e [] - t) \<le> 60 * nanos \<and>
        b = new_vmbackup s (Format_minutes (local_offset e t) t) \<and>
        vmBackupCache_Get e [] (sv_Namespace s) (bk_Name b) = Inl err \<and> is_not_found err \<and>
        vmBackupCache_List e [] (sv_Namespace s) = Inr all \<and>
        (let bs = own_backups e s all in bs = [] \<or> streak bs < sv_MaxFailure s \<and> settled (last bs)))"

lemma suspend_creates_none: "emits (\<lambda>_ c. \<forall>b. c \<noteq> BackupCreate b) (updateSuspendState e s suspend reason msg) h"
  unfolding updateSuspendState_def getCronJob_def Let_def by (intro emit_intros) simp_all

lemma created_newVMBackups:
  "BackupCreate b \<in> set (issued (newVMBackups e s timestamp)) \<longleftrightarrow>
     b = new_vmbackup s timestamp \<and>
     (\<exists>all. vmBackupCache_List e [] (sv_Namespace s) = Inr all \<and>
        (let bs = own_backups e s all in bs = [] \<or> streak bs < sv_MaxFailure s \<and> settled (last bs)))"
proof (cases "vmBackupCache_List e [] (sv_Namespace s)")
  case (Inl err)
  then show ?thesis by (simp add: newVMBackups_def issued_def)
next
  case (Inr all)
  let ?bs = "own_backups e s all"
  have none: "BackupCreate b \<notin> set (snd (run_state (handleReachMaxFailure e s msg) []))" for msg
    using suspend_creates_none [of e s True reachMaxFailure msg "[]"] emits_issued_all [of "\<lambda>c. \<forall>b. c \<noteq> BackupCreate b"]
    unfolding handleReachMaxFailure_def issued_def by blast
  show ?thesis
  proof (cases "?bs \<noteq> [] \<and> sv_MaxFailure s \<le> streak ?bs")
    case True
    obtain r h where run: "run_state (handleReachMaxFailure e s (''failure backups '' @ int_str (streak ?bs) @ '' reach max tolerance '' @ int_str (sv_MaxFailure s))) [] = (r, h)"
      by fastforce
    with none have "BackupCreate b \<notin> set h" by (metis snd_conv)
    with True run Inr show ?thesis
      by (auto simp: newVMBackups_def issued_def backups_summary_def Let_def split: sum.splits)
  next
    case False
    then show ?thesis
      using Inr by (auto simp: newVMBackups_def issued_def backups_summary_def Let_def createVMBackup_def settled_def split: sum.splits)
  qed
qed

lemma scheduled_backup_due:
  "BackupCreate b \<in> set (issued (OnCronjobChanged e (Some cj))) \<longleftrightarrow> backup_due e cj b"
proof (cases "cj_DeletionTimestamp cj = None \<and> cj_LastScheduleTime cj \<noteq> None \<and> schedule_of e (cj_Annotations cj) \<noteq> None")
  case False
  then show ?thesis
    by (auto simp: OnCronjobChanged_def issued_def run_Resolve backup_due_def split: option.splits)
next
  case True
  then obtain s t where st: "cj_DeletionTimestamp cj = None" "cj_LastScheduleTime cj = Some t" "schedule_of e (cj_Annotations cj) = Some s" by blast
  let ?ts = "Format_minutes (local_offset e t) t"
  show ?thesis
  proof (cases "sat64 (sv_clock e [] - t) \<le> 60 * nanos \<and> (\<exists>err. vmBackupCache_Get e [] (sv_Namespace s) (vmBackupName s ?ts) = Inl err \<and> is_not_found err)")
    case True
    then obtain err where "vmBackupCache_Get e [] (sv_Namespace s) (vmBackupName s ?ts) = Inl err" "is_not_found err" by blast
    moreover have "bk_Name (new_vmbackup s ?ts) = vmBackupName s ?ts" by (simp add: new_vmbackup_def)
    moreover obtain r h where "run_state (newVMBackups e s ?ts) [] = (r, h)" by fastforce
    moreover have "issued (OnCronjobChanged e (Some cj)) = issued (newVMBackups e s ?ts)"
      using calculation True st by (cases r) (simp_all add: OnCronjobChanged_def issued_def run_Resolve getVMBackup_def Let_def)
    ultimately show ?thesis
      using True st by (auto simp: created_newVMBackups backup_due_def Let_def)
  next
    case False
    then show ?thesis
      using st by (auto simp: OnCronjobChanged_def issued_def run_Resolve getVMBackup_def Let_def backup_due_def new_vmbackup_def split: sum.splits)
  qed
qed

text \<open>
  C35. A run of the cron job creates a backup exactly when it is due, and then the one named after the
  time of the run.
\<close>

theorem scheduled_backup_created_iff:
  "BackupCreate b \<in> set (issued (OnCronjobChanged e (Some cj))) \<longleftrightarrow> backup_due e cj b"
  by (rule scheduled_backup_due)

end
