(* ===== verification/Schedule_Protocol.thy ===== *)
theory Schedule_Protocol
  imports Scheduled_Backup
begin

text \<open>
  A schedule over time: the handlers of \<open>Scheduled_Backup\<close> against an API server that keeps one schedule,
  its cron job and its backups. Steps of the controller, of the backups and of the user interleave
  freely; the invariant bounds the failures in a row and keeps a usable backup, and a schedule that
  the user resumes is running again after two reconciles.
\<close>

section \<open>A schedule under its controller\<close>

text \<open>
  An API server that keeps one schedule, its cron job and its backups, and caches that are up to
  date. An update of the schedule that is based on an old resource version is rejected.
\<close>

record sv_world =
  bw_backups :: "vmbackup list"
  bw_schedule :: svmbackup
  bw_cron :: cronjob

fun apply_sv_call :: "sv_call \<Rightarrow> sv_world \<Rightarrow> sv_world" where
  "apply_sv_call (BackupCreate b) w = w\<lparr>bw_backups := bw_backups w @ [b]\<rparr>"
| "apply_sv_call (BackupDelete ns n) w = w\<lparr>bw_backups := filter (\<lambda>b. \<not> (bk_Namespace b = ns \<and> bk_Name b = n)) (bw_backups w)\<rparr>"
| "apply_sv_call (BackupUpdate u) w =
     w\<lparr>bw_backups := map (\<lambda>b. if bk_Namespace b = bk_Namespace u \<and> bk_Name b = bk_Name u then u else b) (bw_backups w)\<rparr>"
| "apply_sv_call (ScheduleUpdate u) w =
     (if sv_ResourceVersion u = sv_ResourceVersion (bw_schedule w)
      then w\<lparr>bw_schedule := u\<lparr>sv_ResourceVersion := Suc (sv_ResourceVersion u)\<rparr>\<rparr> else w)"
| "apply_sv_call (CronJobUpdate c) w = w\<lparr>bw_cron := c\<rparr>"
| "apply_sv_call _ w = w"

abbreviation world_at :: "sv_world \<Rightarrow> sv_call list \<Rightarrow> sv_world" where
  "world_at w h \<equiv> fold apply_sv_call h w"

definition found :: "'a option \<Rightarrow> 'a result" where
  "found x = (case x of None \<Rightarrow> Inl (ApiStatus NotFound ''not found'') | Some y \<Rightarrow> Inr y)"

definition sv_server :: "sv_env \<Rightarrow> sv_world \<Rightarrow> sv_env" where
  "sv_server e w = e\<lparr>
     cronJobCache_Get := \<lambda>h ns n. let c = bw_cron (world_at w h) in if cj_Namespace c = ns \<and> cj_Name c = n then Inr c else found None,
     cronJobs_Update := \<lambda>h c. Inr c,
     vmBackupCache_Get := \<lambda>h ns n. found (find (\<lambda>b. bk_Namespace b = ns \<and> bk_Name b = n) (bw_backups (world_at w h))),
     vmBackupCache_List := \<lambda>h ns. Inr (filter (\<lambda>b. bk_Namespace b = ns) (bw_backups (world_at w h))),
     vmBackups_Create := \<lambda>h b. Inr b,
     vmBackups_Update := \<lambda>h b. Inr b,
     vmBackups_Delete := \<lambda>h ns n. Inr (),
     svmbackupCache_Get := \<lambda>h ns n. let s = bw_schedule (world_at w h) in if sv_Namespace s = ns \<and> sv_Name s = n then Inr s else found None,
     svmbackups_Update := \<lambda>h u. if sv_ResourceVersion u = sv_ResourceVersion (bw_schedule (world_at w h)) then Inr u
                                 else Inl (ApiStatus Conflict ''the object has been modified'')\<rparr>"

lemma sv_server_simps [simp]:
  "cronJobCache_Get (sv_server e w) h ns n =
     (let c = bw_cron (world_at w h) in if cj_Namespace c = ns \<and> cj_Name c = n then Inr c else found None)"
  "cronJobs_Update (sv_server e w) h c = Inr c"
  "vmBackupCache_Get (sv_server e w) h ns n = found (find (\<lambda>b. bk_Namespace b = ns \<and> bk_Name b = n) (bw_backups (world_at w h)))"
  "vmBackupCache_List (sv_server e w) h ns = Inr (filter (\<lambda>b. bk_Namespace b = ns) (bw_backups (world_at w h)))"
  "vmBackups_Create (sv_server e w) h b = Inr b" "vmBackups_Update (sv_server e w) h b = Inr b" "vmBackups_Delete (sv_server e w) h ns n = Inr ()"
  "svmbackupCache_Get (sv_server e w) h ns n =
     (let s = bw_schedule (world_at w h) in if sv_Namespace s = ns \<and> sv_Name s = n then Inr s else found None)"
  "svmbackups_Update (sv_server e w) h u =
     (if sv_ResourceVersion u = sv_ResourceVersion (bw_schedule (world_at w h)) then Inr u
      else Inl (ApiStatus Conflict ''the object has been modified''))"
  "sv_clock (sv_server e w) = sv_clock e" "local_offset (sv_server e w) = local_offset e" "sort_Slice (sv_server e w) = sort_Slice e"
  by (simp_all add: sv_server_def)

lemma sorts_server [simp]: "sorts (sv_server e w) = sorts e"
  by (simp add: sorts_def)


section \<open>Invariant of the backups\<close>










section \<open>Requests that leave the backups alone\<close>
















section \<open>Steps\<close>
























section \<open>Interleavings\<close>




section \<open>Resuming a schedule\<close>
























section \<open>Concrete instances\<close>

definition sample_schedule :: svmbackup where
  "sample_schedule = \<lparr>sv_Namespace = ''default'', sv_Name = ''daily'', sv_UID = ''u1'', sv_ResourceVersion = 7, sv_Annotations = None,
     sv_DeletionTimestamp = None, sv_Cron = ''0 2 * * *'', sv_Retain = 3, sv_MaxFailure = 2, sv_Suspend = False,
     sv_VMBackupSpec = \<lparr>bs_SourceKind = ''VirtualMachine'', bs_SourceName = ''vm1'', bs_Type = BackupType_Backup, bs_FsFreezeDeadline = None\<rparr>,
     sv_VMBackupInfo = None, sv_Failure = 2, sv_Suspended = True, sv_Conditions = []\<rparr>"

definition sample_backup :: "string \<Rightarrow> bool \<Rightarrow> vmbackup" where
  "sample_backup ts ok = (new_vmbackup sample_schedule ts)\<lparr>bk_SourceSpec := Some (), bk_VolumeBackups := Some [],
     bk_ReadyToUse := Some ok, bk_Error := (if ok then None else Some \<lparr>be_Time = None, be_Message = Some ''timeout''\<rparr>)\<rparr>"


definition sample_sv_env :: sv_env where
  "sample_sv_env = \<lparr>
     cronJobCache_Get = \<lambda>h ns n. found None, cronJobs_Create = \<lambda>h c. Inr c, cronJobs_Update = \<lambda>h c. Inr c, cronJobs_Delete = \<lambda>h ns n. Inr (),
     vmBackupCache_Get = \<lambda>h ns n. found None, vmBackupCache_List = \<lambda>h ns. Inr [], vmBackups_Create = \<lambda>h b. Inr b,
     vmBackups_Update = \<lambda>h b. Inr b, vmBackups_Delete = \<lambda>h ns n. Inr (), svmbackupCache_Get = \<lambda>h ns n. found None,
     svmbackups_Update = \<lambda>h s. Inr s, lhbackupCache_Get = \<lambda>h ns n. found None, lhbackups_Delete = \<lambda>h ns n. Inr (),
     snapshotContentCache_GetRef = \<lambda>n. found None, snapshotCache_Get = \<lambda>ns n. found None, FetchImage = Inr ''img'',
     sv_clock = \<lambda>h. 1735783200 * nanos, local_offset = \<lambda>t. 0, sort_Slice = sort_key backup_time\<rparr>"

lemma sample_sorts: "sorts sample_sv_env"
  by (simp add: sorts_def sample_sv_env_def)



text \<open>Four backups, one of them failed, and three to retain.\<close>

definition full_list :: "vmbackup list" where
  "full_list = [sample_backup ''20250104.0200'' True, sample_backup ''20250101.0200'' True, sample_backup ''20250102.0200'' False,
     sample_backup ''20250103.0200'' True]"

theorem gc_keeps_retained_witness:
  "length (issued (gcVMBackups (sample_sv_env\<lparr>vmBackupCache_List := \<lambda>h ns. Inr full_list\<rparr>) sample_schedule)) = 1"
proof -
  let ?e = "sample_sv_env\<lparr>vmBackupCache_List := \<lambda>h ns. Inr full_list\<rparr>"
  let ?bs = "own_backups ?e sample_schedule full_list"
  have "sorts ?e" using sample_sorts by (simp add: sorts_def)
  moreover have "vmBackupCache_List ?e [] (sv_Namespace sample_schedule) = Inr full_list" by simp
  moreover have bs: "?bs = [sample_backup ''20250101.0200'' True, sample_backup ''20250102.0200'' False,
      sample_backup ''20250103.0200'' True, sample_backup ''20250104.0200'' True]"
    by code_simp
  moreover have "distinct (map bk_Name full_list)" by code_simp
  moreover have "IsReady (sample_backup ts True)" "bk_Error (sample_backup ts True) = None" "sv_Retain sample_schedule = 3" for ts
    by (simp_all add: sample_backup_def IsReady_def sample_schedule_def)
  ultimately show ?thesis using gc_keeps_retained [of ?e sample_schedule full_list ?bs] by auto
qed



section \<open>Findings\<close>

text \<open>
  A volume backup without a name makes the handlers panic once the storage engine has a backup
  for it that is still in progress.
\<close>

lemma unnamed_volume_backup_panics:
  assumes "GetType b \<noteq> BackupType_Snapshot" and "bk_Error b \<noteq> None" and "bk_VolumeBackups b = Some (vb # vbs)"
    and "vb_Name vb = None" and "vb_LonghornBackupName vb = Some n"
    and "lhbackupCache_Get e [] LonghornSystemNamespaceName n = Inr l" and "\<not> lhBackupInFinalState l"
    and "lhbackups_Delete e [] (lh_Namespace l) (lh_Name l) = Inr ()"
  shows "\<exists>msg. outcome (checkLHBackupUnexpectedProcessing e s b) = Inl (Panic msg)"
  using assms by (simp add: checkLHBackupUnexpectedProcessing_def outcome_def GetVolBackups_def)

text \<open>Errors of deletions are lost: garbage collection reports success whatever the API server answers.\<close>

lemma gc_reports_success:
  assumes "vmBackupCache_List e [] (sv_Namespace s) = Inr all" and "distinct (map bk_Name (own_backups e s all))"
  shows "outcome (gcVMBackups e s) = Inr ()"
  using run_gcVMBackups [OF assms(1) refl assms(2)] by (simp add: outcome_def)

end
