(* ===== verification/Upgrade_Nodes.thy ===== *)
theory Upgrade_Nodes
  imports Kube_Objects Conditions Go_Time Go_Names
begin

text \<open>
  The node phase of a cluster upgrade (\<^verbatim>\<open>pkg/controller/master/upgrade\<close>). Rancher drains one node after
  the other and asks, through annotations on the plan secret of the machine, to run a hook before and
  after each drain. Harvester answers with jobs: the secret handler starts the job of a hook and
  records the state of the node in the upgrade object, the job handler takes the result of the job
  and acknowledges the hook, and the node handler acknowledges the post-drain hook of a node that had
  to reboot. Plan, manifest, repository and image handlers record the earlier phases.

  JSON and YAML decoding, the API server, the caches and the clock are parameters of the environment \<open>up_env\<close>.
\<close>

section \<open>Objects\<close>

record node_upgrade_status =
  ns_State :: string
  ns_Reason :: string
  ns_Message :: string

record upgrade =
  up_APIVersion :: string
  up_Kind :: string
  up_Namespace :: string
  up_Name :: string
  up_UID :: string
  up_ResourceVersion :: nat
  up_DeletionTimestamp :: "time option"
  up_Labels :: smap
  up_Annotations :: smap
  up_UpgradeImage :: "string option"
  up_RepoInfo :: string
  up_SingleNode :: string
  up_NodeStatuses :: "(string \<times> node_upgrade_status) list option"
  up_Conditions :: "condition list"

record harvester_release =
  rel_Harvester :: string
  rel_HarvesterChart :: string
  rel_HarvesterSystemDefaultRegistry :: string
  rel_OS :: string
  rel_Kubernetes :: string
  rel_Rancher :: string
  rel_RancherSystemDefaultRegistry :: string
  rel_ServerFlavor :: string
  rel_MonitoringChart :: string
  rel_MinUpgradableVersion :: string

record job_condition =
  jc_Type :: string
  jc_Status :: string
  jc_Reason :: string
  jc_Message :: string

record toleration =
  tol_Key :: string
  tol_Operator :: string
  tol_Value :: string
  tol_Effect :: string

record upgrade_job =
  uj_Namespace :: string
  uj_Name :: string
  uj_Labels :: smap
  uj_OwnerReferences :: "owner_ref list"
  uj_DeletionTimestamp :: "time option"
  uj_TTLSecondsAfterFinished :: "int option"
  uj_PodLabels :: smap
  uj_HostNamespaces :: "string list"
  uj_DNSPolicy :: string
  uj_RestartPolicy :: string
  uj_ContainerName :: string
  uj_Image :: string
  uj_Command :: "string list"
  uj_Args :: "string list"
  uj_Env :: "(string \<times> string) list"
  uj_EnvFieldRefs :: "(string \<times> string) list"
  uj_VolumeMounts :: "(string \<times> string) list"
  uj_Privileged :: bool
  uj_Capabilities :: "string list"
  uj_ServiceAccountName :: string
  uj_NodeAffinity :: "(string \<times> string \<times> string list) option"
  uj_Tolerations :: "toleration list"
  uj_HostPathVolumes :: "(string \<times> string \<times> string) list"
  uj_Active :: int
  uj_Succeeded :: int
  uj_Conditions :: "job_condition list"

record plan_secret =
  sec_Namespace :: string
  sec_Name :: string
  sec_Type :: string
  sec_Labels :: smap
  sec_Annotations :: smap
  sec_DeletionTimestamp :: "time option"

record machine =
  mach_NodeRef :: "string option"

record upgrade_node = node +
  un_OSImage :: string

record label_selector =
  ls_MatchLabels :: smap
  ls_MatchExpressions :: "(string \<times> string \<times> string list) list"

record upgrade_plan =
  pl_Namespace :: string
  pl_Name :: string
  pl_Labels :: smap
  pl_DeletionTimestamp :: "time option"
  pl_NodeSelector :: "label_selector option"
  pl_LatestHash :: string

record repo_deployment =
  dep_Namespace :: string
  dep_Name :: string
  dep_Labels :: smap
  dep_DeletionTimestamp :: "time option"
  dep_Conditions :: "(string \<times> string) list"

record upgrade_image =
  img_Namespace :: string
  img_Labels :: smap
  img_DeletionTimestamp :: "time option"
  img_Conditions :: "condition list"

datatype selection_op = SelEquals | SelIn | SelNotIn | SelExists | SelDoesNotExist

section \<open>Keys and states\<close>

definition harvesterUpgradeLabel :: string where [key_defs]: "harvesterUpgradeLabel = ''harvesterhci.io/upgrade''"
definition upgradeStateLabel :: string where [key_defs]: "upgradeStateLabel = ''harvesterhci.io/upgradeState''"
definition harvesterUpgradeComponentLabel :: string where
  [key_defs]: "harvesterUpgradeComponentLabel = ''harvesterhci.io/upgradeComponent''"
definition harvesterLatestUpgradeLabel :: string where
  [key_defs]: "harvesterLatestUpgradeLabel = ''harvesterhci.io/latestUpgrade''"
definition upgradeCleanupLabel :: string where [key_defs]: "upgradeCleanupLabel = ''harvesterhci.io/upgradeCleanup''"
definition upgradeJobTypeLabel :: string where [key_defs]: "upgradeJobTypeLabel = ''harvesterhci.io/upgradeJobType''"
definition harvesterNodeLabel :: string where [key_defs]: "harvesterNodeLabel = ''harvesterhci.io/node''"
definition upgradePlanLabel :: string where [key_defs]: "upgradePlanLabel = ''upgrade.cattle.io/plan''"
definition upgradeNodeLabel :: string where [key_defs]: "upgradeNodeLabel = ''upgrade.cattle.io/node''"
definition harvesterNodePendingOSImage :: string where
  [key_defs]: "harvesterNodePendingOSImage = ''harvesterhci.io/pendingOSImage''"
definition preDrainAnnotation :: string where [key_defs]: "preDrainAnnotation = ''harvesterhci.io/pre-hook''"
definition postDrainAnnotation :: string where [key_defs]: "postDrainAnnotation = ''harvesterhci.io/post-hook''"
definition rke2PreDrainAnnotation :: string where [key_defs]: "rke2PreDrainAnnotation = ''rke.cattle.io/pre-drain''"
definition rke2PostDrainAnnotation :: string where [key_defs]: "rke2PostDrainAnnotation = ''rke.cattle.io/post-drain''"
definition rancherPlanSecretMachineLabel :: string where
  [key_defs]: "rancherPlanSecretMachineLabel = ''rke.cattle.io/machine-name''"
definition MachineAnnotation :: string where [key_defs]: "MachineAnnotation = ''cluster.x-k8s.io/machine''"
definition AnnotationNodeUpgradePauseMap :: string where
  [key_defs]: "AnnotationNodeUpgradePauseMap = ''harvesterhci.io/node-upgrade-pause-map''"
definition shutdownVMOnMigrationFailureAnnotation :: string where
  [key_defs]: "shutdownVMOnMigrationFailureAnnotation = ''harvesterhci.io/shutdown-vm-on-migration-failure''"

abbreviation upgradeNamespace :: string where "upgradeNamespace \<equiv> ''harvester-system''"
abbreviation sucNamespace :: string where "sucNamespace \<equiv> ''cattle-system''"
abbreviation rancherPlanSecretNamespace :: string where "rancherPlanSecretNamespace \<equiv> ''fleet-local''"
abbreviation rancherMachineNamespace :: string where "rancherMachineNamespace \<equiv> ''fleet-local''"
abbreviation rancherPlanSecretType :: string where "rancherPlanSecretType \<equiv> ''rke.cattle.io/machine-plan''"
abbreviation nodeComponent :: string where "nodeComponent \<equiv> ''node''"
abbreviation manifestComponent :: string where "manifestComponent \<equiv> ''manifest''"
abbreviation upgradeComponentRepo :: string where "upgradeComponentRepo \<equiv> ''repo''"
abbreviation NodePause :: string where "NodePause \<equiv> ''pause''"
abbreviation NodeUnpause :: string where "NodeUnpause \<equiv> ''unpause''"

abbreviation UpgradeCompleted :: string where "UpgradeCompleted \<equiv> ''Completed''"
abbreviation ImageReady :: string where "ImageReady \<equiv> ''ImageReady''"
abbreviation RepoProvisioned :: string where "RepoProvisioned \<equiv> ''RepoReady''"
abbreviation NodesPrepared :: string where "NodesPrepared \<equiv> ''NodesPrepared''"
abbreviation NodesUpgraded :: string where "NodesUpgraded \<equiv> ''NodesUpgraded''"
abbreviation SystemServicesUpgraded :: string where "SystemServicesUpgraded \<equiv> ''SystemServicesUpgraded''"

abbreviation StatePreparingRepo :: string where "StatePreparingRepo \<equiv> ''PreparingRepo''"
abbreviation StateRepoPrepared :: string where "StateRepoPrepared \<equiv> ''RepoPrepared''"
abbreviation StatePreparingNodes :: string where "StatePreparingNodes \<equiv> ''PreparingNodes''"
abbreviation StateUpgradingNodes :: string where "StateUpgradingNodes \<equiv> ''UpgradingNodes''"
abbreviation StateSucceeded :: string where "StateSucceeded \<equiv> ''Succeeded''"
abbreviation StateFailed :: string where "StateFailed \<equiv> ''Failed''"
abbreviation StatePending :: string where "StatePending \<equiv> ''Pending''"

abbreviation nodeStateImagesPreloading :: string where "nodeStateImagesPreloading \<equiv> ''Images preloading''"
abbreviation nodeStateImagesPreloaded :: string where "nodeStateImagesPreloaded \<equiv> ''Images preloaded''"
abbreviation nodeStateUpgradePaused :: string where "nodeStateUpgradePaused \<equiv> ''Node-upgrade paused''"
abbreviation nodeStatePreDraining :: string where "nodeStatePreDraining \<equiv> ''Pre-draining''"
abbreviation nodeStatePreDrained :: string where "nodeStatePreDrained \<equiv> ''Pre-drained''"
abbreviation nodeStatePostDraining :: string where "nodeStatePostDraining \<equiv> ''Post-draining''"
abbreviation nodeStateWaitingReboot :: string where "nodeStateWaitingReboot \<equiv> ''Waiting Reboot''"

abbreviation upgradeJobTypePreDrain :: string where "upgradeJobTypePreDrain \<equiv> ''pre-drain''"
abbreviation upgradeJobTypePostDrain :: string where "upgradeJobTypePostDrain \<equiv> ''post-drain''"
abbreviation upgradeJobTypeRestoreVM :: string where "upgradeJobTypeRestoreVM \<equiv> ''restore-vm''"
abbreviation upgradeJobTypeSingleNodeUpgrade :: string where "upgradeJobTypeSingleNodeUpgrade \<equiv> ''single-node-upgrade''"

definition upgradeCommonRequeueInterval :: int where "upgradeCommonRequeueInterval = 20 * nanos"
definition defaultTTLSecondsAfterFinished :: int where "defaultTTLSecondsAfterFinished = 604800"

section \<open>Status of the upgrade\<close>

definition node_statuses :: "upgrade \<Rightarrow> (string \<times> node_upgrade_status) list" where
  "node_statuses u = (case up_NodeStatuses u of None \<Rightarrow> [] | Some l \<Rightarrow> l)"

text \<open>\<open>upgrade.Status.NodeStatuses[nodeName].State\<close>, empty for a node without an entry.\<close>

definition node_state :: "upgrade \<Rightarrow> string \<Rightarrow> string" where
  "node_state u n = (case map_of (node_statuses u) n of None \<Rightarrow> [] | Some s \<Rightarrow> ns_State s)"

definition upgrade_state :: "upgrade \<Rightarrow> string" where
  "upgrade_state u = sval (up_Labels u) upgradeStateLabel"

definition getNodeUpgradePauseMap :: "(string \<Rightarrow> smap result) \<Rightarrow> upgrade \<Rightarrow> smap result" where
  "getNodeUpgradePauseMap json u =
     (case sget (up_Annotations u) AnnotationNodeUpgradePauseMap of
        None \<Rightarrow> Inr None
      | Some value \<Rightarrow>
          (case json value of
             Inl err \<Rightarrow> Inl (errorf_w ''failed to unmarshal node upgrade pause map: '' err)
           | Inr pauseMap \<Rightarrow> Inr pauseMap))"

definition shouldPauseNodeUpgrade :: "(string \<Rightarrow> smap result) \<Rightarrow> upgrade \<Rightarrow> string \<Rightarrow> bool" where
  "shouldPauseNodeUpgrade json u nodeName =
     (case getNodeUpgradePauseMap json u of
        Inl err \<Rightarrow> False
      | Inr pauseMap \<Rightarrow> pauseMap \<noteq> None \<and> sval pauseMap nodeName = NodePause)"

definition markComplete :: "string \<Rightarrow> upgrade \<Rightarrow> upgrade" where
  "markComplete now u =
     (let u1 = u\<lparr>up_Labels := Some (case up_Labels u of None \<Rightarrow> [] | Some l \<Rightarrow> l)\<rparr>;
          cs = up_Conditions u;
          u2 = (if cond_IsTrue SystemServicesUpgraded cs \<and> cond_IsTrue NodesUpgraded cs
                then u1\<lparr>up_Conditions := cond_True now UpgradeCompleted cs,
                        up_Labels := sset (sset (up_Labels u1) upgradeStateLabel StateSucceeded) upgradeCleanupLabel StatePending\<rparr>
                else u1)
      in if cond_IsFalse ImageReady cs \<or> cond_IsFalse RepoProvisioned cs \<or>
            cond_IsFalse SystemServicesUpgraded cs \<or> cond_IsFalse NodesUpgraded cs
         then u2\<lparr>up_Conditions := cond_False now UpgradeCompleted (up_Conditions u2),
                 up_Labels := sset (sset (up_Labels u2) upgradeStateLabel StateFailed) upgradeCleanupLabel StatePending\<rparr>
         else u2)"

text \<open>The three writes to a condition that all setters below make before \<open>markComplete\<close>.\<close>

definition set_condition :: "string \<Rightarrow> string \<Rightarrow> upgrade \<Rightarrow> string \<Rightarrow> string \<Rightarrow> string \<Rightarrow> upgrade" where
  "set_condition now name u status reason message =
     u\<lparr>up_Conditions := cond_Message now name message (cond_Reason name reason (setStatus now name status (up_Conditions u)))\<rparr>"

definition setImageReadyCondition :: "string \<Rightarrow> upgrade \<Rightarrow> string \<Rightarrow> string \<Rightarrow> string \<Rightarrow> upgrade" where
  "setImageReadyCondition now u status reason message = markComplete now (set_condition now ImageReady u status reason message)"

definition setRepoProvisionedCondition :: "string \<Rightarrow> upgrade \<Rightarrow> string \<Rightarrow> string \<Rightarrow> string \<Rightarrow> upgrade" where
  "setRepoProvisionedCondition now u status reason message =
     markComplete now (set_condition now RepoProvisioned u status reason message)"

definition setNodesPreparedCondition :: "string \<Rightarrow> upgrade \<Rightarrow> string \<Rightarrow> string \<Rightarrow> string \<Rightarrow> upgrade" where
  "setNodesPreparedCondition now u status reason message =
     markComplete now (set_condition now NodesPrepared u status reason message)"

definition setNodesUpgradedCondition :: "string \<Rightarrow> upgrade \<Rightarrow> string \<Rightarrow> string \<Rightarrow> string \<Rightarrow> upgrade" where
  "setNodesUpgradedCondition now u status reason message =
     markComplete now (set_condition now NodesUpgraded u status reason message)"

definition setHelmChartUpgradeStatus :: "string \<Rightarrow> upgrade \<Rightarrow> string \<Rightarrow> string \<Rightarrow> string \<Rightarrow> upgrade" where
  "setHelmChartUpgradeStatus now u status reason message =
     (if cond_IsTrue SystemServicesUpgraded (up_Conditions u) \<or> cond_IsFalse SystemServicesUpgraded (up_Conditions u) then u
      else markComplete now (set_condition now SystemServicesUpgraded u status reason message))"

definition setNodeUpgradeStatus :: "string \<Rightarrow> upgrade \<Rightarrow> string \<Rightarrow> string \<Rightarrow> string \<Rightarrow> string \<Rightarrow> upgrade" where
  "setNodeUpgradeStatus now u nodeName state reason message =
     (let entry = \<lparr>ns_State = state, ns_Reason = reason, ns_Message = message\<rparr>
      in if map_of (node_statuses u) nodeName = Some entry then u\<lparr>up_NodeStatuses := Some (node_statuses u)\<rparr>
         else let statuses = AList.update nodeName entry (node_statuses u);
                  u' = u\<lparr>up_NodeStatuses := Some statuses\<rparr>
              in if state = StateFailed then setNodesUpgradedCondition now u' ConditionFalse reason message
                 else if upgrade_state u' = StateUpgradingNodes \<and> list_all (\<lambda>(k, s). ns_State s = StateSucceeded) statuses
                 then setNodesUpgradedCondition now u' ConditionTrue [] []
                 else u')"

section \<open>Jobs\<close>

definition GetHarvesterUpgradeImage :: "string \<Rightarrow> string \<Rightarrow> string" where
  "GetHarvesterUpgradeImage registry version =
     (if registry \<noteq> [] then registry @ ''/harvester/harvester-upgrade:'' @ version
      else ''rancher/harvester-upgrade:'' @ version)"

definition getTargetUpgradeImage :: "harvester_release \<Rightarrow> string" where
  "getTargetUpgradeImage r = GetHarvesterUpgradeImage (rel_HarvesterSystemDefaultRegistry r) (rel_Harvester r)"

definition GetUpgradeImage :: "upgrade \<Rightarrow> string \<Rightarrow> string" where
  "GetUpgradeImage u defaultImage = (case up_UpgradeImage u of None \<Rightarrow> defaultImage | Some i \<Rightarrow> i)"

definition upgradeReference :: "upgrade \<Rightarrow> owner_ref" where
  "upgradeReference u = \<lparr>or_APIVersion = up_APIVersion u, or_Kind = up_Kind u, or_Name = up_Name u, or_UID = up_UID u\<rparr>"

definition getDefaultTolerations :: "toleration list" where
  "getDefaultTolerations =
     [\<lparr>tol_Key = ''node.kubernetes.io/unschedulable'', tol_Operator = ''Exists'', tol_Value = [], tol_Effect = ''NoSchedule''\<rparr>,
      \<lparr>tol_Key = KubeControlPlaneNodeLabelKey, tol_Operator = ''Exists'', tol_Value = [], tol_Effect = ''NoExecute''\<rparr>,
      \<lparr>tol_Key = KubeEtcdNodeLabelKey, tol_Operator = ''Exists'', tol_Value = [], tol_Effect = ''NoExecute''\<rparr>,
      \<lparr>tol_Key = ''kubevirt.io/drain'', tol_Operator = ''Exists'', tol_Value = [], tol_Effect = ''NoSchedule''\<rparr>,
      \<lparr>tol_Key = ''CriticalAddonsOnly'', tol_Operator = ''Exists'', tol_Value = [], tol_Effect = []\<rparr>,
      \<lparr>tol_Key = ''node.kubernetes.io/unreachable'', tol_Operator = ''Exists'', tol_Value = [], tol_Effect = ''NoExecute''\<rparr>,
      \<lparr>tol_Key = ''kubernetes.io/arch'', tol_Operator = ''Equal'', tol_Value = ''amd64'', tol_Effect = ''NoSchedule''\<rparr>,
      \<lparr>tol_Key = ''kubernetes.io/arch'', tol_Operator = ''Equal'', tol_Value = ''arm64'', tol_Effect = ''NoSchedule''\<rparr>,
      \<lparr>tol_Key = ''kubernetes.io/arch'', tol_Operator = ''Equal'', tol_Value = ''arm'', tol_Effect = ''NoSchedule''\<rparr>]"

definition applyNodeJob :: "upgrade \<Rightarrow> harvester_release \<Rightarrow> string \<Rightarrow> string \<Rightarrow> upgrade_job" where
  "applyNodeJob u r nodeName jobType =
     \<lparr>uj_Namespace = up_Namespace u, uj_Name = SafeConcatName [up_Name u, jobType, nodeName],
      uj_Labels = Some [(harvesterUpgradeLabel, up_Name u), (harvesterUpgradeComponentLabel, nodeComponent),
                        (harvesterNodeLabel, nodeName), (upgradeJobTypeLabel, jobType)],
      uj_OwnerReferences = [upgradeReference u], uj_DeletionTimestamp = None,
      uj_TTLSecondsAfterFinished = Some defaultTTLSecondsAfterFinished,
      uj_PodLabels = Some [(harvesterUpgradeLabel, up_Name u), (harvesterUpgradeComponentLabel, nodeComponent),
                           (upgradeJobTypeLabel, jobType)],
      uj_HostNamespaces = [''ipc'', ''pid'', ''network''], uj_DNSPolicy = ''ClusterFirstWithHostNet'',
      uj_RestartPolicy = ''Never'', uj_ContainerName = ''apply'',
      uj_Image = GetUpgradeImage u (getTargetUpgradeImage r),
      uj_Command = [''do_upgrade_node.sh''], uj_Args = [jobType],
      uj_Env = [(''HARVESTER_UPGRADE_NAME'', up_Name u), (''HARVESTER_UPGRADE_NODE_NAME'', nodeName),
                (''HARVESTER_SHUTDOWN_VM_ON_MIGRATION_FAILURE'',
                 if sval (up_Annotations u) shutdownVMOnMigrationFailureAnnotation = ''true'' then ''true'' else ''false'')],
      uj_EnvFieldRefs = [(''HARVESTER_UPGRADE_POD_NAME'', ''metadata.name'')],
      uj_VolumeMounts = [(''host-root'', ''/host'')], uj_Privileged = True, uj_Capabilities = [''CAP_SYS_BOOT''],
      uj_ServiceAccountName = ''harvester'', uj_NodeAffinity = Some (LabelHostname, ''In'', [nodeName]),
      uj_Tolerations = getDefaultTolerations, uj_HostPathVolumes = [(''host-root'', ''/'', ''Directory'')],
      uj_Active = 0, uj_Succeeded = 0, uj_Conditions = []\<rparr>"

definition applyRestoreVMJob :: "upgrade \<Rightarrow> harvester_release \<Rightarrow> string \<Rightarrow> upgrade_job" where
  "applyRestoreVMJob u r nodeName =
     \<lparr>uj_Namespace = up_Namespace u, uj_Name = SafeConcatName [up_Name u, upgradeJobTypeRestoreVM, nodeName],
      uj_Labels = Some [(harvesterUpgradeLabel, up_Name u), (harvesterNodeLabel, nodeName),
                        (upgradeJobTypeLabel, upgradeJobTypeRestoreVM)],
      uj_OwnerReferences = [upgradeReference u], uj_DeletionTimestamp = None,
      uj_TTLSecondsAfterFinished = Some defaultTTLSecondsAfterFinished,
      uj_PodLabels = Some [(harvesterUpgradeLabel, up_Name u), (upgradeJobTypeLabel, upgradeJobTypeRestoreVM)],
      uj_HostNamespaces = [], uj_DNSPolicy = [], uj_RestartPolicy = ''Never'', uj_ContainerName = ''apply'',
      uj_Image = GetUpgradeImage u (getTargetUpgradeImage r), uj_Command = [''upgrade-helper''],
      uj_Args = [''restore-vm'', ''--node'', nodeName, ''--upgrade'', up_Name u],
      uj_Env = [], uj_EnvFieldRefs = [], uj_VolumeMounts = [], uj_Privileged = False, uj_Capabilities = [],
      uj_ServiceAccountName = ''harvester'', uj_NodeAffinity = Some (LabelHostname, ''In'', [nodeName]),
      uj_Tolerations = getDefaultTolerations, uj_HostPathVolumes = [],
      uj_Active = 0, uj_Succeeded = 0, uj_Conditions = []\<rparr>"

section \<open>Requests and environment\<close>

datatype up_call =
    UpgradeUpdate upgrade
  | JobCreate upgrade_job
  | SecretList string string string string
  | SecretUpdate plan_secret
  | NodeUpdate upgrade_node
  | SecretEnqueueAfter string string int
  | NodeEnqueueAfter string int
  | PlanEnqueueAfter string string int
  | Sleep int

record up_env =
  upgradeCache_Get :: "up_call list \<Rightarrow> string \<Rightarrow> string \<Rightarrow> upgrade result"
  upgradeCache_List :: "up_call list \<Rightarrow> string \<Rightarrow> upgrade list result"
  upgradeClient_Update :: "up_call list \<Rightarrow> upgrade \<Rightarrow> upgrade result"
  jobCache_List :: "up_call list \<Rightarrow> string \<Rightarrow> upgrade_job list result"
  jobCache_Get :: "up_call list \<Rightarrow> string \<Rightarrow> string \<Rightarrow> upgrade_job result"
  jobClient_Create :: "up_call list \<Rightarrow> upgrade_job \<Rightarrow> upgrade_job result"
  machineCache_Get :: "up_call list \<Rightarrow> string \<Rightarrow> string \<Rightarrow> machine result"
  upNodeCache_Get :: "up_call list \<Rightarrow> string \<Rightarrow> upgrade_node result"
  upNodeCache_List :: "up_call list \<Rightarrow> upgrade_node list result"
  nodeClient_Update :: "up_call list \<Rightarrow> upgrade_node \<Rightarrow> upgrade_node result"
  secretClient_List :: "up_call list \<Rightarrow> string \<Rightarrow> string \<Rightarrow> string \<Rightarrow> string \<Rightarrow> plan_secret list result"
  secretClient_Update :: "up_call list \<Rightarrow> plan_secret \<Rightarrow> plan_secret result"
  planCache_Get :: "up_call list \<Rightarrow> string \<Rightarrow> string \<Rightarrow> upgrade_plan result"
  configMapCache_Get :: "up_call list \<Rightarrow> string \<Rightarrow> string \<Rightarrow> smap result"
  settingCache_Get :: "up_call list \<Rightarrow> string \<Rightarrow> setting result"
  upgrade_config_json :: "string \<Rightarrow> bool result"
  pause_map_json :: "string \<Rightarrow> smap result"
  repo_info_yaml :: "string \<Rightarrow> harvester_release result"
  labels_NewRequirement :: "string \<Rightarrow> selection_op \<Rightarrow> string list \<Rightarrow> unit result"
  up_clock :: "up_call list \<Rightarrow> time"
  rand_Intn :: "up_call list \<Rightarrow> int"
  up_namespace :: string

definition up_now :: "up_env \<Rightarrow> up_call list \<Rightarrow> string" where
  "up_now e h = Format_RFC3339 (up_clock e h)"

definition upgrade_update :: "up_env \<Rightarrow> upgrade \<Rightarrow> (up_call, upgrade result) act" where
  "upgrade_update e u = request (UpgradeUpdate u) (\<lambda>h. upgradeClient_Update e h u)"

text \<open>A list with the selector \<^verbatim>\<open>key=value\<close>.\<close>

definition labelled :: "('a \<Rightarrow> smap) \<Rightarrow> string \<Rightarrow> string \<Rightarrow> 'a list \<Rightarrow> 'a list" where
  "labelled lab key v xs = filter (\<lambda>x. sget (lab x) key = Some v) xs"

definition ensureSingleUpgrade :: "up_env \<Rightarrow> (up_call, upgrade result) act" where
  "ensureSingleUpgrade e =
     andthen (observe (\<lambda>h. upgradeCache_List e h (up_namespace e))) (\<lambda>us.
       let onGoingUpgrades = labelled up_Labels harvesterLatestUpgradeLabel ''true'' us
       in case onGoingUpgrades of
            [u] \<Rightarrow> ret (Inr u)
          | _ \<Rightarrow> ret (Inl (ErrorString (''there are '' @ int_str (int (length onGoingUpgrades)) @ '' on-going upgrades''))))"

definition getCachedRepoInfo :: "up_env \<Rightarrow> upgrade \<Rightarrow> harvester_release result" where
  "getCachedRepoInfo e u = repo_info_yaml e (up_RepoInfo u)"

section \<open>The secret handler\<close>

definition ann :: "plan_secret \<Rightarrow> string \<Rightarrow> string" where
  "ann s k = sval (sec_Annotations s) k"

definition isUnderPreDrain :: "plan_secret \<Rightarrow> bool" where
  "isUnderPreDrain s \<longleftrightarrow> ann s rke2PreDrainAnnotation \<noteq> ann s preDrainAnnotation"

text \<open>The first blocking entry is reported; the map is visited in some order.\<close>

definition checkEligibleToDrain :: "upgrade \<Rightarrow> string \<Rightarrow> unit result" where
  "checkEligibleToDrain u nodeName =
     (case find (\<lambda>(name, status). name \<noteq> nodeName \<and>
                  \<not> (ns_State status = StateSucceeded \<or> ns_State status = nodeStateImagesPreloaded)) (node_statuses u) of
        None \<Rightarrow> Inr ()
      | Some (name, status) \<Rightarrow>
          Inl (ErrorString (name @ '' is in \"{'' @ ns_State status @ '' '' @ ns_Reason status @ '' '' @ ns_Message status @
            ''}\" state so '' @ nodeName @ '' is not allowed to run any kind of job'')))"

definition checkPendingHookJobs :: "up_env \<Rightarrow> string \<Rightarrow> (up_call, unit result) act" where
  "checkPendingHookJobs e upgradeName =
     andthen (observe (\<lambda>h. jobCache_List e h (up_namespace e))) (\<lambda>js.
       case find (\<lambda>j. uj_Succeeded j = 0) (labelled uj_Labels harvesterUpgradeLabel upgradeName js) of
         None \<Rightarrow> ret (Inr ())
       | Some j \<Rightarrow> ret (Inl (ErrorString (''there are pending jobs: ('' @ uj_Namespace j @ ''/'' @ uj_Name j @ '')''))))"

text \<open>Set the state of a node in a copy of the upgrade and update it.\<close>

definition record_node_state :: "up_env \<Rightarrow> upgrade \<Rightarrow> string \<Rightarrow> string \<Rightarrow> string \<Rightarrow> string \<Rightarrow> (up_call, unit result) act" where
  "record_node_state e u nodeName state reason message = do {
     now \<leftarrow> observe (up_now e);
     andthen (upgrade_update e (setNodeUpgradeStatus now u nodeName state reason message)) (\<lambda>_. ret (Inr ())) }"

text \<open>\<^verbatim>\<open>jobClient.Create\<close>, where a job that already exists is not an error.\<close>

definition create_job :: "up_env \<Rightarrow> upgrade_job \<Rightarrow> (up_call, unit result) act" where
  "create_job e job = do {
     r \<leftarrow> request (JobCreate job) (\<lambda>h. jobClient_Create e h job);
     ret (case r of Inl err \<Rightarrow> if is_already_exists err then Inr () else Inl err | Inr _ \<Rightarrow> Inr ()) }"

definition createHookJob :: "up_env \<Rightarrow> upgrade \<Rightarrow> string \<Rightarrow> string \<Rightarrow> string \<Rightarrow> (up_call, unit result) act" where
  "createHookJob e u nodeName jobType nextState =
     andthen (checkPendingHookJobs e (up_Name u)) (\<lambda>_.
       case getCachedRepoInfo e u of
         Inl err \<Rightarrow> ret (Inl err)
       | Inr repoInfo \<Rightarrow>
           andthen (create_job e (applyNodeJob u repoInfo nodeName jobType)) (\<lambda>_.
             record_node_state e u nodeName nextState [] []))"

definition unpause_node :: "up_env \<Rightarrow> plan_secret \<Rightarrow> upgrade \<Rightarrow> string \<Rightarrow> (up_call, unit result) act" where
  "unpause_node e s u nodeName = 
     andthen (record_node_state e u nodeName nodeStateImagesPreloaded [] []) (\<lambda>_. do {
       _ \<leftarrow> request (SecretEnqueueAfter (sec_Namespace s) (sec_Name s) (5 * nanos)) (\<lambda>h. ());
       ret (Inr ()) })"

text \<open>The switch over the state of the node.\<close>

definition secret_switch :: "up_env \<Rightarrow> plan_secret \<Rightarrow> upgrade \<Rightarrow> string \<Rightarrow> (up_call, unit result) act" where
  "secret_switch e s u nodeName =
     (let state = node_state u nodeName
      in if state = nodeStateImagesPreloaded then
           (if \<not> isUnderPreDrain s then ret (Inr ())
            else if shouldPauseNodeUpgrade (pause_map_json e) u nodeName then
              record_node_state e u nodeName nodeStateUpgradePaused ''AdministrativelyPaused''
                ''Node upgrade paused as requested by the user''
            else case checkEligibleToDrain u nodeName of
                   Inl err \<Rightarrow> ret (Inl err)
                 | Inr _ \<Rightarrow> createHookJob e u nodeName upgradeJobTypePreDrain nodeStatePreDraining)
         else if state = nodeStateUpgradePaused then
           (if \<not> isUnderPreDrain s then ret (Inr ())
            else if shouldPauseNodeUpgrade (pause_map_json e) u nodeName then ret (Inr ())
            else unpause_node e s u nodeName)
         else if state = nodeStatePreDrained then
           (if ann s rke2PostDrainAnnotation = ann s postDrainAnnotation then ret (Inr ())
            else case checkEligibleToDrain u nodeName of
                   Inl err \<Rightarrow> ret (Inl err)
                 | Inr _ \<Rightarrow> createHookJob e u nodeName upgradeJobTypePostDrain nodeStatePostDraining)
         else ret (Inr ()))"

definition OnChanged_secret :: "up_env \<Rightarrow> plan_secret option \<Rightarrow> (up_call, plan_secret option result) act" where
  "OnChanged_secret e arg =
     (case arg of
        None \<Rightarrow> ret (Inr None)
      | Some s \<Rightarrow>
          if sec_DeletionTimestamp s \<noteq> None \<or> sec_Namespace s \<noteq> rancherPlanSecretNamespace \<or>
             sec_Annotations s = None \<or> sec_Type s \<noteq> rancherPlanSecretType then ret (Inr (Some s))
          else if ann s rke2PreDrainAnnotation = [] \<and> ann s rke2PostDrainAnnotation = [] then ret (Inr (Some s))
          else if ann s rke2PreDrainAnnotation = ann s preDrainAnnotation \<and>
                  ann s rke2PostDrainAnnotation = ann s postDrainAnnotation then ret (Inr (Some s))
          else andthen (ensureSingleUpgrade e) (\<lambda>u.
            if upgrade_state u \<noteq> StateUpgradingNodes then ret (Inr (Some s))
            else case sget (sec_Labels s) rancherPlanSecretMachineLabel of
                   None \<Rightarrow> ret (Inr (Some s))
                 | Some machineName \<Rightarrow> do {
                     m \<leftarrow> observe (\<lambda>h. machineCache_Get e h rancherMachineNamespace machineName);
                     (case m of
                        Inl _ \<Rightarrow> ret (Inr (Some s))
                      | Inr machine \<Rightarrow>
                          (case mach_NodeRef machine of
                             None \<Rightarrow> ret (Inr (Some s))
                           | Some nodeName \<Rightarrow>
                               if node_state u nodeName = [] then ret (Inr (Some s))
                               else andthen (secret_switch e s u nodeName) (\<lambda>_. ret (Inr (Some s))))) }))"

section \<open>The job handler\<close>

fun is_space :: "char \<Rightarrow> bool" where
  "is_space c = (let n = of_char c :: nat in n = 32 \<or> 9 \<le> n \<and> n \<le> 13)"

text \<open>\<^verbatim>\<open>strings.TrimSpace(s) == ""\<close> for ASCII text.\<close>

definition blank :: "string \<Rightarrow> bool" where
  "blank s = list_all is_space s"

definition GetRestoreVMConfigMapName :: "string \<Rightarrow> string" where
  "GetRestoreVMConfigMapName upgradeName = SafeConcatName [upgradeName, ''restore-vm'']"

text \<open>\<^verbatim>\<open>settings.DecodeConfig\<close> at the type \<^verbatim>\<open>UpgradeConfig\<close>, of which only \<^verbatim>\<open>RestoreVM\<close> is read here.\<close>

definition DecodeConfig_RestoreVM :: "up_env \<Rightarrow> string \<Rightarrow> bool result" where
  "DecodeConfig_RestoreVM e value =
     (if value = [] then Inr False
      else case upgrade_config_json e value of
             Inl err \<Rightarrow> Inl (WrapError ''unmarshal failed, error: '' err ('', value: '' @ value))
           | Inr b \<Rightarrow> Inr b)"

definition IsRestoreVM :: "up_env \<Rightarrow> (up_call, bool result) act" where
  "IsRestoreVM e =
     andthen (observe (\<lambda>h. settingCache_Get e h ''upgrade-config'')) (\<lambda>s.
       ret (DecodeConfig_RestoreVM e (if set_Value s = [] then set_Default s else set_Value s)))"

definition sendRestoreVMJob :: "up_env \<Rightarrow> upgrade \<Rightarrow> upgrade_node \<Rightarrow> harvester_release \<Rightarrow> (up_call, unit result) act" where
  "sendRestoreVMJob e u n repoInfo = do {
     restoreVM \<leftarrow> IsRestoreVM e;
     if restoreVM \<noteq> Inr True \<or> shas (node_Labels n) HarvesterWitnessNodeLabelKey then ret (Inr ())
     else do {
       cm \<leftarrow> (let cmName = GetRestoreVMConfigMapName (up_Name u)
              in wrap_error (''failed to get ConfigMap '' @ cmName @ '': '')
                   (observe (\<lambda>h. configMapCache_Get e h (up_Namespace u) cmName)));
       (case cm of
          Inl err \<Rightarrow> ret (if is_not_found err then Inr () else Inl err)
        | Inr data \<Rightarrow>
            if data = None \<or> blank (sval data (node_Name n)) then ret (Inr ())
            else let restoreVMJob = applyRestoreVMJob u repoInfo (node_Name n)
                 in do {
                   j \<leftarrow> wrap_error (''failed to get restore VM job for node '' @ node_Name n @ '': '')
                         (observe (\<lambda>h. jobCache_Get e h (uj_Namespace restoreVMJob) (uj_Name restoreVMJob)));
                   (case j of
                      Inr _ \<Rightarrow> ret (Inr ())
                    | Inl err \<Rightarrow>
                        if \<not> is_not_found err then ret (Inl err)
                        else wrap_error (''failed to create restore VM job for node '' @ node_Name n @ '': '')
                               (create_job e restoreVMJob)) }) } }"

definition setNodeWaitRebootLabel :: "up_env \<Rightarrow> upgrade_node \<Rightarrow> harvester_release \<Rightarrow> (up_call, unit result) act" where
  "setNodeWaitRebootLabel e n repoInfo =
     (let nodeUpdate = n\<lparr>node_Annotations := sset (node_Annotations n) harvesterNodePendingOSImage (rel_OS repoInfo)\<rparr>
      in andthen (request (NodeUpdate nodeUpdate) (\<lambda>h. nodeClient_Update e h nodeUpdate)) (\<lambda>_. ret (Inr ())))"

text \<open>
  The end of a post-drain or single-node job: the node is done if it already runs the new
  operating system and has to reboot otherwise. \<open>acked\<close> is what the job type lets the
  handler conclude about the post-drain hook.
\<close>

definition finish_node :: "up_env \<Rightarrow> upgrade \<Rightarrow> string \<Rightarrow> upgrade_node \<Rightarrow> harvester_release \<Rightarrow> bool \<Rightarrow> upgrade \<times> bool \<times> bool
    \<Rightarrow> (up_call, (upgrade \<times> bool \<times> bool) result) act" where
  "finish_node e u nodeName n repoInfo acked st =
     (case st of (toUpdate, preDrained, postDrained) \<Rightarrow>
        if rel_OS repoInfo = un_OSImage n
        then andthen (sendRestoreVMJob e u n repoInfo) (\<lambda>_. do {
               now \<leftarrow> observe (up_now e);
               ret (Inr (setNodeUpgradeStatus now toUpdate nodeName StateSucceeded [] [], preDrained, postDrained \<or> acked)) })
        else do {
               now \<leftarrow> observe (up_now e);
               let toUpdate' = setNodeUpgradeStatus now toUpdate nodeName nodeStateWaitingReboot [] []
               in andthen (setNodeWaitRebootLabel e n repoInfo) (\<lambda>_. ret (Inr (toUpdate', preDrained, postDrained))) })"

definition node_job_condition :: "up_env \<Rightarrow> upgrade \<Rightarrow> string \<Rightarrow> upgrade_node \<Rightarrow> harvester_release \<Rightarrow> string \<Rightarrow> job_condition \<Rightarrow>
    upgrade \<times> bool \<times> bool \<Rightarrow> (up_call, (upgrade \<times> bool \<times> bool) result) act" where
  "node_job_condition e u nodeName n repoInfo jobType c st =
     (let nodeState = node_state u nodeName; (toUpdate, preDrained, postDrained) = st
      in if jc_Type c = ''Failed'' \<and> jc_Status c = ''True'' then do {
           now \<leftarrow> observe (up_now e);
           ret (Inr (setNodeUpgradeStatus now toUpdate nodeName StateFailed (jc_Reason c) (jc_Message c), preDrained, postDrained)) }
         else if jc_Type c = ''Complete'' \<and> jc_Status c = ''True'' then
           (if jobType = upgradeJobTypePreDrain \<and> nodeState = nodeStatePreDraining then do {
              now \<leftarrow> observe (up_now e);
              ret (Inr (setNodeUpgradeStatus now toUpdate nodeName nodeStatePreDrained [] [], True, postDrained)) }
            else if jobType = upgradeJobTypePostDrain \<and> nodeState = nodeStatePostDraining then finish_node e u nodeName n repoInfo True st
            else if jobType = upgradeJobTypeSingleNodeUpgrade then finish_node e u nodeName n repoInfo False st
            else ret (Inr st))
         else ret (Inr st))"

fun node_job_conditions :: "up_env \<Rightarrow> upgrade \<Rightarrow> string \<Rightarrow> upgrade_node \<Rightarrow> harvester_release \<Rightarrow> string \<Rightarrow> job_condition list \<Rightarrow>
    upgrade \<times> bool \<times> bool \<Rightarrow> (up_call, (upgrade \<times> bool \<times> bool) result) act" where
  "node_job_conditions e u nodeName n repoInfo jobType [] st = ret (Inr st)"
| "node_job_conditions e u nodeName n repoInfo jobType (c # cs) st =
     andthen (node_job_condition e u nodeName n repoInfo jobType c st) (node_job_conditions e u nodeName n repoInfo jobType cs)"

definition update_if_changed :: "up_env \<Rightarrow> upgrade \<Rightarrow> upgrade \<Rightarrow> (up_call, unit result) act" where
  "update_if_changed e u toUpdate =
     (if u = toUpdate then ret (Inr ()) else andthen (upgrade_update e toUpdate) (\<lambda>_. ret (Inr ())))"

definition find_plan_secret :: "up_env \<Rightarrow> string \<Rightarrow> (up_call, plan_secret result) act" where
  "find_plan_secret e machineName =
     andthen (request (SecretList rancherPlanSecretNamespace rancherPlanSecretMachineLabel machineName rancherPlanSecretType)
        (\<lambda>h. secretClient_List e h rancherPlanSecretNamespace rancherPlanSecretMachineLabel machineName rancherPlanSecretType))
       (\<lambda>secrets. case secrets of
          [s] \<Rightarrow> ret (Inr s)
        | _ \<Rightarrow> ret (Inl (ErrorString (''found '' @ int_str (int (length secrets)) @ '' plan secret for machine '' @ machineName))))"

definition acknowledge :: "up_env \<Rightarrow> plan_secret \<Rightarrow> string \<Rightarrow> string \<Rightarrow> (up_call, unit result) act" where
  "acknowledge e s hook request_key =
     (let toUpdate = s\<lparr>sec_Annotations := sset (sec_Annotations s) hook (ann s request_key)\<rparr>
      in andthen (request (SecretUpdate toUpdate) (\<lambda>h. secretClient_Update e h toUpdate)) (\<lambda>_. ret (Inr ())))"

definition when_do :: "bool \<Rightarrow> (up_call, unit result) act \<Rightarrow> (up_call, unit result) act" where
  "when_do b m = (if b then m else ret (Inr ()))"

text \<open>The part after the lookups: conditions, update of the upgrade, acknowledgement.\<close>

definition sync_node_job :: "up_env \<Rightarrow> upgrade_job \<Rightarrow> string \<Rightarrow> string \<Rightarrow> upgrade_node \<Rightarrow> string \<Rightarrow> upgrade \<Rightarrow> harvester_release \<Rightarrow>
    (up_call, unit result) act" where
  "sync_node_job e job jobType nodeName n machineName u repoInfo =
     andthen (node_job_conditions e u nodeName n repoInfo jobType (uj_Conditions job) (u, False, False)) (\<lambda>(toUpdate, preDrained, postDrained).
       andthen (update_if_changed e u toUpdate) (\<lambda>_.
         andthen (find_plan_secret e machineName) (\<lambda>s.
           andthen (when_do preDrained (acknowledge e s preDrainAnnotation rke2PreDrainAnnotation)) (\<lambda>_.
             when_do postDrained (acknowledge e s postDrainAnnotation rke2PostDrainAnnotation)))))"

definition syncNodeJob :: "up_env \<Rightarrow> upgrade_job \<Rightarrow> (up_call, upgrade_job option result) act" where
  "syncNodeJob e job =
     (case sget (uj_Labels job) upgradeJobTypeLabel of
        None \<Rightarrow> ret (Inl (ErrorString ''sync a job without type''))
      | Some jobType \<Rightarrow>
          (case sget (uj_Labels job) harvesterNodeLabel of
             None \<Rightarrow> ret (Inr (Some job))
           | Some nodeName \<Rightarrow> do {
               nr \<leftarrow> observe (\<lambda>h. upNodeCache_Get e h nodeName);
               (case nr of
                  Inl _ \<Rightarrow> ret (Inr (Some job))
                | Inr n \<Rightarrow>
                    (case (sget (node_Annotations n) MachineAnnotation, sget (uj_Labels job) harvesterUpgradeLabel) of
                       (Some machineName, Some upgradeName) \<Rightarrow>
                         andthen (observe (\<lambda>h. upgradeCache_Get e h (up_namespace e) upgradeName)) (\<lambda>u.
                           case getCachedRepoInfo e u of
                             Inl err \<Rightarrow> ret (Inl err)
                           | Inr repoInfo \<Rightarrow>
                               andthen (sync_node_job e job jobType nodeName n machineName u repoInfo) (\<lambda>_. ret (Inr (Some job))))
                     | _ \<Rightarrow> ret (Inr (Some job)))) }))"

fun plan_job_status :: "string \<Rightarrow> string \<Rightarrow> job_condition list \<Rightarrow> upgrade \<Rightarrow> upgrade" where
  "plan_job_status now nodeName [] u = u"
| "plan_job_status now nodeName (c # cs) u =
     plan_job_status now nodeName cs
       (if jc_Type c = ''Failed'' \<and> jc_Status c = ''True''
        then setNodeUpgradeStatus now u nodeName StateFailed (jc_Reason c) (jc_Message c)
        else if jc_Type c = ''Complete'' \<and> jc_Status c = ''True''
        then setNodeUpgradeStatus now u nodeName nodeStateImagesPreloaded [] []
        else u)"

definition syncPlanJob :: "up_env \<Rightarrow> upgrade_job \<Rightarrow> string \<Rightarrow> string \<Rightarrow> (up_call, upgrade_job option result) act" where
  "syncPlanJob e job planName nodeName =
     andthen (observe (\<lambda>h. planCache_Get e h sucNamespace planName)) (\<lambda>plan.
       case sget (pl_Labels plan) harvesterUpgradeLabel of
         None \<Rightarrow> ret (Inr (Some job))
       | Some upgradeName \<Rightarrow>
           andthen (observe (\<lambda>h. upgradeCache_Get e h (up_namespace e) upgradeName)) (\<lambda>u.
             if upgrade_state u \<noteq> StatePreparingNodes then ret (Inr (Some job))
             else do {
               now \<leftarrow> observe (up_now e);
               let toUpdate = (if 0 < uj_Active job then setNodeUpgradeStatus now u nodeName nodeStateImagesPreloading [] [] else u)
               in andthen (update_if_changed e u (plan_job_status now nodeName (uj_Conditions job) toUpdate)) (\<lambda>_.
                    ret (Inr (Some job))) }))"

fun manifest_job_status :: "string \<Rightarrow> job_condition list \<Rightarrow> upgrade \<Rightarrow> upgrade" where
  "manifest_job_status now [] u = u"
| "manifest_job_status now (c # cs) u =
     manifest_job_status now cs
       (if jc_Type c = ''Failed'' \<and> jc_Status c = ''True''
        then setHelmChartUpgradeStatus now u ConditionFalse (jc_Reason c) (jc_Message c)
        else if jc_Type c = ''Complete'' \<and> jc_Status c = ''True''
        then setHelmChartUpgradeStatus now u ConditionTrue [] []
        else u)"

definition syncManifestJob :: "up_env \<Rightarrow> upgrade_job \<Rightarrow> (up_call, upgrade_job option result) act" where
  "syncManifestJob e job =
     (case sget (uj_Labels job) harvesterUpgradeLabel of
        None \<Rightarrow> ret (Inr (Some job))
      | Some upgradeName \<Rightarrow> do {
          r \<leftarrow> observe (\<lambda>h. upgradeCache_Get e h (up_namespace e) upgradeName);
          (case r of
             Inl err \<Rightarrow> ret (if is_not_found err then Inr (Some job) else Inl err)
           | Inr u \<Rightarrow>
               if sval (up_Labels u) harvesterLatestUpgradeLabel \<noteq> ''true'' then ret (Inr (Some job))
               else if \<not> cond_IsUnknown SystemServicesUpgraded (up_Conditions u) \<or> 0 < uj_Active job then ret (Inr (Some job))
               else do {
                 now \<leftarrow> observe (up_now e);
                 andthen (update_if_changed e u (manifest_job_status now (uj_Conditions job) u)) (\<lambda>_. ret (Inr (Some job))) }) })"

definition OnChanged_job :: "up_env \<Rightarrow> upgrade_job option \<Rightarrow> (up_call, upgrade_job option result) act" where
  "OnChanged_job e arg =
     (case arg of
        None \<Rightarrow> ret (Inr None)
      | Some job \<Rightarrow>
          if uj_DeletionTimestamp job \<noteq> None \<or> uj_Labels job = None \<or>
             (uj_Namespace job \<noteq> upgradeNamespace \<and> uj_Namespace job \<noteq> sucNamespace) then ret (Inr (Some job))
          else let planName = sval (uj_Labels job) upgradePlanLabel; nodeName = sval (uj_Labels job) upgradeNodeLabel
               in if planName \<noteq> [] \<and> nodeName \<noteq> [] then syncPlanJob e job planName nodeName
                  else if sval (uj_Labels job) harvesterUpgradeComponentLabel = nodeComponent then syncNodeJob e job
                  else if sval (uj_Labels job) harvesterUpgradeComponentLabel = manifestComponent then syncManifestJob e job
                  else ret (Inr (Some job)))"

section \<open>The node handler\<close>

text \<open>Two attempts with a pause of two seconds after a conflict; \<open>f\<close> is the update function.\<close>

fun retryUpdateNodeOnConflict :: "nat \<Rightarrow> up_env \<Rightarrow> string \<Rightarrow> (upgrade_node \<Rightarrow> upgrade_node) \<Rightarrow> (up_call, unit result) act" where
  "retryUpdateNodeOnConflict 0 e nodeName f = ret (Inl (ErrorString ''fail to update node''))"
| "retryUpdateNodeOnConflict (Suc i) e nodeName f =
     andthen (observe (\<lambda>h. upNodeCache_Get e h nodeName)) (\<lambda>current.
       if node_DeletionTimestamp current \<noteq> None \<or> f current = current then ret (Inr ())
       else do {
         r \<leftarrow> request (NodeUpdate (f current)) (\<lambda>h. nodeClient_Update e h (f current));
         (case r of
            Inr _ \<Rightarrow> ret (Inr ())
          | Inl err \<Rightarrow>
              if \<not> is_conflict err then ret (Inl err)
              else do {
                _ \<leftarrow> request (Sleep (2 * nanos)) (\<lambda>h. ());
                retryUpdateNodeOnConflict i e nodeName f }) })"

definition clear_pending_os :: "upgrade_node \<Rightarrow> upgrade_node" where
  "clear_pending_os n = n\<lparr>node_Annotations := sdel (node_Annotations n) harvesterNodePendingOSImage\<rparr>"

definition node_rebooted :: "up_env \<Rightarrow> upgrade \<Rightarrow> upgrade_node \<Rightarrow> plan_secret \<Rightarrow> (up_call, unit result) act" where
  "node_rebooted e u n s =
     andthen (case getCachedRepoInfo e u of Inl _ \<Rightarrow> ret (Inr ()) | Inr repoInfo \<Rightarrow> sendRestoreVMJob e u n repoInfo) (\<lambda>_.
       andthen (record_node_state e u (node_Name n) StateSucceeded [] []) (\<lambda>_.
         andthen (when_do (up_SingleNode u = []) (acknowledge e s postDrainAnnotation rke2PostDrainAnnotation)) (\<lambda>_.
           retryUpdateNodeOnConflict 2 e (node_Name n) clear_pending_os)))"

definition OnChanged_node :: "up_env \<Rightarrow> upgrade_node option \<Rightarrow> (up_call, upgrade_node option result) act" where
  "OnChanged_node e arg =
     (case arg of
        None \<Rightarrow> ret (Inr None)
      | Some n \<Rightarrow>
          if node_DeletionTimestamp n \<noteq> None then ret (Inr (Some n))
          else case sget (node_Annotations n) harvesterNodePendingOSImage of
            None \<Rightarrow> ret (Inr (Some n))
          | Some expectedVersion \<Rightarrow>
              andthen (ensureSingleUpgrade e) (\<lambda>u.
                if upgrade_state u \<noteq> StateUpgradingNodes \<or> node_state u (node_Name n) \<noteq> nodeStateWaitingReboot
                then ret (Inr (Some n))
                else case sget (node_Annotations n) MachineAnnotation of
                  None \<Rightarrow> ret (Inr (Some n))
                | Some machineName \<Rightarrow>
                    andthen (find_plan_secret e machineName) (\<lambda>s.
                      if expectedVersion = un_OSImage n
                      then andthen (node_rebooted e u n s) (\<lambda>_. ret (Inr (Some n)))
                      else do {
                        _ \<leftarrow> request (NodeEnqueueAfter (node_Name n) upgradeCommonRequeueInterval) (\<lambda>h. ());
                        ret (Inr (Some n)) })))"

section \<open>The plan handler\<close>

type_synonym requirement = "string \<times> selection_op \<times> string list"

fun Matches :: "requirement \<Rightarrow> smap \<Rightarrow> bool" where
  "Matches (key, SelNotIn, vals) ls = (case sget ls key of None \<Rightarrow> True | Some v \<Rightarrow> v \<notin> set vals)"
| "Matches (key, SelExists, vals) ls = shas ls key"
| "Matches (key, SelDoesNotExist, vals) ls = (\<not> shas ls key)"
| "Matches (key, _, vals) ls = (case sget ls key of None \<Rightarrow> False | Some v \<Rightarrow> v \<in> set vals)"

definition selector_op :: "string \<Rightarrow> selection_op result" where
  "selector_op s =
     (if s = ''In'' then Inr SelIn else if s = ''NotIn'' then Inr SelNotIn
      else if s = ''Exists'' then Inr SelExists else if s = ''DoesNotExist'' then Inr SelDoesNotExist
      else Inl (ErrorString (''\"'' @ s @ ''\" is not a valid label selector operator'')))"

text \<open>\<^verbatim>\<open>labels_NewRequirement\<close> validates key and values and is a parameter.\<close>

definition NewRequirement :: "up_env \<Rightarrow> string \<Rightarrow> selection_op \<Rightarrow> string list \<Rightarrow> requirement result" where
  "NewRequirement e key op vals =
     (case labels_NewRequirement e key op vals of Inl err \<Rightarrow> Inl err | Inr _ \<Rightarrow> Inr (key, op, vals))"

definition LabelSelectorAsSelector :: "up_env \<Rightarrow> label_selector option \<Rightarrow> (smap \<Rightarrow> bool) result" where
  "LabelSelectorAsSelector e ps =
     (case ps of
        None \<Rightarrow> Inr (\<lambda>_. False)
      | Some s \<Rightarrow>
          (case map_result (\<lambda>(k, v). NewRequirement e k SelEquals [v]) (case ls_MatchLabels s of None \<Rightarrow> [] | Some l \<Rightarrow> l) of
             Inl err \<Rightarrow> Inl err
           | Inr rs \<Rightarrow>
               (case map_result (\<lambda>(k, opname, vals). case selector_op opname of Inl err \<Rightarrow> Inl err
                       | Inr op \<Rightarrow> NewRequirement e k op vals) (ls_MatchExpressions s) of
                  Inl err \<Rightarrow> Inl err
                | Inr rs' \<Rightarrow> Inr (\<lambda>ls. \<forall>r \<in> set (rs @ rs'). Matches r ls))))"

definition LabelPlanName :: "string \<Rightarrow> string" where
  "LabelPlanName name = ''plan.upgrade.cattle.io/'' @ name"

definition allAtLatestHash :: "up_env \<Rightarrow> upgrade_plan \<Rightarrow> (up_call, bool result) act" where
  "allAtLatestHash e plan =
     (case NewRequirement e (LabelPlanName (pl_Name plan)) SelNotIn [''disabled'', pl_LatestHash plan] of
        Inl err \<Rightarrow> ret (Inl err)
      | Inr notLatest \<Rightarrow>
          (case LabelSelectorAsSelector e (pl_NodeSelector plan) of
             Inl err \<Rightarrow> ret (Inl err)
           | Inr selector \<Rightarrow>
               andthen (observe (upNodeCache_List e)) (\<lambda>ns.
                 ret (Inr (filter (\<lambda>n. selector (node_Labels n) \<and> Matches notLatest (node_Labels n)) ns = [])))))"

definition plan_annotation :: "string \<Rightarrow> string option" where
  "plan_annotation component =
     map_of [(''apply-skip-rke2-manifests'', ''harvesterhci.io/apply-skip-rke2-manifests-plan-completed''),
             (''remove-skip-rke2-manifests'', ''harvesterhci.io/remove-skip-rke2-manifests-plan-completed''),
             (''cleanup'', ''harvesterhci.io/image-cleanup-plan-completed'')] component"

definition plan_done :: "up_env \<Rightarrow> upgrade \<Rightarrow> string \<Rightarrow> (up_call, unit result) act" where
  "plan_done e u component =
     andthen (case plan_annotation component of
                None \<Rightarrow> ret (Inr ())
              | Some annotation \<Rightarrow>
                  andthen (upgrade_update e (u\<lparr>up_Annotations := sset (up_Annotations u) annotation ''true''\<rparr>)) (\<lambda>_. ret (Inr ())))
       (\<lambda>_. if \<not> cond_IsTrue NodesPrepared (up_Conditions u) \<and> component = nodeComponent
            then do {
              now \<leftarrow> observe (up_now e);
              andthen (upgrade_update e (setNodesPreparedCondition now u ConditionTrue [] [])) (\<lambda>_. ret (Inr ())) }
            else ret (Inr ()))"

definition OnChanged_plan :: "up_env \<Rightarrow> upgrade_plan option \<Rightarrow> (up_call, upgrade_plan option result) act" where
  "OnChanged_plan e arg =
     (case arg of
        None \<Rightarrow> ret (Inr None)
      | Some plan \<Rightarrow>
          if pl_DeletionTimestamp plan \<noteq> None \<or> sval (pl_Labels plan) harvesterUpgradeLabel = [] \<or> pl_NodeSelector plan = None
          then ret (Inr (Some plan))
          else andthen (allAtLatestHash e plan) (\<lambda>nodesAtLatestHash.
            if \<not> nodesAtLatestHash then do {
              jitter \<leftarrow> observe (rand_Intn e);
              _ \<leftarrow> request (PlanEnqueueAfter (pl_Namespace plan) (pl_Name plan) (upgradeCommonRequeueInterval + jitter * nanos)) (\<lambda>h. ());
              ret (Inr (Some plan)) }
            else do {
              r \<leftarrow> observe (\<lambda>h. upgradeCache_Get e h (up_namespace e) (sval (pl_Labels plan) harvesterUpgradeLabel));
              (case r of
                 Inl err \<Rightarrow> ret (if is_not_found err then Inr (Some plan) else Inl err)
               | Inr u \<Rightarrow>
                   andthen (plan_done e u (sval (pl_Labels plan) harvesterUpgradeComponentLabel)) (\<lambda>_. ret (Inr (Some plan)))) }))"

section \<open>The repository deployment and the image\<close>

definition isDeploymentReady :: "repo_deployment \<Rightarrow> bool" where
  "isDeploymentReady d = list_ex (\<lambda>(t, s). t = ''Available'' \<and> s = ConditionTrue) (dep_Conditions d)"

definition OnChanged_deployment :: "up_env \<Rightarrow> repo_deployment option \<Rightarrow> (up_call, repo_deployment option result) act" where
  "OnChanged_deployment e arg =
     (case arg of
        None \<Rightarrow> ret (Inr None)
      | Some d \<Rightarrow>
          if dep_DeletionTimestamp d \<noteq> None \<or> dep_Labels d = None \<or> dep_Namespace d \<noteq> upgradeNamespace \<or>
             sval (dep_Labels d) harvesterUpgradeLabel = [] then ret (Inr (Some d))
          else do {
            r \<leftarrow> observe (\<lambda>h. upgradeCache_Get e h upgradeNamespace (sval (dep_Labels d) harvesterUpgradeLabel));
            (case r of
               Inl err \<Rightarrow> ret (if is_not_found err then Inr (Some d) else Inl err)
             | Inr u \<Rightarrow>
                 if upgrade_state u = StatePreparingRepo \<and>
                    sval (dep_Labels d) harvesterUpgradeComponentLabel = upgradeComponentRepo \<and> isDeploymentReady d
                 then do {
                   now \<leftarrow> observe (up_now e);
                   andthen (upgrade_update e (setRepoProvisionedCondition now
                     (u\<lparr>up_Labels := sset (up_Labels u) upgradeStateLabel StateRepoPrepared\<rparr>) ConditionTrue [] []))
                     (\<lambda>_. ret (Inr (Some d))) }
                 else ret (Inr (Some d))) })"

abbreviation ImageImported :: string where "ImageImported \<equiv> ''Imported''"
abbreviation ImageRetryLimitExceeded :: string where "ImageRetryLimitExceeded \<equiv> ''RetryLimitExceeded''"

definition isUponRetryFailure :: "upgrade_image \<Rightarrow> upgrade \<Rightarrow> bool" where
  "isUponRetryFailure i u \<longleftrightarrow>
     cond_IsFalse ImageRetryLimitExceeded (img_Conditions i) \<and>
     (cond_GetReason ImageRetryLimitExceeded (img_Conditions i) \<noteq> cond_GetReason ImageReady (up_Conditions u) \<or>
      cond_GetMessage ImageRetryLimitExceeded (img_Conditions i) \<noteq> cond_GetMessage ImageReady (up_Conditions u))"

definition image_status :: "string \<Rightarrow> upgrade_image \<Rightarrow> upgrade \<Rightarrow> upgrade" where
  "image_status now i u =
     (let cs = img_Conditions i
      in if cond_IsTrue ImageImported cs then setImageReadyCondition now u ConditionTrue [] []
         else if cond_IsFalse ImageImported cs
         then setImageReadyCondition now u ConditionFalse (cond_GetReason ImageImported cs) (cond_GetMessage ImageImported cs)
         else if cond_IsTrue ImageRetryLimitExceeded cs
         then setImageReadyCondition now u ConditionFalse (cond_GetReason ImageRetryLimitExceeded cs) (cond_GetMessage ImageRetryLimitExceeded cs)
         else if isUponRetryFailure i u
         then setImageReadyCondition now u ConditionUnknown (cond_GetReason ImageRetryLimitExceeded cs) (cond_GetMessage ImageRetryLimitExceeded cs)
         else u)"

definition OnChanged_image :: "up_env \<Rightarrow> upgrade_image option \<Rightarrow> (up_call, upgrade_image option result) act" where
  "OnChanged_image e arg =
     (case arg of
        None \<Rightarrow> ret (Inr None)
      | Some i \<Rightarrow>
          if img_DeletionTimestamp i \<noteq> None \<or> img_Labels i = None \<or> img_Namespace i \<noteq> upgradeNamespace \<or>
             sval (img_Labels i) harvesterUpgradeLabel = [] then ret (Inr (Some i))
          else do {
            r \<leftarrow> observe (\<lambda>h. upgradeCache_Get e h upgradeNamespace (sval (img_Labels i) harvesterUpgradeLabel));
            (case r of
               Inl err \<Rightarrow> ret (if is_not_found err then Inr (Some i) else Inl err)
             | Inr u \<Rightarrow> do {
                 now \<leftarrow> observe (up_now e);
                 andthen (update_if_changed e u (image_status now i u)) (\<lambda>_. ret (Inr (Some i))) }) })"

section \<open>Waking up paused nodes\<close>

text \<open>
  The loop of \<^verbatim>\<open>NotifyUnpausedMachinePlanSecret\<close>: the plan secrets of the paused nodes that the user has unpaused.
  The slice it appends to is made with the length of the pause map, so it starts with as many empty keys.
\<close>

fun unpaused_secret_keys :: "up_env \<Rightarrow> upgrade \<Rightarrow> (string \<times> string) list \<Rightarrow> (string \<times> string) list \<Rightarrow> (up_call, (string \<times> string) list result) act" where
  "unpaused_secret_keys e u [] keys = ret (Inr keys)"
| "unpaused_secret_keys e u ((nodeName, state) # ps) keys =
     (if state \<noteq> NodeUnpause \<or> node_state u nodeName \<noteq> nodeStateUpgradePaused then unpaused_secret_keys e u ps keys
      else do {
        r \<leftarrow> observe (\<lambda>h. upNodeCache_Get e h nodeName);
        (case r of
           Inl err \<Rightarrow> if is_not_found err then unpaused_secret_keys e u ps keys else ret (Inl err)
         | Inr n \<Rightarrow>
             (case sget (node_Annotations n) MachineAnnotation of
                None \<Rightarrow> ret (Inl (ErrorString (''machine name not found on node '' @ node_Name n)))
              | Some machineName \<Rightarrow> unpaused_secret_keys e u ps (keys @ [(''fleet-local'', machineName @ ''-machine-plan'')]))) })"

definition NotifyUnpausedMachinePlanSecret :: "up_env \<Rightarrow> upgrade \<Rightarrow> (up_call, (string \<times> string) list result) act" where
  "NotifyUnpausedMachinePlanSecret e u =
     (if up_DeletionTimestamp u \<noteq> None \<or> sval (up_Labels u) harvesterLatestUpgradeLabel \<noteq> ''true'' then ret (Inr [])
      else case getNodeUpgradePauseMap (pause_map_json e) u of
             Inl err \<Rightarrow> ret (Inl err)
           | Inr None \<Rightarrow> ret (Inr [])
           | Inr (Some pauseMap) \<Rightarrow> unpaused_secret_keys e u pauseMap (replicate (length pauseMap) ([], [])))"

end
