(* ===== verification/Upgrade_Invariant.thy ===== *)
theory Upgrade_Invariant
  imports Upgrade_Nodes
begin

text \<open>
  The upgrade object and its writers. The report of an upgrade (its conditions and its state label) agrees with
  the states of its nodes, at most one node is between its first hook and the end of its upgrade, and a
  node only moves forward; every write of every handler keeps this, when it is applied to the
  version of the object it was computed from.
\<close>

section \<open>Effect of the status functions\<close>

definition same_upgrade :: "upgrade \<Rightarrow> upgrade \<Rightarrow> bool" where
  "same_upgrade u u' \<longleftrightarrow> up_Namespace u' = up_Namespace u \<and> up_Name u' = up_Name u \<and>
     up_ResourceVersion u' = up_ResourceVersion u \<and> up_SingleNode u' = up_SingleNode u \<and> up_RepoInfo u' = up_RepoInfo u"

named_theorems upgrade_simps \<open>fields of an upgrade after a status function\<close>

lemma node_state_statuses: "node_statuses u = node_statuses u' \<Longrightarrow> node_state u = node_state u'"
  by (simp add: node_state_def fun_eq_iff)

lemma statuses_markComplete [upgrade_simps]: "node_statuses (markComplete now u) = node_statuses u"
  by (simp add: markComplete_def node_statuses_def Let_def)

lemma statuses_set_condition [upgrade_simps]: "node_statuses (set_condition now name u s r m) = node_statuses u"
  by (simp add: set_condition_def node_statuses_def)

lemma statuses_setters [upgrade_simps]:
  "node_statuses (setNodesUpgradedCondition now u s r m) = node_statuses u"
  "node_statuses (setNodesPreparedCondition now u s r m) = node_statuses u"
  "node_statuses (setImageReadyCondition now u s r m) = node_statuses u"
  "node_statuses (setRepoProvisionedCondition now u s r m) = node_statuses u"
  "node_statuses (setHelmChartUpgradeStatus now u s r m) = node_statuses u"
  by (simp_all add: setNodesUpgradedCondition_def setNodesPreparedCondition_def setImageReadyCondition_def
      setRepoProvisionedCondition_def setHelmChartUpgradeStatus_def upgrade_simps)

lemma statuses_setNodeUpgradeStatus:
  "node_statuses (setNodeUpgradeStatus now u n s r m) =
     AList.update n \<lparr>ns_State = s, ns_Reason = r, ns_Message = m\<rparr> (node_statuses u)" if "distinct (map fst (node_statuses u))"
proof -
  have "AList.update n v l = l" if "map_of l n = Some v" "distinct (map fst l)" for v and l :: "(string \<times> node_upgrade_status) list"
    using that by (induction l) (auto split: if_splits)
  with that show ?thesis
    by (auto simp: setNodeUpgradeStatus_def Let_def upgrade_simps) (simp_all add: node_statuses_def)
qed

lemma node_state_setNodeUpgradeStatus [upgrade_simps]:
  "node_state (setNodeUpgradeStatus now u n s r m) k = (if k = n then s else node_state u k)"
proof (cases "map_of (node_statuses u) n = Some \<lparr>ns_State = s, ns_Reason = r, ns_Message = m\<rparr>")
  case True
  then have "node_statuses (setNodeUpgradeStatus now u n s r m) = node_statuses u"
    by (simp add: setNodeUpgradeStatus_def node_statuses_def)
  with True show ?thesis by (simp add: node_state_def)
next
  case False
  then have "node_statuses (setNodeUpgradeStatus now u n s r m) =
      AList.update n \<lparr>ns_State = s, ns_Reason = r, ns_Message = m\<rparr> (node_statuses u)"
    by (auto simp: setNodeUpgradeStatus_def Let_def upgrade_simps) (simp_all add: node_statuses_def)
  then show ?thesis by (simp add: node_state_def update_conv')
qed

lemma same_markComplete: "same_upgrade u u' \<Longrightarrow> same_upgrade u (markComplete now (set_condition now' name u' s r m))"
  by (simp add: same_upgrade_def markComplete_def set_condition_def Let_def)

lemma same_refl [simp]: "same_upgrade u u"
  by (simp add: same_upgrade_def)

lemma same_trans: "same_upgrade u v \<Longrightarrow> same_upgrade v w \<Longrightarrow> same_upgrade u w"
  by (simp add: same_upgrade_def)

lemma same_setters [simp]:
  "same_upgrade u (setNodesUpgradedCondition now u s r m)"
  "same_upgrade u (setNodesPreparedCondition now u s r m)"
  "same_upgrade u (setImageReadyCondition now u s r m)"
  "same_upgrade u (setRepoProvisionedCondition now u s r m)"
  "same_upgrade u (setHelmChartUpgradeStatus now u s r m)"
  by (simp_all add: setNodesUpgradedCondition_def setNodesPreparedCondition_def setImageReadyCondition_def
      setRepoProvisionedCondition_def setHelmChartUpgradeStatus_def same_markComplete)

lemma same_setNodeUpgradeStatus [simp]: "same_upgrade u (setNodeUpgradeStatus now u n s r m)"
proof -
  have "same_upgrade u (setNodesUpgradedCondition now (u\<lparr>up_NodeStatuses := l\<rparr>) st r m)" for l st r m
    by (rule same_trans [of _ "u\<lparr>up_NodeStatuses := l\<rparr>"]) (simp_all add: same_upgrade_def same_setters [unfolded same_upgrade_def])
  then show ?thesis by (auto simp: setNodeUpgradeStatus_def Let_def) (simp_all add: same_upgrade_def)
qed

text \<open>Status of a condition after a setter and the label it leaves.\<close>

lemma getStatus_set_condition:
  "getStatus n (up_Conditions (set_condition now name u s r m)) = (if n = name then s else getStatus n (up_Conditions u))"
proof -
  have keep: "getStatus n (cond_Message now name m (cond_Reason name r cs)) = getStatus n cs" if "findCond name cs \<noteq> None" for cs
    using that by (auto simp: cond_Message_def cond_Reason_def getStatus_def findCond_write split: option.splits)
  show ?thesis by (simp add: set_condition_def keep getStatus_set)
qed

lemma getStatus_markComplete:
  "n \<noteq> UpgradeCompleted \<Longrightarrow> getStatus n (up_Conditions (markComplete now u)) = getStatus n (up_Conditions u)"
  by (simp add: markComplete_def Let_def cond_True_def cond_False_def getStatus_set)

definition failed_part :: "upgrade \<Rightarrow> bool" where
  "failed_part u \<longleftrightarrow> (\<exists>c \<in> {ImageReady, RepoProvisioned, SystemServicesUpgraded, NodesUpgraded}. cond_IsFalse c (up_Conditions u))"

definition all_parts :: "upgrade \<Rightarrow> bool" where
  "all_parts u \<longleftrightarrow> cond_IsTrue SystemServicesUpgraded (up_Conditions u) \<and> cond_IsTrue NodesUpgraded (up_Conditions u)"

lemma state_label_neq [simp]: "upgradeStateLabel \<noteq> upgradeCleanupLabel" "upgradeCleanupLabel \<noteq> upgradeStateLabel"
  by (simp_all add: key_defs)

lemma sval_made [simp]: "sval (Some (case m of None \<Rightarrow> [] | Some l \<Rightarrow> l)) k = sval m k"
  by (cases m) (simp_all add: sval_def)

lemma failed_part_iff: "failed_part u \<longleftrightarrow> cond_IsFalse ImageReady (up_Conditions u) \<or> cond_IsFalse RepoProvisioned (up_Conditions u) \<or>
    cond_IsFalse SystemServicesUpgraded (up_Conditions u) \<or> cond_IsFalse NodesUpgraded (up_Conditions u)"
  unfolding failed_part_def by simp

lemma state_markComplete:
  "upgrade_state (markComplete now u) =
     (if failed_part u then StateFailed else if all_parts u then StateSucceeded else upgrade_state u)"
  unfolding markComplete_def Let_def failed_part_iff [symmetric] all_parts_def [symmetric] upgrade_state_def by simp

section \<open>Invariant of an upgrade\<close>

abbreviation busy_states :: "string list" where
  "busy_states \<equiv> [nodeStatePreDraining, nodeStatePreDrained, nodeStatePostDraining, nodeStateWaitingReboot]"

definition busy :: "upgrade \<Rightarrow> string \<Rightarrow> bool" where
  "busy u n \<longleftrightarrow> node_state u n \<in> set busy_states"

definition all_succeeded :: "upgrade \<Rightarrow> bool" where
  "all_succeeded u \<longleftrightarrow> (\<forall>n \<in> fst ` set (node_statuses u). node_state u n = StateSucceeded)"

definition nodes_upgraded :: "upgrade \<Rightarrow> bool" where
  "nodes_upgraded u \<longleftrightarrow> cond_IsTrue NodesUpgraded (up_Conditions u)"

text \<open>
  What the conditions and the label say is true of the nodes: an upgrade that reports its nodes as upgraded
  has them all upgraded and is in or past the node phase, and one that reports success has both of its parts done.
\<close>

definition report_ok :: "upgrade \<Rightarrow> bool" where
  "report_ok u \<longleftrightarrow> distinct (map fst (node_statuses u)) \<and>
     (nodes_upgraded u \<longrightarrow> all_succeeded u \<and> upgrade_state u \<in> {StateUpgradingNodes, StateSucceeded, StateFailed}) \<and>
     (upgrade_state u = StateSucceeded \<longrightarrow> all_parts u)"

definition one_busy :: "upgrade \<Rightarrow> bool" where
  "one_busy u \<longleftrightarrow> (\<forall>n n'. busy u n \<and> busy u n' \<longrightarrow> n = n')"

lemma all_succeeded_list:
  assumes "distinct (map fst (node_statuses u))"
  shows "list_all (\<lambda>(k, s). ns_State s = StateSucceeded) (node_statuses u) \<longleftrightarrow> all_succeeded u"
proof -
  have "node_state u (fst p) = ns_State (snd p)" if "p \<in> set (node_statuses u)" for p
    using map_of_is_SomeI [OF assms, of "fst p" "snd p"] that by (simp add: node_state_def)
  then show ?thesis unfolding all_succeeded_def list_all_iff by (simp add: case_prod_beta)
qed

lemma node_state_in_statuses:
  assumes "node_state u n \<noteq> []"
  shows "n \<in> fst ` set (node_statuses u)"
proof (rule ccontr)
  assume "n \<notin> fst ` set (node_statuses u)"
  then have "map_of (node_statuses u) n = None" by (simp add: map_of_eq_None_iff)
  with assms show False by (simp add: node_state_def)
qed

lemma all_succeeded_state: "all_succeeded u \<Longrightarrow> node_state u n \<noteq> [] \<Longrightarrow> node_state u n = StateSucceeded"
  using node_state_in_statuses [of u n] by (auto simp: all_succeeded_def)

lemma report_ok_markComplete:
  assumes "distinct (map fst (node_statuses v))"
    and "nodes_upgraded v \<longrightarrow> all_succeeded v \<and> upgrade_state v \<in> {StateUpgradingNodes, StateSucceeded, StateFailed}"
    and "upgrade_state v = StateSucceeded \<longrightarrow> all_parts v \<or> failed_part v"
  shows "report_ok (markComplete now v)"
proof -
  have "all_succeeded (markComplete now v) = all_succeeded v"
    by (simp add: all_succeeded_def upgrade_simps node_state_statuses [OF statuses_markComplete])
  moreover have "nodes_upgraded (markComplete now v) = nodes_upgraded v" "all_parts (markComplete now v) = all_parts v"
    by (simp_all add: nodes_upgraded_def all_parts_def cond_IsTrue_def getStatus_markComplete)
  ultimately show ?thesis
    using assms unfolding report_ok_def by (auto simp: upgrade_simps state_markComplete)
qed

lemma set_condition_simps:
  "all_succeeded (set_condition now c u s r m) = all_succeeded u"
  "upgrade_state (set_condition now c u s r m) = upgrade_state u"
  "nodes_upgraded (set_condition now c u s r m) \<longleftrightarrow> (if c = NodesUpgraded then s = ''True'' else nodes_upgraded u)"
proof -
  show "all_succeeded (set_condition now c u s r m) = all_succeeded u"
    unfolding all_succeeded_def statuses_set_condition node_state_statuses [OF statuses_set_condition] by (rule refl)
  show "upgrade_state (set_condition now c u s r m) = upgrade_state u"
    by (simp add: upgrade_state_def set_condition_def)
  show "nodes_upgraded (set_condition now c u s r m) \<longleftrightarrow> (if c = NodesUpgraded then s = ''True'' else nodes_upgraded u)"
    by (simp add: nodes_upgraded_def cond_IsTrue_def getStatus_set_condition)
qed

lemma all_parts_set_condition:
  "c \<noteq> NodesUpgraded \<Longrightarrow> c \<noteq> SystemServicesUpgraded \<Longrightarrow> all_parts (set_condition now c u s r m) = all_parts u"
  by (simp add: all_parts_def cond_IsTrue_def getStatus_set_condition)

lemma report_ok_other:
  assumes "report_ok u" and "c \<noteq> NodesUpgraded" and "c \<noteq> SystemServicesUpgraded"
  shows "report_ok (markComplete now (set_condition now' c u s r m))"
  by (rule report_ok_markComplete)
    (use assms in \<open>simp_all add: report_ok_def upgrade_simps set_condition_simps all_parts_set_condition\<close>)

lemma report_ok_setters:
  assumes "report_ok u"
  shows "report_ok (setNodesPreparedCondition now u s r m)" "report_ok (setImageReadyCondition now u s r m)"
    "report_ok (setRepoProvisionedCondition now u s r m)"
  unfolding setNodesPreparedCondition_def setImageReadyCondition_def setRepoProvisionedCondition_def
  by (rule report_ok_other [OF assms]; simp)+

lemma report_ok_helm:
  assumes "report_ok u"
  shows "report_ok (setHelmChartUpgradeStatus now u s r m)"
proof (cases "cond_IsTrue SystemServicesUpgraded (up_Conditions u) \<or> cond_IsFalse SystemServicesUpgraded (up_Conditions u)")
  case False
  then have "upgrade_state u \<noteq> StateSucceeded" using assms by (auto simp: report_ok_def all_parts_def)
  moreover have "report_ok (markComplete now (set_condition now SystemServicesUpgraded u s r m))" if "upgrade_state u \<noteq> StateSucceeded"
    by (rule report_ok_markComplete) (use assms that in \<open>simp_all add: report_ok_def upgrade_simps set_condition_simps\<close>)
  ultimately show ?thesis using False by (simp add: setHelmChartUpgradeStatus_def)
qed (use assms in \<open>simp add: setHelmChartUpgradeStatus_def\<close>)

text \<open>Writing the state of a node keeps the report true unless it moves a node out of success.\<close>

lemma report_ok_setNodeUpgradeStatus:
  assumes "report_ok u" and "s = StateFailed \<or> s = StateSucceeded \<or> \<not> nodes_upgraded u"
  shows "report_ok (setNodeUpgradeStatus now u n s r m)"
proof -
  let ?e = "\<lparr>ns_State = s, ns_Reason = r, ns_Message = m\<rparr>"
  let ?v = "u\<lparr>up_NodeStatuses := Some (AList.update n ?e (node_statuses u))\<rparr>"
  have d: "distinct (map fst (node_statuses u))" using assms(1) by (simp add: report_ok_def)
  have v: "node_statuses ?v = AList.update n ?e (node_statuses u)" "upgrade_state ?v = upgrade_state u"
    "nodes_upgraded ?v = nodes_upgraded u" "all_parts ?v = all_parts u"
    by (simp_all add: node_statuses_def upgrade_state_def nodes_upgraded_def all_parts_def)
  have dv: "distinct (map fst (node_statuses ?v))" using distinct_update [OF d] v(1) by simp
  have st: "node_state ?v k = (if k = n then s else node_state u k)" for k by (simp add: node_state_def v(1) update_conv')
  have succ: "all_succeeded ?v" if "all_succeeded u" "s = StateSucceeded"
    using that unfolding all_succeeded_def v(1) st by (auto simp: dom_update [simplified dom_map_of_conv_image_fst])
  consider (same) "map_of (node_statuses u) n = Some ?e" | (failed) "map_of (node_statuses u) n \<noteq> Some ?e" "s = StateFailed"
    | (last) "map_of (node_statuses u) n \<noteq> Some ?e" "s \<noteq> StateFailed" "upgrade_state u = StateUpgradingNodes" "all_succeeded ?v"
    | (other) "map_of (node_statuses u) n \<noteq> Some ?e" "s \<noteq> StateFailed" "\<not> (upgrade_state u = StateUpgradingNodes \<and> all_succeeded ?v)"
    by blast
  then show ?thesis
  proof cases
    case same
    then have "setNodeUpgradeStatus now u n s r m = u\<lparr>up_NodeStatuses := Some (node_statuses u)\<rparr>"
      by (simp add: setNodeUpgradeStatus_def)
    moreover have eq: "node_statuses (u\<lparr>up_NodeStatuses := Some (node_statuses u)\<rparr>) = node_statuses u" by (simp add: node_statuses_def)
    ultimately show ?thesis
      using assms(1) unfolding report_ok_def all_succeeded_def by (simp add: eq node_state_statuses [OF eq])
        (simp add: upgrade_state_def nodes_upgraded_def all_parts_def)
  next
    case failed
    then have "setNodeUpgradeStatus now u n s r m = setNodesUpgradedCondition now ?v ''False'' r m"
      by (simp add: setNodeUpgradeStatus_def Let_def)
    moreover have "report_ok (setNodesUpgradedCondition now ?v ''False'' r m)"
      unfolding setNodesUpgradedCondition_def
    proof (rule report_ok_markComplete)
      show "upgrade_state (set_condition now NodesUpgraded ?v ''False'' r m) = StateSucceeded \<longrightarrow>
          all_parts (set_condition now NodesUpgraded ?v ''False'' r m) \<or> failed_part (set_condition now NodesUpgraded ?v ''False'' r m)"
        by (simp add: failed_part_iff cond_IsFalse_def getStatus_set_condition)
    qed (use dv in \<open>simp_all add: upgrade_simps set_condition_simps\<close>)
    ultimately show ?thesis by simp
  next
    case last
    then have "setNodeUpgradeStatus now u n s r m = setNodesUpgradedCondition now ?v ''True'' [] []"
      using all_succeeded_list [OF dv] v(1,2) by (simp add: setNodeUpgradeStatus_def Let_def)
    moreover have "report_ok (setNodesUpgradedCondition now ?v ''True'' [] [])"
      unfolding setNodesUpgradedCondition_def
      by (rule report_ok_markComplete) (use dv last v in \<open>simp_all add: upgrade_simps set_condition_simps\<close>)
    ultimately show ?thesis by simp
  next
    case other
    then have "setNodeUpgradeStatus now u n s r m = ?v"
      using all_succeeded_list [OF dv] v(1,2) by (auto simp: setNodeUpgradeStatus_def Let_def)
    moreover have "report_ok ?v"
      using assms dv v succ other(2) unfolding report_ok_def by auto
    ultimately show ?thesis by simp
  qed
qed

section \<open>How an upgrade evolves\<close>

text \<open>The states of a node in the order of its upgrade; a node may be paused and resumed before its first hook.\<close>

definition rank :: "string \<Rightarrow> nat" where
  "rank s = (case map_of [(nodeStateImagesPreloading, 1), (nodeStateImagesPreloaded, 2), (nodeStateUpgradePaused, 2),
     (nodeStatePreDraining, 3), (nodeStatePreDrained, 4), (nodeStatePostDraining, 5), (nodeStateWaitingReboot, 6),
     (StateSucceeded, 7), (StateFailed, 8)] s of None \<Rightarrow> 0 | Some r \<Rightarrow> r)"

lemma rank_simps [simp]:
  "rank [] = 0" "rank nodeStateImagesPreloading = 1" "rank nodeStateImagesPreloaded = 2" "rank nodeStateUpgradePaused = 2"
  "rank nodeStatePreDraining = 3" "rank nodeStatePreDrained = 4" "rank nodeStatePostDraining = 5"
  "rank nodeStateWaitingReboot = 6" "rank StateSucceeded = 7" "rank StateFailed = 8"
  by (simp_all add: rank_def)

lemma rank_le [simp]: "rank s \<le> 8"
  by (simp add: rank_def split: option.split)

definition node_phase :: "upgrade \<Rightarrow> bool" where
  "node_phase u \<longleftrightarrow> upgrade_state u \<in> {StateUpgradingNodes, StateSucceeded, StateFailed}"

definition up_inv :: "upgrade \<Rightarrow> bool" where
  "up_inv u \<longleftrightarrow> up_SingleNode u = [] \<and> report_ok u \<and> one_busy u"

definition advances :: "upgrade \<Rightarrow> upgrade \<Rightarrow> bool" where
  "advances u u' \<longleftrightarrow> (\<forall>n. rank (node_state u n) \<le> rank (node_state u' n))"

definition evolves :: "upgrade \<Rightarrow> upgrade \<Rightarrow> bool" where
  "evolves u u' \<longleftrightarrow> same_upgrade u u' \<and>
     (up_inv u \<longrightarrow> up_inv u' \<and> (node_phase u \<longrightarrow> node_phase u' \<and> advances u u'))"

lemma upgrade_state_setNodeUpgradeStatus:
  "upgrade_state (setNodeUpgradeStatus now u n s r m) \<in> {upgrade_state u, StateSucceeded, StateFailed}"
proof -
  let ?A = "{upgrade_state u, StateSucceeded, StateFailed}"
  have set: "upgrade_state (setNodesUpgradedCondition now (u\<lparr>up_NodeStatuses := l\<rparr>) st r m) \<in> ?A" for l st r m
    by (simp add: setNodesUpgradedCondition_def state_markComplete set_condition_simps) (simp add: upgrade_state_def)
  have keep: "upgrade_state (u\<lparr>up_NodeStatuses := l\<rparr>) \<in> ?A" for l by (simp add: upgrade_state_def)
  have choice: "x \<in> ?A \<Longrightarrow> y \<in> ?A \<Longrightarrow> (if b then x else y) \<in> ?A" for b x y by simp
  show ?thesis unfolding setNodeUpgradeStatus_def Let_def if_distrib [of upgrade_state] by (intro choice set keep)
qed

lemma node_phase_setNodeUpgradeStatus: "node_phase u \<Longrightarrow> node_phase (setNodeUpgradeStatus now u n s r m)"
  using upgrade_state_setNodeUpgradeStatus [of now u n s r m] by (auto simp: node_phase_def)

lemma not_nodes_upgraded:
  assumes "report_ok u" and "node_state u n \<noteq> []" and "node_state u n \<noteq> StateSucceeded"
  shows "\<not> nodes_upgraded u"
  using assms all_succeeded_state [of u n] by (auto simp: report_ok_def)

lemma evolves_refl [simp]: "evolves u u"
  by (simp add: evolves_def advances_def)

text \<open>A write of the state of one node that moves it forward, and into the busy states only when no other node is there.\<close>

lemma evolves_setNodeUpgradeStatus:
  assumes "s = StateFailed \<or> s = StateSucceeded \<or> node_state u n \<noteq> [] \<and> node_state u n \<noteq> StateSucceeded"
    and "rank (node_state u n) \<le> rank s"
    and "s \<in> set busy_states \<Longrightarrow> \<not> busy u n \<Longrightarrow> \<forall>k. k \<noteq> n \<longrightarrow> \<not> busy u k"
  shows "evolves u (setNodeUpgradeStatus now u n s r m)"
proof -
  let ?v = "setNodeUpgradeStatus now u n s r m"
  have "up_inv ?v \<and> (node_phase u \<longrightarrow> node_phase ?v \<and> advances u ?v)" if inv: "up_inv u"
  proof (intro conjI impI)
    have "report_ok ?v"
      using inv assms(1) not_nodes_upgraded [of u n] by (intro report_ok_setNodeUpgradeStatus) (auto simp: up_inv_def)
    moreover have "one_busy ?v"
      using inv assms(3) unfolding up_inv_def one_busy_def busy_def node_state_setNodeUpgradeStatus by (metis (full_types))
    moreover have "up_SingleNode ?v = []" using inv same_setNodeUpgradeStatus [of u now n s r m] by (simp add: up_inv_def same_upgrade_def)
    ultimately show "up_inv ?v" by (simp add: up_inv_def)
    show "advances u ?v" using assms(2) by (simp add: advances_def node_state_setNodeUpgradeStatus)
    show "node_phase ?v" if "node_phase u" using that by (rule node_phase_setNodeUpgradeStatus)
  qed
  then show ?thesis by (simp add: evolves_def)
qed

lemma evolves_statuses:
  assumes "same_upgrade u v" and "node_statuses v = node_statuses u" and "report_ok u \<Longrightarrow> report_ok v"
    and "node_phase u \<Longrightarrow> node_phase v"
  shows "evolves u v"
proof -
  have st: "node_state v = node_state u" using assms(2) by (rule node_state_statuses)
  then have "one_busy v = one_busy u" "advances u v" by (simp_all add: one_busy_def busy_def advances_def)
  moreover have "up_SingleNode v = up_SingleNode u" using assms(1) by (simp add: same_upgrade_def)
  ultimately show ?thesis using assms(1,3,4) unfolding evolves_def up_inv_def by simp
qed

lemma evolves_setters:
  "evolves u (setNodesPreparedCondition now u s r m)" "evolves u (setImageReadyCondition now u s r m)"
  "evolves u (setHelmChartUpgradeStatus now u s r m)"
proof -
  have phase: "node_phase u \<Longrightarrow> node_phase (markComplete now (set_condition now c u s r m))" for c
    by (simp add: node_phase_def state_markComplete set_condition_simps)
  have setter: "evolves u v" if "v = markComplete now (set_condition now c u s r m)" "same_upgrade u v" "report_ok u \<Longrightarrow> report_ok v" for v c
    by (rule evolves_statuses) (use that phase in \<open>simp_all add: upgrade_simps\<close>)
  show "evolves u (setNodesPreparedCondition now u s r m)"
    using setNodesPreparedCondition_def same_setters(2) report_ok_setters(1) by (rule setter)
  show "evolves u (setImageReadyCondition now u s r m)"
    using setImageReadyCondition_def same_setters(3) report_ok_setters(2) by (rule setter)
  have "setHelmChartUpgradeStatus now u s r m = u \<or>
      setHelmChartUpgradeStatus now u s r m = markComplete now (set_condition now SystemServicesUpgraded u s r m)"
    by (simp add: setHelmChartUpgradeStatus_def)
  then show "evolves u (setHelmChartUpgradeStatus now u s r m)"
    using setter [OF _ same_setters(5) report_ok_helm] evolves_refl by metis
qed

section \<open>Writes of the handlers\<close>

lemma evolves_trans: "evolves u v \<Longrightarrow> evolves v w \<Longrightarrow> evolves u w"
  unfolding evolves_def advances_def using same_trans le_trans by blast

text \<open>What the caches may show.\<close>

definition cached :: "up_env \<Rightarrow> upgrade set" where
  "cached e = {u. \<exists>h ns n. upgradeCache_Get e h ns n = Inr u} \<union> {u. \<exists>h ns us. upgradeCache_List e h ns = Inr us \<and> u \<in> set us}"

definition write_ok :: "upgrade set \<Rightarrow> up_call \<Rightarrow> bool" where
  "write_ok C c = (case c of UpgradeUpdate u' \<Rightarrow> \<exists>u \<in> C. evolves u u' | _ \<Rightarrow> True)"

abbreviation writes_ok :: "up_env \<Rightarrow> (up_call, 'a) act \<Rightarrow> up_call list \<Rightarrow> bool" where
  "writes_ok e m h \<equiv> emits (\<lambda>_. write_ok (cached e)) m h"

lemma write_ok_simps [simp]:
  "write_ok C (UpgradeUpdate u') \<longleftrightarrow> (\<exists>u \<in> C. evolves u u')"
  "write_ok C (JobCreate j)" "write_ok C (SecretList a b c d)" "write_ok C (SecretUpdate s)" "write_ok C (NodeUpdate n)"
  "write_ok C (SecretEnqueueAfter a b i)" "write_ok C (NodeEnqueueAfter a i)" "write_ok C (PlanEnqueueAfter a b i)" "write_ok C (Sleep i)"
  by (simp_all add: write_ok_def)

lemma cached_Get: "upgradeCache_Get e h ns n = Inr u \<Longrightarrow> u \<in> cached e"
  by (auto simp: cached_def)

lemma run_ensureSingleUpgrade:
  assumes "run_state (ensureSingleUpgrade e) h = (Inr u, h')"
  shows "u \<in> cached e \<and> h' = h \<and> sget (up_Labels u) harvesterLatestUpgradeLabel = Some ''true''"
proof -
  obtain us where us: "upgradeCache_List e h (up_namespace e) = Inr us"
    using assms by (auto simp: ensureSingleUpgrade_def split: sum.splits)
  then have "labelled up_Labels harvesterLatestUpgradeLabel ''true'' us = [u] \<and> h' = h"
    using assms by (auto simp: ensureSingleUpgrade_def Let_def split: list.splits)
  moreover from this have "u \<in> set us" "sget (up_Labels u) harvesterLatestUpgradeLabel = Some ''true''"
    by (auto simp: labelled_def filter_eq_Cons_iff)
  ultimately show ?thesis using us by (auto simp: cached_def)
qed

lemma emits_ensureSingleUpgrade [emit_intros]: "emits P (ensureSingleUpgrade e) h"
  unfolding ensureSingleUpgrade_def Let_def by (rule emits_andthen_observe) (auto intro: emits_return split: list.splits)

lemma writes_record:
  assumes "u \<in> cached e" and "\<And>now. evolves u (setNodeUpgradeStatus now u n s r m)"
  shows "writes_ok e (record_node_state e u n s r m) h"
  unfolding record_node_state_def upgrade_update_def by (intro emit_intros) (use assms in auto)

lemma eligible_others:
  assumes "checkEligibleToDrain u n = Inr ()" and "k \<noteq> n"
  shows "\<not> busy u k"
proof (cases "map_of (node_statuses u) k")
  case (Some s)
  then have "(k, s) \<in> set (node_statuses u)" by (rule map_of_SomeD)
  moreover have "find (\<lambda>(name, status). name \<noteq> n \<and> \<not> (ns_State status = StateSucceeded \<or> ns_State status = nodeStateImagesPreloaded))
      (node_statuses u) = None"
    using assms(1) by (auto simp: checkEligibleToDrain_def split: option.splits)
  ultimately have "ns_State s = StateSucceeded \<or> ns_State s = nodeStateImagesPreloaded"
    using assms(2) unfolding find_None_iff by fastforce
  with Some show ?thesis by (auto simp: busy_def node_state_def)
qed (simp add: busy_def node_state_def)

lemma writes_createHookJob:
  assumes "u \<in> cached e" and "\<And>now. evolves u (setNodeUpgradeStatus now u n s [] [])"
  shows "writes_ok e (createHookJob e u n jt s) h"
  unfolding createHookJob_def checkPendingHookJobs_def create_job_def
  by (intro emit_intros writes_record assms) simp_all

lemma writes_secret_switch:
  assumes "u \<in> cached e"
  shows "writes_ok e (secret_switch e s u n) h"
proof -
  have pause: "evolves u (setNodeUpgradeStatus now u n nodeStateUpgradePaused r m)" if "node_state u n = nodeStateImagesPreloaded" for now r m
    by (rule evolves_setNodeUpgradeStatus) (simp_all add: that)
  have unpause: "evolves u (setNodeUpgradeStatus now u n nodeStateImagesPreloaded r m)" if "node_state u n = nodeStateUpgradePaused" for now r m
    by (rule evolves_setNodeUpgradeStatus) (simp_all add: that)
  have pre: "evolves u (setNodeUpgradeStatus now u n nodeStatePreDraining r m)"
    if "node_state u n = nodeStateImagesPreloaded" "checkEligibleToDrain u n = Inr x" for now r m x
    using eligible_others [of u n] that by (intro evolves_setNodeUpgradeStatus) simp_all
  have post: "evolves u (setNodeUpgradeStatus now u n nodeStatePostDraining r m)"
    if "node_state u n = nodeStatePreDrained" for now r m
    by (rule evolves_setNodeUpgradeStatus) (simp_all add: that busy_def)
  show ?thesis
    unfolding secret_switch_def Let_def unpause_node_def
    by (intro emit_intros writes_record writes_createHookJob assms pause unpause pre post) simp_all
qed

lemma writes_secret: "writes_ok e (OnChanged_secret e so) h"
  unfolding OnChanged_secret_def
  by (intro emit_intros emits_andthen_run [OF emits_ensureSingleUpgrade] writes_secret_switch)
    (auto dest: run_ensureSingleUpgrade)

text \<open>What the conditions of a job do to the upgrade, for a job of a cluster with several nodes.\<close>

definition job_target :: "string \<Rightarrow> upgrade_node \<Rightarrow> harvester_release \<Rightarrow> string" where
  "job_target jt n repoInfo = (if jt = upgradeJobTypePreDrain then nodeStatePreDrained
     else if rel_OS repoInfo = un_OSImage n then StateSucceeded else nodeStateWaitingReboot)"

definition job_awaited :: "upgrade \<Rightarrow> string \<Rightarrow> string \<Rightarrow> bool" where
  "job_awaited u nodeName jt \<longleftrightarrow> jt = upgradeJobTypePreDrain \<and> node_state u nodeName = nodeStatePreDraining \<or>
     jt = upgradeJobTypePostDrain \<and> node_state u nodeName = nodeStatePostDraining"

definition condition_holds :: "string \<Rightarrow> job_condition \<Rightarrow> bool" where
  "condition_holds t c \<longleftrightarrow> jc_Type c = t \<and> jc_Status c = ''True''"

lemma node_job_condition_result:
  assumes "run_state (node_job_condition e u nodeName n repoInfo jt c (t, p, q)) h = (Inr (t', p', q'), h')"
    and "jt \<noteq> upgradeJobTypeSingleNodeUpgrade"
  shows "t' = t \<and> p' = p \<and> q' = q \<or>
    (\<exists>now r m. t' = setNodeUpgradeStatus now t nodeName StateFailed r m \<and> p' = p \<and> q' = q) \<or>
    job_awaited u nodeName jt \<and> condition_holds ''Complete'' c \<and> (\<exists>now. t' = setNodeUpgradeStatus now t nodeName (job_target jt n repoInfo) [] []) \<and>
    p' = (p \<or> jt = upgradeJobTypePreDrain) \<and> q' = (q \<or> job_target jt n repoInfo = StateSucceeded)"
proof (cases "jc_Type c = ''Complete'' \<and> jc_Status c = ''True'' \<and> job_awaited u nodeName jt")
  case True
  show ?thesis
  proof (cases "jt = upgradeJobTypePreDrain")
    case pre: True
    with True assms(1) show ?thesis
      by (auto simp: node_job_condition_def job_awaited_def job_target_def condition_holds_def)
  next
    case False
    with True have "jt = upgradeJobTypePostDrain" "node_state u nodeName = nodeStatePostDraining" by (auto simp: job_awaited_def)
    with True assms(1) have fin: "run_state (finish_node e u nodeName n repoInfo True (t, p, q)) h = (Inr (t', p', q'), h')"
      by (simp add: node_job_condition_def)
    show ?thesis
    proof (cases "rel_OS repoInfo = un_OSImage n")
      case os: True
      with fin have "(\<exists>now. t' = setNodeUpgradeStatus now t nodeName StateSucceeded [] []) \<and> p' = p \<and> q'"
        by (auto simp: finish_node_def split: prod.splits sum.splits)
      with os True False show ?thesis by (auto simp: job_target_def condition_holds_def)
    next
      case os: False
      with fin have "(\<exists>now. t' = setNodeUpgradeStatus now t nodeName nodeStateWaitingReboot [] []) \<and> p' = p \<and> q' = q"
        by (auto simp: finish_node_def Let_def split: prod.splits sum.splits)
      with os True False show ?thesis by (auto simp: job_target_def condition_holds_def)
    qed
  qed
next
  case False
  show ?thesis
  proof (cases "jc_Type c = ''Failed'' \<and> jc_Status c = ''True''")
    case True
    with assms(1) have "t' = setNodeUpgradeStatus (up_now e h) t nodeName StateFailed (jc_Reason c) (jc_Message c) \<and> p' = p \<and> q' = q"
      by (auto simp: node_job_condition_def)
    then show ?thesis by blast
  next
    case nf: False
    have "run_state (node_job_condition e u nodeName n repoInfo jt c (t, p, q)) h = (Inr (t, p, q), h)"
    proof (cases "jc_Type c = ''Complete'' \<and> jc_Status c = ''True''")
      case complete: True
      have "\<not> (jt = upgradeJobTypePreDrain \<and> node_state u nodeName = nodeStatePreDraining)"
        "\<not> (jt = upgradeJobTypePostDrain \<and> node_state u nodeName = nodeStatePostDraining)"
        using complete False unfolding job_awaited_def by blast+
      then show ?thesis
        using assms(2) unfolding node_job_condition_def Let_def prod.case if_not_P [OF nf] if_P [OF complete] by (simp only: if_False run_state_return)
    next
      case incomplete: False
      show ?thesis unfolding node_job_condition_def Let_def prod.case if_not_P [OF nf] if_not_P [OF incomplete] by simp
    qed
    with assms(1) show ?thesis by simp
  qed
qed

text \<open>The invariant of the loop over the conditions.\<close>

definition job_loop :: "upgrade \<Rightarrow> string \<Rightarrow> string \<Rightarrow> upgrade_node \<Rightarrow> harvester_release \<Rightarrow> job_condition list \<Rightarrow> upgrade \<times> bool \<times> bool \<Rightarrow> bool" where
  "job_loop u nodeName jt n repoInfo cs st = (case st of (t, p, q) \<Rightarrow>
     same_upgrade u t \<and> (\<forall>k. k \<noteq> nodeName \<longrightarrow> node_state t k = node_state u k) \<and> (report_ok u \<longrightarrow> report_ok t) \<and>
     (node_phase u \<longrightarrow> node_phase t) \<and>
     (node_state t nodeName = node_state u nodeName \<or> node_state t nodeName = StateFailed \<or>
      job_awaited u nodeName jt \<and> node_state t nodeName = job_target jt n repoInfo) \<and>
     (p \<longrightarrow> jt = upgradeJobTypePreDrain) \<and> (q \<longrightarrow> jt = upgradeJobTypePostDrain \<and> job_target jt n repoInfo = StateSucceeded) \<and>
     (p \<or> q \<longrightarrow> job_awaited u nodeName jt \<and> list_ex (condition_holds ''Complete'') cs \<and> node_state t nodeName \<noteq> node_state u nodeName))"

lemma job_loop_step:
  assumes "job_loop u nodeName jt n repoInfo cs (t, p, q)" and "c \<in> set cs" and "jt \<noteq> upgradeJobTypeSingleNodeUpgrade"
    and "run_state (node_job_condition e u nodeName n repoInfo jt c (t, p, q)) h = (Inr (t', p', q'), h')"
  shows "job_loop u nodeName jt n repoInfo cs (t', p', q')"
proof -
  have st: "same_upgrade u t" "\<forall>k. k \<noteq> nodeName \<longrightarrow> node_state t k = node_state u k" "report_ok u \<longrightarrow> report_ok t" "node_phase u \<longrightarrow> node_phase t"
    using assms(1) by (simp_all add: job_loop_def)
  have upd: "same_upgrade u (setNodeUpgradeStatus now t nodeName s r m)" "node_phase u \<longrightarrow> node_phase (setNodeUpgradeStatus now t nodeName s r m)" for now s r m
    using st same_trans [OF st(1) same_setNodeUpgradeStatus] node_phase_setNodeUpgradeStatus by auto
  consider (same) "t' = t" "p' = p" "q' = q"
    | (failed) now r m where "t' = setNodeUpgradeStatus now t nodeName StateFailed r m" "p' = p" "q' = q"
    | (finished) now where "job_awaited u nodeName jt" "condition_holds ''Complete'' c" "t' = setNodeUpgradeStatus now t nodeName (job_target jt n repoInfo) [] []"
        "p' = (p \<or> jt = upgradeJobTypePreDrain)" "q' = (q \<or> job_target jt n repoInfo = StateSucceeded)"
    using node_job_condition_result [OF assms(4,3)] by blast
  then show ?thesis
  proof cases
    case same
    then show ?thesis using assms(1) by simp
  next
    case failed
    then have "report_ok u \<longrightarrow> report_ok t'" using st(3) by (auto intro: report_ok_setNodeUpgradeStatus)
    moreover have "job_awaited u nodeName jt \<Longrightarrow> node_state u nodeName \<noteq> StateFailed" by (auto simp: job_awaited_def)
    moreover have "node_state t' nodeName = StateFailed" "\<forall>k. k \<noteq> nodeName \<longrightarrow> node_state t' k = node_state u k"
      "same_upgrade u t'" "node_phase u \<longrightarrow> node_phase t'"
      unfolding failed(1) using st(2) upd by (simp_all add: node_state_setNodeUpgradeStatus)
    ultimately show ?thesis
      using assms(1) failed(2,3) unfolding job_loop_def prod.case by (metis (no_types))
  next
    case finished
    let ?s = "job_target jt n repoInfo"
    have now: "node_state t nodeName \<in> {node_state u nodeName, StateFailed, ?s}" using assms(1) by (auto simp: job_loop_def)
    have u: "node_state u nodeName \<in> {nodeStatePreDraining, nodeStatePostDraining}" using finished(1) by (auto simp: job_awaited_def)
    have "\<not> nodes_upgraded t" if "report_ok t" "?s \<noteq> StateSucceeded"
      using not_nodes_upgraded [OF that(1), of nodeName] now u that(2) by (auto simp: job_target_def split: if_splits)
    then have "report_ok u \<longrightarrow> report_ok t'"
      unfolding finished(3) using st(3) by (intro impI report_ok_setNodeUpgradeStatus) auto
    moreover have "?s \<noteq> node_state u nodeName" using u by (auto simp: job_target_def)
    moreover have "p' \<longrightarrow> jt = upgradeJobTypePreDrain"
      using assms(1) finished(4) unfolding job_loop_def prod.case by blast
    moreover have "q' \<longrightarrow> jt = upgradeJobTypePostDrain \<and> ?s = StateSucceeded"
    proof -
      have "jt = upgradeJobTypePreDrain \<or> jt = upgradeJobTypePostDrain" using finished(1) by (auto simp: job_awaited_def)
      moreover have "?s = StateSucceeded \<Longrightarrow> jt \<noteq> upgradeJobTypePreDrain" by (auto simp: job_target_def)
      moreover have "q \<longrightarrow> jt = upgradeJobTypePostDrain \<and> ?s = StateSucceeded"
        using assms(1) unfolding job_loop_def prod.case by blast
      ultimately show ?thesis using finished(5) by blast
    qed
    moreover have "list_ex (condition_holds ''Complete'') cs" using finished(2) assms(2) by (auto simp: list_ex_iff)
    moreover have "node_state t' nodeName = ?s" "\<forall>k. k \<noteq> nodeName \<longrightarrow> node_state t' k = node_state u k"
      "same_upgrade u t'" "node_phase u \<longrightarrow> node_phase t'"
      unfolding finished(3) using st(2) upd by (simp_all add: node_state_setNodeUpgradeStatus)
    ultimately show ?thesis using finished(1) unfolding job_loop_def prod.case by (intro conjI) (assumption | simp)+
  qed
qed

lemma node_job_conditions_result:
  assumes "run_state (node_job_conditions e u nodeName n repoInfo jt cs (u, False, False)) h = (Inr st, h')"
    and "jt \<noteq> upgradeJobTypeSingleNodeUpgrade"
  shows "job_loop u nodeName jt n repoInfo cs st"
proof -
  have "job_loop u nodeName jt n repoInfo cs st"
    if "set cs' \<subseteq> set cs" "job_loop u nodeName jt n repoInfo cs st0"
      "run_state (node_job_conditions e u nodeName n repoInfo jt cs' st0) h = (Inr st, h')" for cs' st0 h
    using that
  proof (induction cs' arbitrary: st0 h)
    case (Cons c cs')
    obtain t p q where st0: "st0 = (t, p, q)" by (cases st0)
    with Cons.prems(3) obtain t' p' q' h1 where
      c: "run_state (node_job_condition e u nodeName n repoInfo jt c (t, p, q)) h = (Inr (t', p', q'), h1)"
        "run_state (node_job_conditions e u nodeName n repoInfo jt cs' (t', p', q')) h1 = (Inr st, h')"
      by (auto split: prod.splits sum.splits)
    have sub: "c \<in> set cs" "set cs' \<subseteq> set cs" using Cons.prems(1) by simp_all
    have "job_loop u nodeName jt n repoInfo cs (t', p', q')"
      by (rule job_loop_step [OF Cons.prems(2) [unfolded st0] sub(1) assms(2) c(1)])
    from Cons.IH [OF sub(2) this c(2)] show ?case .
  qed simp
  moreover have "job_loop u nodeName jt n repoInfo cs (u, False, False)" by (simp add: job_loop_def)
  ultimately show ?thesis using assms(1) by blast
qed

lemma job_loop_evolves:
  assumes "job_loop u nodeName jt n repoInfo cs (t, p, q)"
  shows "evolves u t"
proof -
  have st: "same_upgrade u t" "\<forall>k. k \<noteq> nodeName \<longrightarrow> node_state t k = node_state u k" "report_ok u \<longrightarrow> report_ok t" "node_phase u \<longrightarrow> node_phase t"
    and s: "node_state t nodeName = node_state u nodeName \<or> node_state t nodeName = StateFailed \<or>
      job_awaited u nodeName jt \<and> node_state t nodeName = job_target jt n repoInfo"
    using assms by (simp_all add: job_loop_def)
  have awaited: "job_awaited u nodeName jt \<Longrightarrow> busy u nodeName \<and> rank (node_state u nodeName) \<le> rank (job_target jt n repoInfo)"
    by (auto simp: job_awaited_def job_target_def busy_def)
  then have "rank (node_state u nodeName) \<le> rank (node_state t nodeName)" using s by auto
  then have "rank (node_state u k) \<le> rank (node_state t k)" for k using st(2) by (cases "k = nodeName") simp_all
  then have adv: "advances u t" by (simp add: advances_def)
  have "busy t nodeName \<Longrightarrow> busy u nodeName" using s awaited by (auto simp: busy_def)
  then have "busy t k \<Longrightarrow> busy u k" for k using st(2) by (cases "k = nodeName") (simp_all add: busy_def)
  then have "one_busy u \<Longrightarrow> one_busy t" unfolding one_busy_def by blast
  then show ?thesis using st adv unfolding evolves_def up_inv_def by (simp add: same_upgrade_def)
qed

text \<open>Requests of the parts of the job handler that do not write the upgrade.\<close>

lemma emits_sendRestoreVMJob: "(\<And>h j. P h (JobCreate j)) \<Longrightarrow> emits P (sendRestoreVMJob e u n repoInfo) h"
  unfolding sendRestoreVMJob_def IsRestoreVM_def create_job_def Let_def by (intro emit_intros) simp_all

lemma emits_node_job_conditions:
  assumes "\<And>h j. P h (JobCreate j)" and "\<And>h n. P h (NodeUpdate n)"
  shows "emits P (node_job_conditions e u nodeName n repoInfo jt cs st) h"
proof (induction cs arbitrary: st h)
  case (Cons c cs)
  have "emits P (node_job_condition e u nodeName n repoInfo jt c st) h" for h
    unfolding node_job_condition_def finish_node_def setNodeWaitRebootLabel_def Let_def
    by (intro emit_intros emits_sendRestoreVMJob assms)
  then show ?case by (simp add: emits_andthen Cons.IH)
qed (simp add: emits_return)

lemma emits_find_plan_secret:
  "(\<And>h a b c d. P h (SecretList a b c d)) \<Longrightarrow> emits P (find_plan_secret e machineName) h"
  unfolding find_plan_secret_def by (intro emit_intros) (auto intro: emits_return split: list.splits)

lemma emits_acknowledge: "(\<And>h s. P h (SecretUpdate s)) \<Longrightarrow> emits P (when_do b (acknowledge e s hook k)) h"
  unfolding acknowledge_def when_do_def Let_def by (intro emit_intros)

lemma writes_update_if_changed: "u \<in> cached e \<Longrightarrow> evolves u t \<Longrightarrow> writes_ok e (update_if_changed e u t) h"
  unfolding update_if_changed_def upgrade_update_def by (intro emit_intros) auto

lemma writes_sync_node_job:
  assumes "u \<in> cached e" and "jt \<noteq> upgradeJobTypeSingleNodeUpgrade"
  shows "writes_ok e (sync_node_job e job jt nodeName n machineName u repoInfo) h"
  unfolding sync_node_job_def
proof (rule emits_andthen_run)
  show "writes_ok e (node_job_conditions e u nodeName n repoInfo jt (uj_Conditions job) (u, False, False)) h"
    by (rule emits_node_job_conditions) simp_all
  fix st h'
  assume "run_state (node_job_conditions e u nodeName n repoInfo jt (uj_Conditions job) (u, False, False)) h = (Inr st, h')"
  then have "job_loop u nodeName jt n repoInfo (uj_Conditions job) st" using assms(2) by (rule node_job_conditions_result)
  then have "evolves u (fst st)" by (cases st) (auto dest: job_loop_evolves)
  then show "writes_ok e (case st of (toUpdate, preDrained, postDrained) \<Rightarrow>
      andthen (update_if_changed e u toUpdate) (\<lambda>_. andthen (find_plan_secret e machineName) (\<lambda>s.
        andthen (when_do preDrained (acknowledge e s preDrainAnnotation rke2PreDrainAnnotation)) (\<lambda>_.
          when_do postDrained (acknowledge e s postDrainAnnotation rke2PostDrainAnnotation))))) h'"
    using assms(1) by (intro emit_intros writes_update_if_changed emits_find_plan_secret emits_acknowledge) simp_all
qed

lemma writes_syncNodeJob:
  assumes "sget (uj_Labels job) upgradeJobTypeLabel \<noteq> Some upgradeJobTypeSingleNodeUpgrade"
  shows "writes_ok e (syncNodeJob e job) h"
  unfolding syncNodeJob_def
  by (intro emits_case_option emits_return emits_bindI emits_observe emits_case_sum emits_case_prod
      emits_andthen_observe emits_andthen writes_sync_node_job)
    (use assms in \<open>auto intro: cached_Get\<close>)

text \<open>Writes to a node that is not being drained, before the node phase.\<close>

definition preparing :: "upgrade \<Rightarrow> upgrade \<Rightarrow> bool" where
  "preparing u t \<longleftrightarrow> same_upgrade u t \<and> (up_inv u \<longrightarrow> up_inv t \<and> \<not> nodes_upgraded t)"

lemma preparing_step:
  assumes "preparing u t" and "s \<in> {nodeStateImagesPreloading, nodeStateImagesPreloaded, StateFailed}"
  shows "preparing u (setNodeUpgradeStatus now t n s r m)"
proof -
  let ?v = "setNodeUpgradeStatus now t n s r m"
  have "up_inv ?v \<and> \<not> nodes_upgraded ?v" if "up_inv u"
  proof -
    from that assms(1) have t: "up_inv t" "\<not> nodes_upgraded t" by (simp_all add: preparing_def)
    then have "report_ok ?v" by (intro report_ok_setNodeUpgradeStatus) (simp_all add: up_inv_def)
    moreover have "\<not> nodes_upgraded ?v"
      using not_nodes_upgraded [OF \<open>report_ok ?v\<close>, of n] assms(2) by (auto simp: node_state_setNodeUpgradeStatus)
    moreover have "busy ?v k \<Longrightarrow> busy t k" for k
      using assms(2) by (auto simp: busy_def node_state_setNodeUpgradeStatus split: if_splits)
    then have "one_busy ?v" using t(1) unfolding up_inv_def one_busy_def by blast
    moreover have "up_SingleNode ?v = []" using t(1) same_setNodeUpgradeStatus [of t now n s r m] by (simp add: up_inv_def same_upgrade_def)
    ultimately show ?thesis by (simp add: up_inv_def)
  qed
  then show ?thesis using assms(1) same_trans [OF _ same_setNodeUpgradeStatus] by (simp add: preparing_def)
qed

lemma preparing_plan_job: "preparing u t \<Longrightarrow> preparing u (plan_job_status now n cs t)"
proof (induction cs arbitrary: t)
  case (Cons c cs)
  then show ?case by (simp add: preparing_step)
qed simp

lemma preparing_evolves:
  assumes "preparing u t" and "upgrade_state u = StatePreparingNodes"
  shows "evolves u t"
  using assms by (simp add: preparing_def evolves_def node_phase_def)

lemma writes_syncPlanJob: "writes_ok e (syncPlanJob e job planName nodeName) h"
proof -
  have ok: "evolves u (plan_job_status now nodeName cs (if b then setNodeUpgradeStatus now u nodeName nodeStateImagesPreloading [] [] else u))"
    if "upgrade_state u = StatePreparingNodes" for u now cs b
  proof -
    have "preparing u u"
      using that by (auto simp: preparing_def up_inv_def report_ok_def)
    then show ?thesis using that by (intro preparing_evolves preparing_plan_job) (simp_all add: preparing_step)
  qed
  show ?thesis
    unfolding syncPlanJob_def Let_def
    by (intro emits_andthen_observe emits_case_option emits_if emits_return emits_bindI emits_observe emits_andthen
        writes_update_if_changed ok) (auto intro: cached_Get)
qed

lemma writes_syncManifestJob: "writes_ok e (syncManifestJob e job) h"
proof -
  have ok: "evolves u (manifest_job_status now cs t)" if "evolves u t" for u t now cs
    using that
  proof (induction cs arbitrary: t)
    case (Cons c cs)
    then show ?case using evolves_trans [OF Cons.prems evolves_setters(3)] by simp
  qed simp
  show ?thesis
    unfolding syncManifestJob_def
    by (intro emits_case_option emits_return emits_bind_observe emits_case_sum emits_if emits_andthen
        writes_update_if_changed ok evolves_refl) (auto intro: cached_Get)
qed

lemma writes_job:
  assumes "\<And>j. jo = Some j \<Longrightarrow> sget (uj_Labels j) upgradeJobTypeLabel \<noteq> Some upgradeJobTypeSingleNodeUpgrade"
  shows "writes_ok e (OnChanged_job e jo) h"
  unfolding OnChanged_job_def Let_def
  by (intro emits_case_option emits_if emits_return writes_syncPlanJob writes_syncNodeJob writes_syncManifestJob assms)

lemma emits_retryUpdateNode:
  assumes "\<And>h n. P h (NodeUpdate n)" and "\<And>h i. P h (Sleep i)"
  shows "emits P (retryUpdateNodeOnConflict i e n f) h"
  by (induction i arbitrary: h) (auto intro!: emit_intros assms)

lemma writes_node: "writes_ok e (OnChanged_node e no) h"
proof -
  have ok: "evolves u (setNodeUpgradeStatus now u n StateSucceeded [] [])" if "node_state u n = nodeStateWaitingReboot" for u n now
    by (rule evolves_setNodeUpgradeStatus) (simp_all add: that)
  have "writes_ok e (node_rebooted e u n s) h" if "u \<in> cached e" "node_state u (node_Name n) = nodeStateWaitingReboot" for u n s h
    unfolding node_rebooted_def
    by (intro emits_andthen emits_case_sum emits_return emits_sendRestoreVMJob writes_record emits_acknowledge emits_retryUpdateNode ok that)
      simp_all
  then show ?thesis
    unfolding OnChanged_node_def
    by (intro emits_case_option emits_if emits_return emits_andthen_run [OF emits_ensureSingleUpgrade]
        emits_andthen_run [OF emits_find_plan_secret] emits_andthen emits_bindI emits_request)
      (auto dest: run_ensureSingleUpgrade)
qed

lemma plan_annotation_node: "plan_annotation nodeComponent = None"
  by (simp add: plan_annotation_def)

lemma evolves_annotations: "evolves u (u\<lparr>up_Annotations := a\<rparr>)"
proof -
  have eq: "node_statuses (u\<lparr>up_Annotations := a\<rparr>) = node_statuses u" by (simp add: node_statuses_def)
  show ?thesis
  proof (rule evolves_statuses [OF _ eq])
    show "same_upgrade u (u\<lparr>up_Annotations := a\<rparr>)" by (simp add: same_upgrade_def)
    show "report_ok u \<Longrightarrow> report_ok (u\<lparr>up_Annotations := a\<rparr>)"
      unfolding report_ok_def all_succeeded_def by (simp add: eq node_state_statuses [OF eq])
        (simp add: upgrade_state_def nodes_upgraded_def all_parts_def)
    show "node_phase u \<Longrightarrow> node_phase (u\<lparr>up_Annotations := a\<rparr>)" by (simp add: node_phase_def upgrade_state_def)
  qed
qed

lemma writes_plan: "writes_ok e (OnChanged_plan e po) h"
proof -
  have "writes_ok e (plan_done e u component) h" if "u \<in> cached e" for u component h
    unfolding plan_done_def upgrade_update_def
    by (intro emit_intros) (auto intro!: bexI [OF _ that] evolves_annotations evolves_setters(1))
  moreover have "writes_ok e (allAtLatestHash e plan) h" for plan h
    unfolding allAtLatestHash_def by (intro emit_intros)
  ultimately show ?thesis
    unfolding OnChanged_plan_def
    by (intro emits_case_option emits_if emits_return emits_andthen emits_bindI emits_observe emits_request emits_bind_observe
        emits_case_sum) (auto intro: cached_Get)
qed

lemma writes_image: "writes_ok e (OnChanged_image e io) h"
proof -
  have "evolves u (image_status now i u)" for u now i
    by (simp add: image_status_def Let_def evolves_setters)
  then show ?thesis
    unfolding OnChanged_image_def
    by (intro emits_case_option emits_if emits_return emits_bind_observe emits_case_sum emits_andthen writes_update_if_changed)
      (auto intro: cached_Get)
qed

text \<open>The repository becomes ready before the node phase.\<close>

lemma evolves_repo:
  assumes "upgrade_state u = StatePreparingRepo"
  shows "evolves u (setRepoProvisionedCondition now (u\<lparr>up_Labels := sset (up_Labels u) upgradeStateLabel StateRepoPrepared\<rparr>) s r m)"
proof -
  let ?v = "u\<lparr>up_Labels := sset (up_Labels u) upgradeStateLabel StateRepoPrepared\<rparr>"
  have eq: "node_statuses ?v = node_statuses u" by (simp add: node_statuses_def)
  have v: "report_ok ?v" if "report_ok u"
    using that assms unfolding report_ok_def all_succeeded_def
    by (auto simp: eq node_state_statuses [OF eq]) (auto simp: upgrade_state_def nodes_upgraded_def all_parts_def)
  show ?thesis
  proof (rule evolves_statuses)
    show "same_upgrade u (setRepoProvisionedCondition now ?v s r m)"
      by (rule same_trans [OF _ same_setters(4)]) (simp add: same_upgrade_def)
    show "node_statuses (setRepoProvisionedCondition now ?v s r m) = node_statuses u" by (simp only: statuses_setters eq)
    show "report_ok u \<Longrightarrow> report_ok (setRepoProvisionedCondition now ?v s r m)" using v by (simp add: report_ok_setters)
    show "node_phase u \<Longrightarrow> node_phase (setRepoProvisionedCondition now ?v s r m)" using assms by (simp add: node_phase_def)
  qed
qed

lemma writes_deployment: "writes_ok e (OnChanged_deployment e d) h"
  unfolding OnChanged_deployment_def upgrade_update_def
  by (intro emits_case_option emits_if emits_return emits_bind_observe emits_case_sum emits_andthen emits_request)
    (auto dest!: cached_Get intro!: evolves_repo bexI [where P = "\<lambda>u. evolves u _"])

lemmas handler_writes = writes_secret writes_job writes_node writes_plan writes_image writes_deployment

end
