(* ===== verification/Upgrade_Protocol.thy ===== *)
theory Upgrade_Protocol
  imports Upgrade_Invariant
begin

text \<open>
  The node phase over time: the handlers of \<open>Upgrade_Nodes\<close>, which run one at a time under the lock
  \<^verbatim>\<open>upgradeControllerLock\<close>, against an API server that keeps the upgrade, the plan
  secrets, the jobs and the nodes. Caches may lag behind by any number of versions of the upgrade; an
  update that is based on an old version is rejected. Each request may be answered, refused,
  or carried out while its answer is lost.
\<close>

section \<open>Server\<close>

datatype fate = Answered | Refused go_error | ReplyLost go_error

record up_world =
  uw_upgrade :: upgrade
  uw_secrets :: "plan_secret list"
  uw_jobs :: "upgrade_job list"
  uw_nodes :: "upgrade_node list"
  uw_fates :: "fate list"

definition next_fate :: "up_world \<Rightarrow> fate" where
  "next_fate w = (case uw_fates w of [] \<Rightarrow> Answered | f # _ \<Rightarrow> f)"

definition same_name :: "upgrade \<Rightarrow> upgrade \<Rightarrow> bool" where
  "same_name u v \<longleftrightarrow> up_Namespace u = up_Namespace v \<and> up_Name u = up_Name v"

definition current :: "upgrade \<Rightarrow> up_world \<Rightarrow> bool" where
  "current u w \<longleftrightarrow> same_name u (uw_upgrade w) \<and> up_ResourceVersion u = up_ResourceVersion (uw_upgrade w)"

definition bump :: "upgrade \<Rightarrow> upgrade" where
  "bump u = u\<lparr>up_ResourceVersion := Suc (up_ResourceVersion u)\<rparr>"

definition same_job :: "upgrade_job \<Rightarrow> upgrade_job \<Rightarrow> bool" where
  "same_job j k \<longleftrightarrow> uj_Namespace j = uj_Namespace k \<and> uj_Name j = uj_Name k"

definition same_secret :: "plan_secret \<Rightarrow> plan_secret \<Rightarrow> bool" where
  "same_secret s t \<longleftrightarrow> sec_Namespace s = sec_Namespace t \<and> sec_Name s = sec_Name t"

definition node_current :: "upgrade_node \<Rightarrow> upgrade_node \<Rightarrow> bool" where
  "node_current n m \<longleftrightarrow> node_Name n = node_Name m \<and> node_ResourceVersion n = node_ResourceVersion m"

fun up_effect :: "up_call \<Rightarrow> up_world \<Rightarrow> up_world" where
  "up_effect (UpgradeUpdate u) w = (if current u w then w\<lparr>uw_upgrade := bump u\<rparr> else w)"
| "up_effect (JobCreate j) w = (if list_ex (same_job j) (uw_jobs w) then w else w\<lparr>uw_jobs := uw_jobs w @ [j]\<rparr>)"
| "up_effect (SecretUpdate s) w = w\<lparr>uw_secrets := map (\<lambda>t. if same_secret s t then s else t) (uw_secrets w)\<rparr>"
| "up_effect (NodeUpdate n) w =
     w\<lparr>uw_nodes := map (\<lambda>m. if node_current n m then n\<lparr>node_ResourceVersion := Suc (node_ResourceVersion n)\<rparr> else m) (uw_nodes w)\<rparr>"
| "up_effect _ w = w"

definition apply_up_call :: "up_call \<Rightarrow> up_world \<Rightarrow> up_world" where
  "apply_up_call c w =
     (let w' = w\<lparr>uw_fates := tl (uw_fates w)\<rparr> in case next_fate w of Refused err \<Rightarrow> w' | _ \<Rightarrow> up_effect c w')"

abbreviation up_world_at :: "up_world \<Rightarrow> up_call list \<Rightarrow> up_world" where
  "up_world_at w h \<equiv> fold apply_up_call h w"

definition reply :: "up_world \<Rightarrow> 'a result \<Rightarrow> 'a result" where
  "reply w r = (case next_fate w of Answered \<Rightarrow> r | Refused err \<Rightarrow> Inl err | ReplyLost err \<Rightarrow> Inl err)"

definition conflict :: go_error where
  "conflict = ApiStatus Conflict ''the object has been modified''"

definition up_server :: "up_env \<Rightarrow> up_world \<Rightarrow> up_env" where
  "up_server e w = e\<lparr>
     upgradeClient_Update := \<lambda>h u. let v = up_world_at w h in reply v (if current u v then Inr (bump u) else Inl conflict),
     jobClient_Create := \<lambda>h j. let v = up_world_at w h
       in reply v (if list_ex (same_job j) (uw_jobs v) then Inl (ApiStatus AlreadyExists ''already exists'') else Inr j),
     nodeClient_Update := \<lambda>h n. let v = up_world_at w h in reply v (if list_ex (node_current n) (uw_nodes v) then Inr n else Inl conflict),
     secretClient_List := \<lambda>h ns k v t. let w' = up_world_at w h
       in reply w' (Inr (filter (\<lambda>s. sec_Namespace s = ns \<and> sget (sec_Labels s) k = Some v \<and> sec_Type s = t) (uw_secrets w'))),
     secretClient_Update := \<lambda>h s. let v = up_world_at w h
       in reply v (if list_ex (same_secret s) (uw_secrets v) then Inr s else Inl (ApiStatus NotFound ''not found''))\<rparr>"

definition up_run :: "(up_env \<Rightarrow> (up_call, 'a) act) \<Rightarrow> up_env \<Rightarrow> up_world \<Rightarrow> up_world" where
  "up_run handler e w = up_world_at w (issued (handler (up_server e w)))"

lemma cached_server [simp]: "cached (up_server e w) = cached e"
  by (simp add: cached_def up_server_def)

text \<open>A cache shows some version of the upgrade that the server has had, or other upgrades.\<close>

definition coherent :: "up_env \<Rightarrow> up_world \<Rightarrow> bool" where
  "coherent e w \<longleftrightarrow> (\<forall>u \<in> cached e. same_name u (uw_upgrade w) \<longrightarrow>
     up_ResourceVersion u \<le> up_ResourceVersion (uw_upgrade w) \<and>
     (up_ResourceVersion u = up_ResourceVersion (uw_upgrade w) \<longrightarrow> u = uw_upgrade w))"

section \<open>Steps\<close>

definition single_node_job :: "upgrade_job \<Rightarrow> bool" where
  "single_node_job j \<longleftrightarrow> sget (uj_Labels j) upgradeJobTypeLabel = Some upgradeJobTypeSingleNodeUpgrade"

text \<open>The machine a handler takes a node to run on: from the cache, or from the node it was called with.\<close>

definition cached_machine :: "up_env \<Rightarrow> string \<Rightarrow> string \<Rightarrow> bool" where
  "cached_machine e n machineName \<longleftrightarrow>
     (\<exists>h nd. upNodeCache_Get e h n = Inr nd \<and> sget (node_Annotations nd) MachineAnnotation = Some machineName)"

definition node_machine :: "upgrade_node option \<Rightarrow> string \<Rightarrow> string \<Rightarrow> bool" where
  "node_machine no n machineName \<longleftrightarrow>
     (\<exists>nd. no = Some nd \<and> node_Name nd = n \<and> sget (node_Annotations nd) MachineAnnotation = Some machineName)"

text \<open>What everyone else may do to the plan secrets: the acknowledgements are written by Harvester alone.\<close>

definition machine_label :: "plan_secret \<Rightarrow> string option" where
  "machine_label s = sget (sec_Labels s) rancherPlanSecretMachineLabel"

definition hooks_kept :: "plan_secret list \<Rightarrow> plan_secret list \<Rightarrow> bool" where
  "hooks_kept ss ss' \<longleftrightarrow> (\<forall>s' \<in> set ss'. \<exists>s \<in> set ss. machine_label s = machine_label s' \<and>
     ann s' preDrainAnnotation = ann s preDrainAnnotation \<and> ann s' postDrainAnnotation = ann s postDrainAnnotation)"

text \<open>
  \<open>K\<close> tells which machine a node runs on. Jobs of a single-node upgrade do not occur in a cluster with
  several nodes. In the step \<open>cluster\<close> Rancher, the job controller, the nodes and the network move.
\<close>

inductive up_step :: "(string \<Rightarrow> string \<Rightarrow> bool) \<Rightarrow> up_world \<Rightarrow> up_world \<Rightarrow> bool" for K where
  secret: "up_step K w (up_run (\<lambda>e. OnChanged_secret e so) e w)" if "coherent e w"
| job: "up_step K w (up_run (\<lambda>e. OnChanged_job e jo) e w)"
    if "coherent e w" and "\<And>j. jo = Some j \<Longrightarrow> \<not> single_node_job j" and "\<And>n m. cached_machine e n m \<Longrightarrow> K n m"
| node: "up_step K w (up_run (\<lambda>e. OnChanged_node e no) e w)" if "coherent e w" and "\<And>n m. node_machine no n m \<Longrightarrow> K n m"
| plan: "up_step K w (up_run (\<lambda>e. OnChanged_plan e po) e w)" if "coherent e w"
| vmimage: "up_step K w (up_run (\<lambda>e. OnChanged_image e io) e w)" if "coherent e w"
| deployment: "up_step K w (up_run (\<lambda>e. OnChanged_deployment e d) e w)" if "coherent e w"
| cluster: "up_step K w (w\<lparr>uw_secrets := ss, uw_jobs := js, uw_nodes := ns, uw_fates := fs\<rparr>)" if "hooks_kept (uw_secrets w) ss"
| user: "up_step K w (w\<lparr>uw_upgrade := bump ((uw_upgrade w)\<lparr>up_Annotations := a\<rparr>)\<rparr>)"

lemma evolves_same: "evolves u u' \<Longrightarrow> same_name u' u \<and> up_ResourceVersion u' = up_ResourceVersion u"
  by (simp add: evolves_def same_upgrade_def same_name_def)

text \<open>Of the updates a handler sends at most one lands, on the version it was computed from.\<close>

lemma landing_version:
  assumes "coherent e w" and "uw_upgrade v = uw_upgrade w \<or> (\<exists>u'. evolves (uw_upgrade w) u' \<and> uw_upgrade v = bump u')"
    and "u \<in> cached e" and "evolves u u'" and "same_name u (uw_upgrade v)" and "up_ResourceVersion u = up_ResourceVersion (uw_upgrade v)"
  shows "uw_upgrade v = uw_upgrade w"
proof (rule ccontr)
  assume "uw_upgrade v \<noteq> uw_upgrade w"
  with assms(2) obtain u1 where u1: "evolves (uw_upgrade w) u1" "uw_upgrade v = bump u1" by blast
  then have "up_ResourceVersion (uw_upgrade v) = Suc (up_ResourceVersion (uw_upgrade w))" "same_name u (uw_upgrade w)"
    using evolves_same [OF u1(1)] assms(5) by (simp_all add: bump_def same_name_def)
  with assms(1,3,6) show False by (force simp: coherent_def)
qed

lemma upgrade_after_writes:
  assumes "coherent e w" and "list_all (write_ok (cached e)) h"
  shows "uw_upgrade (up_world_at w h) = uw_upgrade w \<or>
    (\<exists>u'. evolves (uw_upgrade w) u' \<and> uw_upgrade (up_world_at w h) = bump u')"
  using assms(2)
proof (induction h rule: rev_induct)
  case (snoc c h)
  let ?v = "up_world_at w h"
  have IH: "uw_upgrade ?v = uw_upgrade w \<or> (\<exists>u'. evolves (uw_upgrade w) u' \<and> uw_upgrade ?v = bump u')"
    using snoc by simp
  show ?case
  proof (cases "\<exists>u'. c = UpgradeUpdate u' \<and> current u' ?v \<and> (\<forall>err. next_fate ?v \<noteq> Refused err)")
    case False
    then have "uw_upgrade (apply_up_call c ?v) = uw_upgrade ?v"
      by (cases c) (auto simp: apply_up_call_def Let_def current_def split: fate.splits)
    with IH show ?thesis by simp
  next
    case True
    then obtain u' where u': "c = UpgradeUpdate u'" "current u' ?v" "\<forall>err. next_fate ?v \<noteq> Refused err" by blast
    then obtain u where u: "u \<in> cached e" "evolves u u'" using snoc.prems by auto
    have rv: "same_name u (uw_upgrade ?v)" "up_ResourceVersion u = up_ResourceVersion (uw_upgrade ?v)"
      using u'(2) evolves_same [OF u(2)] by (auto simp: current_def same_name_def)
    have first: "uw_upgrade ?v = uw_upgrade w" using assms(1) IH u rv by (rule landing_version)
    then have "u = uw_upgrade w" using assms(1) u(1) rv by (auto simp: coherent_def)
    moreover have "uw_upgrade (apply_up_call c ?v) = bump u'"
      using u' by (auto simp: apply_up_call_def Let_def current_def split: fate.splits)
    ultimately show ?thesis using u(2) by auto
  qed
qed simp

lemma run_evolves:
  assumes "coherent e w" and "\<And>e' h. writes_ok e' (handler e') h"
  shows "uw_upgrade (up_run handler e w) = uw_upgrade w \<or>
    (\<exists>u'. evolves (uw_upgrade w) u' \<and> uw_upgrade (up_run handler e w) = bump u')"
proof -
  have "list_all (write_ok (cached e)) (issued (handler (up_server e w)))"
    using emits_issued_all [OF assms(2) [of "up_server e w" "[]"]] by (auto simp: list_all_iff)
  with assms(1) show ?thesis unfolding up_run_def by (rule upgrade_after_writes)
qed

lemma bump_simps [simp]: "node_state (bump u) = node_state u" "up_inv (bump u) = up_inv u" "node_phase (bump u) = node_phase u"
  "upgrade_state (bump u) = upgrade_state u"
proof -
  have eq: "node_statuses (bump u) = node_statuses u" by (simp add: bump_def node_statuses_def)
  show st: "node_state (bump u) = node_state u" using eq by (rule node_state_statuses)
  show lab: "upgrade_state (bump u) = upgrade_state u" by (simp add: bump_def upgrade_state_def)
  then show "node_phase (bump u) = node_phase u" by (simp add: node_phase_def)
  have "report_ok (bump u) = report_ok u"
    unfolding report_ok_def all_succeeded_def eq st lab by (simp add: bump_def nodes_upgraded_def all_parts_def)
  then show "up_inv (bump u) = up_inv u"
    unfolding up_inv_def one_busy_def busy_def st by (simp add: bump_def)
qed

lemma up_step_evolves:
  assumes "up_step K w w'"
  shows "uw_upgrade w' = uw_upgrade w \<or> (\<exists>u'. evolves (uw_upgrade w) u' \<and> uw_upgrade w' = bump u')"
  using assms
proof cases
  case (secret e so)
  from run_evolves [OF secret(2), where handler = "\<lambda>e. OnChanged_secret e so", OF writes_secret] show ?thesis unfolding secret(1) .
next
  case (job e jo)
  have "writes_ok e' (OnChanged_job e' jo) h" for e' h using job(3) by (intro writes_job) (auto simp: single_node_job_def)
  from run_evolves [OF job(2), where handler = "\<lambda>e. OnChanged_job e jo", OF this] show ?thesis unfolding job(1) .
next
  case (node e no)
  from run_evolves [OF node(2), where handler = "\<lambda>e. OnChanged_node e no", OF writes_node] show ?thesis unfolding node(1) .
next
  case (plan e po)
  from run_evolves [OF plan(2), where handler = "\<lambda>e. OnChanged_plan e po", OF writes_plan] show ?thesis unfolding plan(1) .
next
  case (vmimage e io)
  from run_evolves [OF vmimage(2), where handler = "\<lambda>e. OnChanged_image e io", OF writes_image] show ?thesis unfolding vmimage(1) .
next
  case (deployment e d)
  from run_evolves [OF deployment(2), where handler = "\<lambda>e. OnChanged_deployment e d", OF writes_deployment] show ?thesis
    unfolding deployment(1) .
next
  case (user a)
  then show ?thesis using evolves_annotations [of "uw_upgrade w" a] by auto
qed simp

lemma up_steps_inv:
  assumes "(up_step K)\<^sup>*\<^sup>* w w'" and "up_inv (uw_upgrade w)"
  shows "up_inv (uw_upgrade w') \<and> (node_phase (uw_upgrade w) \<longrightarrow> node_phase (uw_upgrade w') \<and> advances (uw_upgrade w) (uw_upgrade w'))"
  using assms
proof (induction rule: rtranclp_induct)
  case (step w' w'')
  then have IH: "up_inv (uw_upgrade w')" "node_phase (uw_upgrade w) \<longrightarrow> node_phase (uw_upgrade w') \<and> advances (uw_upgrade w) (uw_upgrade w')"
    by simp_all
  from up_step_evolves [OF step.hyps(2)] show ?case
  proof
    assume "\<exists>u'. evolves (uw_upgrade w') u' \<and> uw_upgrade w'' = bump u'"
    then obtain u' where u': "evolves (uw_upgrade w') u'" "uw_upgrade w'' = bump u'" by blast
    with IH have "up_inv u'" "node_phase (uw_upgrade w) \<longrightarrow> node_phase u' \<and> advances (uw_upgrade w) u'"
      by (auto simp: evolves_def advances_def intro: le_trans)
    with u'(2) show ?thesis by (simp add: advances_def)
  qed (use IH in simp)
qed (simp add: advances_def)

section \<open>Acknowledgements\<close>

text \<open>The update of the upgrade from \<open>u\<close> to \<open>u'\<close> has been accepted, and the plan secret of a machine has been read.\<close>

definition recorded :: "up_env \<Rightarrow> up_call list \<Rightarrow> upgrade \<Rightarrow> upgrade \<Rightarrow> bool" where
  "recorded e h u u' \<longleftrightarrow> u \<in> cached e \<and> evolves u u' \<and>
     (\<exists>h1 x h2. h = h1 @ UpgradeUpdate u' # h2 \<and> upgradeClient_Update e h1 u' = Inr x)"

definition listed :: "up_env \<Rightarrow> up_call list \<Rightarrow> string \<Rightarrow> plan_secret \<Rightarrow> bool" where
  "listed e h machineName s \<longleftrightarrow>
     (\<exists>h1 h2. h = h1 @ SecretList rancherPlanSecretNamespace rancherPlanSecretMachineLabel machineName rancherPlanSecretType # h2 \<and>
        secretClient_List e h1 rancherPlanSecretNamespace rancherPlanSecretMachineLabel machineName rancherPlanSecretType = Inr [s])"

definition acked :: "plan_secret \<Rightarrow> string \<Rightarrow> string \<Rightarrow> plan_secret" where
  "acked s hook k = s\<lparr>sec_Annotations := sset (sec_Annotations s) hook (ann s k)\<rparr>"

text \<open>
  A hook may be acknowledged on the secret of a machine after the accepted update that takes its node out of the
  state in which the hook was running.
\<close>

definition ack_ok :: "up_env \<Rightarrow> (string \<Rightarrow> string \<Rightarrow> bool) \<Rightarrow> up_call list \<Rightarrow> up_call \<Rightarrow> bool" where
  "ack_ok e machine_of h c = (case c of SecretUpdate s' \<Rightarrow>
     \<exists>s machineName n u u'. machine_of n machineName \<and> listed e h machineName s \<and> recorded e h u u' \<and>
       (s' = acked s preDrainAnnotation rke2PreDrainAnnotation \<and> node_state u n = nodeStatePreDraining \<and>
          node_state u' n \<in> {nodeStatePreDrained, StateFailed} \<or>
        s' = acked s postDrainAnnotation rke2PostDrainAnnotation \<and> node_state u n \<in> {nodeStatePostDraining, nodeStateWaitingReboot} \<and>
          node_state u' n \<in> {StateSucceeded, StateFailed})
   | _ \<Rightarrow> True)"

lemma ack_ok_other [simp]:
  "ack_ok e M h (UpgradeUpdate u)" "ack_ok e M h (JobCreate j)" "ack_ok e M h (SecretList a b c d)" "ack_ok e M h (NodeUpdate n)"
  "ack_ok e M h (SecretEnqueueAfter a b i)" "ack_ok e M h (NodeEnqueueAfter a i)" "ack_ok e M h (PlanEnqueueAfter a b i)" "ack_ok e M h (Sleep i)"
  by (simp_all add: ack_ok_def)

lemma recorded_mono: "recorded e h u u' \<Longrightarrow> recorded e (h @ cs) u u'"
  unfolding recorded_def by force

lemma listed_mono: "listed e h m s \<Longrightarrow> listed e (h @ cs) m s"
  unfolding listed_def by force

lemma run_find_plan_secret:
  assumes "run_state (find_plan_secret e machineName) h = (Inr s, h')"
  shows "listed e h' machineName s \<and> (\<exists>cs. h' = h @ cs)"
proof -
  obtain l where l: "secretClient_List e h rancherPlanSecretNamespace rancherPlanSecretMachineLabel machineName rancherPlanSecretType = Inr l"
    using assms by (auto simp: find_plan_secret_def split: sum.splits)
  with assms have "l = [s] \<and> h' = h @ [SecretList rancherPlanSecretNamespace rancherPlanSecretMachineLabel machineName rancherPlanSecretType]"
    by (auto simp: find_plan_secret_def split: list.splits)
  with l show ?thesis unfolding listed_def by auto
qed

lemma run_update_if_changed:
  assumes "run_state (update_if_changed e u t) h = (Inr x, h')" and "u \<noteq> t" and "u \<in> cached e" and "evolves u t"
  shows "recorded e h' u t"
proof -
  have "\<exists>y. upgradeClient_Update e h t = Inr y \<and> h' = h @ [UpgradeUpdate t]"
    using assms(1,2) by (auto simp: update_if_changed_def upgrade_update_def split: sum.splits)
  with assms(3,4) show ?thesis unfolding recorded_def by auto
qed

lemma ack_preI:
  "M n machineName \<Longrightarrow> listed e h machineName s \<Longrightarrow> recorded e h u u' \<Longrightarrow> node_state u n = nodeStatePreDraining \<Longrightarrow>
   node_state u' n \<in> {nodeStatePreDrained, StateFailed} \<Longrightarrow> ack_ok e M h (SecretUpdate (acked s preDrainAnnotation rke2PreDrainAnnotation))"
  unfolding ack_ok_def up_call.case by blast

lemma ack_postI:
  "M n machineName \<Longrightarrow> listed e h machineName s \<Longrightarrow> recorded e h u u' \<Longrightarrow>
   node_state u n \<in> {nodeStatePostDraining, nodeStateWaitingReboot} \<Longrightarrow>
   node_state u' n \<in> {StateSucceeded, StateFailed} \<Longrightarrow> ack_ok e M h (SecretUpdate (acked s postDrainAnnotation rke2PostDrainAnnotation))"
  unfolding ack_ok_def up_call.case by blast

lemma acks_sync_node_job:
  assumes "u \<in> cached e" and "jt \<noteq> upgradeJobTypeSingleNodeUpgrade" and "M nodeName machineName"
  shows "emits (ack_ok e M) (sync_node_job e job jt nodeName n machineName u repoInfo) h"
  unfolding sync_node_job_def
proof (rule emits_andthen_run)
  show "emits (ack_ok e M) (node_job_conditions e u nodeName n repoInfo jt (uj_Conditions job) (u, False, False)) h"
    by (rule emits_node_job_conditions) simp_all
  fix st h1
  assume run1: "run_state (node_job_conditions e u nodeName n repoInfo jt (uj_Conditions job) (u, False, False)) h = (Inr st, h1)"
  obtain t p q where st: "st = (t, p, q)" by (cases st)
  from run1 assms(2) have loop: "job_loop u nodeName jt n repoInfo (uj_Conditions job) (t, p, q)"
    unfolding st by (rule node_job_conditions_result)
  have ev: "evolves u t" using loop by (rule job_loop_evolves)
  have moved: "u \<noteq> t \<and> job_awaited u nodeName jt \<and> node_state t nodeName \<in> {job_target jt n repoInfo, StateFailed}" if "p \<or> q"
    using loop that by (auto simp: job_loop_def)
  have kind: "p \<Longrightarrow> jt = upgradeJobTypePreDrain" "q \<Longrightarrow> jt = upgradeJobTypePostDrain \<and> job_target jt n repoInfo = StateSucceeded"
    using loop by (auto simp: job_loop_def)
  have pre: "emits (ack_ok e M) (when_do p (acknowledge e s preDrainAnnotation rke2PreDrainAnnotation)) h3"
    if rec: "p \<or> q \<longrightarrow> recorded e h3 u t" and lst: "listed e h3 machineName s" for s h3
  proof -
    have "ack_ok e M h3 (SecretUpdate (acked s preDrainAnnotation rke2PreDrainAnnotation))" if p
    proof (rule ack_preI [where M = M, OF assms(3) lst])
      show "recorded e h3 u t" using rec that by simp
      show "node_state u nodeName = nodeStatePreDraining" using moved kind(1) that by (auto simp: job_awaited_def)
      show "node_state t nodeName \<in> {nodeStatePreDrained, StateFailed}" using moved kind(1) that by (auto simp: job_target_def)
    qed
    then show ?thesis unfolding when_do_def acknowledge_def Let_def acked_def by (intro emit_intros)
  qed
  have post: "emits (ack_ok e M) (when_do q (acknowledge e s postDrainAnnotation rke2PostDrainAnnotation)) h3"
    if rec: "p \<or> q \<longrightarrow> recorded e h3 u t" and lst: "listed e h3 machineName s" for s h3
  proof -
    have "ack_ok e M h3 (SecretUpdate (acked s postDrainAnnotation rke2PostDrainAnnotation))" if q
    proof (rule ack_postI [where M = M, OF assms(3) lst])
      show "recorded e h3 u t" using rec that by simp
      show "node_state u nodeName \<in> {nodeStatePostDraining, nodeStateWaitingReboot}" using moved kind(2) that by (auto simp: job_awaited_def)
      show "node_state t nodeName \<in> {StateSucceeded, StateFailed}" using moved kind(2) that by auto
    qed
    then show ?thesis unfolding when_do_def acknowledge_def Let_def acked_def by (intro emit_intros)
  qed
  show "emits (ack_ok e M) (case st of (toUpdate, preDrained, postDrained) \<Rightarrow>
      andthen (update_if_changed e u toUpdate) (\<lambda>_. andthen (find_plan_secret e machineName) (\<lambda>s.
        andthen (when_do preDrained (acknowledge e s preDrainAnnotation rke2PreDrainAnnotation)) (\<lambda>_.
          when_do postDrained (acknowledge e s postDrainAnnotation rke2PostDrainAnnotation))))) h1"
    unfolding st prod.case
  proof (rule emits_andthen_run)
    show "emits (ack_ok e M) (update_if_changed e u t) h1"
      unfolding update_if_changed_def upgrade_update_def by (intro emit_intros) simp
    fix x h2
    assume run2: "run_state (update_if_changed e u t) h1 = (Inr x, h2)"
    then have rec: "p \<or> q \<longrightarrow> recorded e h2 u t" using moved run_update_if_changed [OF run2 _ assms(1) ev] by blast
    show "emits (ack_ok e M) (andthen (find_plan_secret e machineName) (\<lambda>s.
        andthen (when_do p (acknowledge e s preDrainAnnotation rke2PreDrainAnnotation)) (\<lambda>_.
          when_do q (acknowledge e s postDrainAnnotation rke2PostDrainAnnotation)))) h2"
    proof (rule emits_andthen_run)
      fix s h3
      assume "run_state (find_plan_secret e machineName) h2 = (Inr s, h3)"
      then have lst: "listed e h3 machineName s" and "\<exists>cs. h3 = h2 @ cs" using run_find_plan_secret by blast+
      then have rec: "p \<or> q \<longrightarrow> recorded e h3 u t" using rec recorded_mono by blast
      show "emits (ack_ok e M) (andthen (when_do p (acknowledge e s preDrainAnnotation rke2PreDrainAnnotation)) (\<lambda>_.
          when_do q (acknowledge e s postDrainAnnotation rke2PostDrainAnnotation))) h3"
      proof (rule emits_andthen_run [OF pre [OF rec lst]])
        fix y h4
        assume "run_state (when_do p (acknowledge e s preDrainAnnotation rke2PreDrainAnnotation)) h3 = (Inr y, h4)"
        then have "\<exists>cs. h4 = h3 @ cs" using emits_run [OF pre [OF rec lst]] by metis
        then show "emits (ack_ok e M) (when_do q (acknowledge e s postDrainAnnotation rke2PostDrainAnnotation)) h4"
          using rec lst recorded_mono listed_mono by (intro post) blast+
      qed
    qed (simp add: emits_find_plan_secret)
  qed
qed


lemma acks_job:
  assumes "\<And>j. jo = Some j \<Longrightarrow> \<not> single_node_job j"
  shows "emits (ack_ok e (cached_machine e)) (OnChanged_job e jo) h"
proof -
  have "emits (ack_ok e (cached_machine e)) (syncNodeJob e job) h" if "\<not> single_node_job job" for job h
    unfolding syncNodeJob_def
    by (intro emits_case_option emits_return emits_bind_observe emits_case_sum emits_case_prod
        emits_andthen_observe emits_andthen acks_sync_node_job)
      (use that in \<open>auto simp: single_node_job_def cached_machine_def dest: cached_Get\<close>)
  moreover have "emits P (syncPlanJob e job a b) h" if "\<And>h u. P h (UpgradeUpdate u)" for P job a b h
    unfolding syncPlanJob_def update_if_changed_def upgrade_update_def Let_def by (intro emit_intros that)
  moreover have "emits P (syncManifestJob e job) h" if "\<And>h u. P h (UpgradeUpdate u)" for P job h
    unfolding syncManifestJob_def update_if_changed_def upgrade_update_def by (intro emit_intros that)
  ultimately show ?thesis
    unfolding OnChanged_job_def Let_def by (intro emits_case_option emits_if emits_return) (simp_all add: assms)
qed

lemma run_record:
  assumes "run_state (record_node_state e u n s r m) h = (Inr x, h')" and "u \<in> cached e"
    and "\<And>now. evolves u (setNodeUpgradeStatus now u n s r m)"
  obtains u' where "recorded e h' u u'" and "node_state u' n = s"
proof -
  have "\<exists>y. upgradeClient_Update e h (setNodeUpgradeStatus (up_now e h) u n s r m) = Inr y \<and>
      h' = h @ [UpgradeUpdate (setNodeUpgradeStatus (up_now e h) u n s r m)]"
    using assms(1) by (auto simp: record_node_state_def upgrade_update_def split: sum.splits)
  then have "recorded e h' u (setNodeUpgradeStatus (up_now e h) u n s r m)"
    using assms(2,3) unfolding recorded_def by auto
  then show ?thesis using that node_state_setNodeUpgradeStatus by force
qed

lemma acks_node_rebooted:
  assumes "u \<in> cached e" and "node_state u (node_Name n) = nodeStateWaitingReboot" and "M (node_Name n) machineName" and "listed e h machineName s"
  shows "emits (ack_ok e M) (node_rebooted e u n s) h"
  unfolding node_rebooted_def
proof (rule emits_andthen_run)
  let ?send = "case getCachedRepoInfo e u of Inl _ \<Rightarrow> ret (Inr ()) | Inr repoInfo \<Rightarrow> sendRestoreVMJob e u n repoInfo"
  show send: "emits (ack_ok e M) ?send h" by (intro emits_case_sum emits_return emits_sendRestoreVMJob) simp
  fix x h1
  assume "run_state ?send h = (Inr x, h1)"
  then obtain cs where h1: "h1 = h @ cs" using emits_run [OF send] by metis
  let ?rec = "record_node_state e u (node_Name n) StateSucceeded [] []"
  show "emits (ack_ok e M) (andthen ?rec (\<lambda>_.
      andthen (when_do (up_SingleNode u = []) (acknowledge e s postDrainAnnotation rke2PostDrainAnnotation)) (\<lambda>_.
        retryUpdateNodeOnConflict 2 e (node_Name n) clear_pending_os))) h1"
  proof (rule emits_andthen_run)
    show rec: "emits (ack_ok e M) ?rec h1"
      unfolding record_node_state_def upgrade_update_def by (intro emit_intros) simp
    fix y h2
    assume run: "run_state ?rec h1 = (Inr y, h2)"
    have ev: "evolves u (setNodeUpgradeStatus now u (node_Name n) StateSucceeded [] [])" for now
      by (rule evolves_setNodeUpgradeStatus) (simp_all add: assms(2))
    obtain u' where u': "recorded e h2 u u'" "node_state u' (node_Name n) = StateSucceeded"
      by (rule run_record [OF run assms(1) ev])
    obtain ds where "h2 = h1 @ ds" using emits_run [OF rec run] by metis
    then have lst: "listed e h2 machineName s" using listed_mono [OF assms(4)] by (simp add: h1)
    have "ack_ok e M h2 (SecretUpdate (acked s postDrainAnnotation rke2PostDrainAnnotation))"
      by (rule ack_postI [where M = M, OF assms(3) lst u'(1)]) (simp_all add: u'(2) assms(2))
    then show "emits (ack_ok e M) (andthen (when_do (up_SingleNode u = []) (acknowledge e s postDrainAnnotation rke2PostDrainAnnotation)) (\<lambda>_.
        retryUpdateNodeOnConflict 2 e (node_Name n) clear_pending_os)) h2"
      unfolding when_do_def acknowledge_def Let_def acked_def [symmetric] by (intro emit_intros emits_retryUpdateNode) simp_all
  qed
qed

lemma acks_node: "emits (ack_ok e (node_machine no)) (OnChanged_node e no) h"
proof -
  have "emits (ack_ok e (node_machine no)) (andthen (find_plan_secret e machineName) (\<lambda>s.
      if expectedVersion = un_OSImage n then andthen (node_rebooted e u n s) (\<lambda>_. ret (Inr (Some n)))
      else do {
        _ \<leftarrow> request (NodeEnqueueAfter (node_Name n) upgradeCommonRequeueInterval) (\<lambda>h. ());
        ret (Inr (Some n)) })) h"
    if "no = Some n" "sget (node_Annotations n) MachineAnnotation = Some machineName" "u \<in> cached e"
      "node_state u (node_Name n) = nodeStateWaitingReboot" for n machineName expectedVersion u h
  proof (rule emits_andthen_run)
    fix s h'
    assume "run_state (find_plan_secret e machineName) h = (Inr s, h')"
    then have "listed e h' machineName s" using run_find_plan_secret by blast
    moreover have "node_machine no (node_Name n) machineName" using that by (simp add: node_machine_def)
    ultimately have "emits (ack_ok e (node_machine no)) (node_rebooted e u n s) h'"
      using acks_node_rebooted [where M = "node_machine no"] that(3,4) by blast
    then show "emits (ack_ok e (node_machine no)) (if expectedVersion = un_OSImage n then andthen (node_rebooted e u n s) (\<lambda>_. ret (Inr (Some n)))
      else do {
        _ \<leftarrow> request (NodeEnqueueAfter (node_Name n) upgradeCommonRequeueInterval) (\<lambda>h. ());
        ret (Inr (Some n)) }) h'"
      by (intro emit_intros) simp_all
  qed (simp add: emits_find_plan_secret)
  then show ?thesis
    unfolding OnChanged_node_def
    by (intro emits_case_option emits_if emits_return emits_andthen_run [OF emits_ensureSingleUpgrade])
      (auto dest: run_ensureSingleUpgrade)
qed

text \<open>The other handlers never write a secret.\<close>

lemma no_secret_writes:
  assumes "\<And>h c. (\<forall>s. c \<noteq> SecretUpdate s) \<Longrightarrow> P h c"
  shows "emits P (OnChanged_secret e so) h" "emits P (OnChanged_plan e po) h" "emits P (OnChanged_image e io) h"
    "emits P (OnChanged_deployment e d) h"
proof -
  have "emits P (createHookJob e u n jt s) h" "emits P (record_node_state e u n s r m) h" for u n jt s r m h
    unfolding createHookJob_def checkPendingHookJobs_def create_job_def record_node_state_def upgrade_update_def
    by (intro emit_intros; simp add: assms)+
  then have "emits P (secret_switch e s u n) h" for s u n h
    unfolding secret_switch_def unpause_node_def Let_def by (intro emit_intros) (simp_all add: assms)
  then show "emits P (OnChanged_secret e so) h"
    unfolding OnChanged_secret_def by (intro emit_intros)
  show "emits P (OnChanged_plan e po) h"
    unfolding OnChanged_plan_def allAtLatestHash_def plan_done_def upgrade_update_def by (intro emit_intros) (simp_all add: assms)
  show "emits P (OnChanged_image e io) h"
    unfolding OnChanged_image_def update_if_changed_def upgrade_update_def by (intro emit_intros) (simp_all add: assms)
  show "emits P (OnChanged_deployment e d) h"
    unfolding OnChanged_deployment_def upgrade_update_def by (intro emit_intros) (simp_all add: assms)
qed

section \<open>A lost acknowledgement\<close>

text \<open>The acknowledgements of the pre-drain hook on the secrets of machine \<open>m\<close> are those there were.\<close>

definition pre_kept :: "string \<Rightarrow> up_world \<Rightarrow> up_world \<Rightarrow> bool" where
  "pre_kept m w w' \<longleftrightarrow> (\<forall>s' \<in> set (uw_secrets w'). machine_label s' = Some m \<longrightarrow>
     (\<exists>s \<in> set (uw_secrets w). machine_label s = Some m \<and> ann s' preDrainAnnotation = ann s preDrainAnnotation))"

lemma pre_kept_refl [simp]: "pre_kept m w w"
  unfolding pre_kept_def by blast

lemma pre_kept_trans: "pre_kept m w w' \<Longrightarrow> pre_kept m w' w'' \<Longrightarrow> pre_kept m w w''"
  unfolding pre_kept_def by metis

lemma server_listed:
  assumes "listed (up_server e w) h m s"
  obtains h1 h2 where "h = h1 @ h2" and "s \<in> set (uw_secrets (up_world_at w h1))" and "machine_label s = Some m"
proof -
  obtain h1 h2 where h: "h = h1 @ SecretList rancherPlanSecretNamespace rancherPlanSecretMachineLabel m rancherPlanSecretType # h2"
    and l: "secretClient_List (up_server e w) h1 rancherPlanSecretNamespace rancherPlanSecretMachineLabel m rancherPlanSecretType = Inr [s]"
    using assms unfolding listed_def by blast
  let ?w = "up_world_at w h1"
  have "filter (\<lambda>s. sec_Namespace s = rancherPlanSecretNamespace \<and> sget (sec_Labels s) rancherPlanSecretMachineLabel = Some m \<and>
      sec_Type s = rancherPlanSecretType) (uw_secrets ?w) = [s]"
    using l by (simp add: up_server_def Let_def reply_def split: fate.splits)
  then have "s \<in> set (uw_secrets ?w) \<and> machine_label s = Some m" by (auto simp: filter_eq_Cons_iff machine_label_def)
  with h that show ?thesis by blast
qed

lemma server_recorded:
  assumes "coherent e w" and "list_all (write_ok (cached e)) h" and "recorded (up_server e w) h u u'"
  shows "u = uw_upgrade w"
proof -
  from assms(3) obtain h1 x h2 where u: "u \<in> cached e" "evolves u u'" and h: "h = h1 @ UpgradeUpdate u' # h2"
    and ok: "upgradeClient_Update (up_server e w) h1 u' = Inr x"
    unfolding recorded_def by auto
  let ?v = "up_world_at w h1"
  have "current u' ?v" using ok by (auto simp: up_server_def Let_def reply_def split: fate.splits if_splits)
  then have rv: "same_name u (uw_upgrade ?v)" "up_ResourceVersion u = up_ResourceVersion (uw_upgrade ?v)"
    using evolves_same [OF u(2)] by (auto simp: current_def same_name_def)
  have "list_all (write_ok (cached e)) h1" using assms(2) h by simp
  from landing_version [OF assms(1) upgrade_after_writes [OF assms(1) this] u rv] rv u(1) assms(1) show ?thesis
    by (auto simp: coherent_def)
qed

lemma secrets_apply:
  "uw_secrets (apply_up_call c v) = uw_secrets v \<or>
   (\<exists>s. c = SecretUpdate s \<and> uw_secrets (apply_up_call c v) = map (\<lambda>t. if same_secret s t then s else t) (uw_secrets v))"
  by (cases c) (auto simp: apply_up_call_def Let_def split: fate.splits)

lemma ann_acked [simp]:
  "machine_label (acked s hook k) = machine_label s"
  "ann (acked s postDrainAnnotation k) preDrainAnnotation = ann s preDrainAnnotation"
  by (simp_all add: acked_def ann_def machine_label_def key_defs)

lemma handler_keeps_pre:
  assumes "coherent e w" and "list_all (write_ok (cached e)) h" and "trace_ok (ack_ok (up_server e w) M) [] h"
    and "\<And>n' m'. M n' m' \<Longrightarrow> K n' m'" and "\<And>n'. K n' m \<Longrightarrow> n' = n" and "node_state (uw_upgrade w) n \<noteq> nodeStatePreDraining"
  shows "\<forall>h1 h2. h = h1 @ h2 \<longrightarrow> pre_kept m w (up_world_at w h1)"
  using assms(2,3)
proof (induction h rule: rev_induct)
  case (snoc c h)
  then have prefix: "pre_kept m w (up_world_at w h1)" if "h = h1 @ h2" for h1 h2 using that by (simp add: trace_ok_append)
  let ?v = "up_world_at w h"
  have "pre_kept m w (apply_up_call c ?v)"
  proof (cases "uw_secrets (apply_up_call c ?v) = uw_secrets ?v")
    case True
    then show ?thesis using prefix [of h "[]"] by (simp add: pre_kept_def)
  next
    case False
    then obtain s' where s': "c = SecretUpdate s'" "uw_secrets (apply_up_call c ?v) = map (\<lambda>t. if same_secret s' t then s' else t) (uw_secrets ?v)"
      using secrets_apply [of c ?v] by blast
    have "ack_ok (up_server e w) M h (SecretUpdate s')" using snoc.prems(2) s'(1) by (simp add: trace_ok_append)
    then obtain s machineName n' u u' where M: "M n' machineName" and l: "listed (up_server e w) h machineName s"
      and r: "recorded (up_server e w) h u u'"
      and k: "s' = acked s preDrainAnnotation rke2PreDrainAnnotation \<and> node_state u n' = nodeStatePreDraining \<or>
        s' = acked s postDrainAnnotation rke2PostDrainAnnotation"
      unfolding ack_ok_def up_call.case by blast
    have "u = uw_upgrade w" using assms(1) _ r by (rule server_recorded) (use snoc.prems(1) in simp)
    obtain h1 h2 where h: "h = h1 @ h2" "s \<in> set (uw_secrets (up_world_at w h1))" "machine_label s = Some machineName"
      using l by (rule server_listed)
    have new: "\<exists>t \<in> set (uw_secrets w). machine_label t = Some m \<and> ann s' preDrainAnnotation = ann t preDrainAnnotation"
      if "machine_label s' = Some m"
    proof -
      have "machine_label s = Some m" using k that by auto
      then have "n' = n" using h(3) M assms(4,5) by auto
      then have "s' = acked s postDrainAnnotation rke2PostDrainAnnotation" using k \<open>u = uw_upgrade w\<close> assms(6) by auto
      then show ?thesis using prefix [OF h(1)] h(2) \<open>machine_label s = Some m\<close> by (auto simp: pre_kept_def)
    qed
    show ?thesis
      unfolding pre_kept_def s'(2)
    proof (intro ballI impI)
      fix t assume t: "t \<in> set (map (\<lambda>t. if same_secret s' t then s' else t) (uw_secrets ?v))" "machine_label t = Some m"
      show "\<exists>r \<in> set (uw_secrets w). machine_label r = Some m \<and> ann t preDrainAnnotation = ann r preDrainAnnotation"
      proof (cases "t = s'")
        case True
        then show ?thesis using new t(2) by simp
      next
        case False
        then have "t \<in> set (uw_secrets ?v)" using t(1) by auto
        then show ?thesis using prefix [of h "[]"] t(2) by (simp add: pre_kept_def)
      qed
    qed
  qed
  then show ?case using prefix by (auto simp: append_eq_append_conv2 Cons_eq_append_conv append_eq_Cons_conv)
qed simp

lemma run_keeps_pre:
  assumes "coherent e w" and "\<And>e' h. writes_ok e' (handler e') h" and "emits (ack_ok (up_server e w) M) (handler (up_server e w)) []"
    and "\<And>n' m'. M n' m' \<Longrightarrow> K n' m'" and "\<And>n'. K n' m \<Longrightarrow> n' = n" and "node_state (uw_upgrade w) n \<noteq> nodeStatePreDraining"
  shows "pre_kept m w (up_run handler e w)"
proof -
  let ?h = "issued (handler (up_server e w))"
  have "list_all (write_ok (cached e)) ?h"
    using emits_issued_all [OF assms(2) [of "up_server e w" "[]"]] by (auto simp: list_all_iff)
  moreover have "trace_ok (ack_ok (up_server e w) M) [] ?h" using assms(3) by (auto simp: emits_def issued_def)
  ultimately have "\<forall>h1 h2. ?h = h1 @ h2 \<longrightarrow> pre_kept m w (up_world_at w h1)"
    using assms(1,4,5,6) by (intro handler_keeps_pre [where M = M and K = K and n = n])
  then show ?thesis unfolding up_run_def by simp
qed

lemma cached_machine_server [simp]: "cached_machine (up_server e w) = cached_machine e"
  by (simp add: cached_machine_def up_server_def fun_eq_iff)

lemma step_keeps_pre:
  assumes "up_step K w w'" and "\<And>n'. K n' m \<Longrightarrow> n' = n" and "node_state (uw_upgrade w) n \<noteq> nodeStatePreDraining"
  shows "pre_kept m w w'"
  using assms(1)
proof cases
  case (secret e so)
  have "emits (ack_ok (up_server e w) K) (OnChanged_secret (up_server e w) so) []"
    by (rule no_secret_writes) (simp add: ack_ok_def split: up_call.split)
  from run_keeps_pre [OF secret(2) writes_secret, where K = K, OF this _ assms(2,3)] show ?thesis unfolding secret(1) by simp
next
  case (job e jo)
  have w: "writes_ok e' (OnChanged_job e' jo) h" for e' h using job(3) by (intro writes_job) (auto simp: single_node_job_def)
  have "emits (ack_ok (up_server e w) (cached_machine e)) (OnChanged_job (up_server e w) jo) []"
    using acks_job [OF job(3), where e = "up_server e w"] by simp
  from run_keeps_pre [OF job(2), where handler = "\<lambda>e. OnChanged_job e jo" and K = K, OF w this job(4) assms(2,3)]
  show ?thesis unfolding job(1) by simp
next
  case (node e no)
  from run_keeps_pre [OF node(2), where handler = "\<lambda>e. OnChanged_node e no" and K = K, OF writes_node acks_node node(3) assms(2,3)]
  show ?thesis unfolding node(1) by simp
next
  case (plan e po)
  have "emits (ack_ok (up_server e w) K) (OnChanged_plan (up_server e w) po) []"
    by (rule no_secret_writes) (simp add: ack_ok_def split: up_call.split)
  from run_keeps_pre [OF plan(2) writes_plan, where K = K, OF this _ assms(2,3)] show ?thesis unfolding plan(1) by simp
next
  case (vmimage e io)
  have "emits (ack_ok (up_server e w) K) (OnChanged_image (up_server e w) io) []"
    by (rule no_secret_writes) (simp add: ack_ok_def split: up_call.split)
  from run_keeps_pre [OF vmimage(2) writes_image, where K = K, OF this _ assms(2,3)] show ?thesis unfolding vmimage(1) by simp
next
  case (deployment e d)
  have "emits (ack_ok (up_server e w) K) (OnChanged_deployment (up_server e w) d) []"
    by (rule no_secret_writes) (simp add: ack_ok_def split: up_call.split)
  from run_keeps_pre [OF deployment(2) writes_deployment, where K = K, OF this _ assms(2,3)] show ?thesis unfolding deployment(1) by simp
next
  case (cluster ss js ns fs)
  then show ?thesis by (force simp: hooks_kept_def pre_kept_def)
next
  case (user a)
  then show ?thesis by (auto simp: pre_kept_def)
qed

lemma past_pre_draining: "rank nodeStatePreDrained \<le> rank s \<Longrightarrow> s \<noteq> nodeStatePreDraining"
  by auto

lemma steps_keep_pre:
  assumes "(up_step K)\<^sup>*\<^sup>* w w'" and "up_inv (uw_upgrade w)" and "node_phase (uw_upgrade w)"
    and "rank nodeStatePreDrained \<le> rank (node_state (uw_upgrade w) n)" and "\<And>n'. K n' m \<Longrightarrow> n' = n"
  shows "pre_kept m w w'"
  using assms(1)
proof (induction rule: rtranclp_induct)
  case (step w' w'')
  have "advances (uw_upgrade w) (uw_upgrade w')" using up_steps_inv [OF step.hyps(1) assms(2)] assms(3) by simp
  then have "rank nodeStatePreDrained \<le> rank (node_state (uw_upgrade w') n)"
    using assms(4) unfolding advances_def by (meson le_trans)
  then have "pre_kept m w' w''" using past_pre_draining by (intro step_keeps_pre [OF step.hyps(2) assms(5)]) auto
  with step.IH show ?case by (rule pre_kept_trans)
qed simp

end
