(* ===== verification/Upgrade_Progress.thy ===== *)
theory Upgrade_Progress
  imports Upgrade_Protocol
begin

text \<open>
  The upgrade of one node from its first hook to success, as a run of the handlers of \<open>Upgrade_Nodes\<close>
  against the server of \<open>Upgrade_Protocol\<close>, and the properties of the node phase with a cluster of two nodes
  as their example.
\<close>

section \<open>A node from its first hook to success\<close>

text \<open>Caches that are up to date.\<close>

definition fresh :: "up_env \<Rightarrow> up_world \<Rightarrow> up_env" where
  "fresh e w = e\<lparr>
     upgradeCache_Get := \<lambda>h ns n. let u = uw_upgrade w
       in if up_Namespace u = ns \<and> up_Name u = n then Inr u else Inl (ApiStatus NotFound ''not found''),
     upgradeCache_List := \<lambda>h ns. Inr (if up_Namespace (uw_upgrade w) = ns then [uw_upgrade w] else []),
     jobCache_List := \<lambda>h ns. Inr (filter (\<lambda>j. uj_Namespace j = ns) (uw_jobs w)),
     upNodeCache_Get := \<lambda>h n. (case find (\<lambda>nd. node_Name nd = n) (uw_nodes w) of
       None \<Rightarrow> Inl (ApiStatus NotFound ''not found'') | Some nd \<Rightarrow> Inr nd)\<rparr>"

lemma fresh_coherent: "coherent (fresh e w) w"
  by (auto simp: coherent_def cached_def fresh_def Let_def split: if_splits)

definition plan_secret_of :: "string \<Rightarrow> plan_secret \<Rightarrow> bool" where
  "plan_secret_of m s \<longleftrightarrow> sec_Namespace s = rancherPlanSecretNamespace \<and>
     sget (sec_Labels s) rancherPlanSecretMachineLabel = Some m \<and> sec_Type s = rancherPlanSecretType"

text \<open>
  A cluster in the node phase: node \<open>n\<close> on machine \<open>m\<close> is next, nothing else is going on, the release is \<open>r\<close>, \<open>nd\<close>
  is the node object and \<open>s\<close> its plan secret, and no request fails.
\<close>

definition site :: "up_env \<Rightarrow> string \<Rightarrow> string \<Rightarrow> harvester_release \<Rightarrow> upgrade_node \<Rightarrow> plan_secret \<Rightarrow> up_world \<Rightarrow> bool" where
  "site e m n r nd s w \<longleftrightarrow> uw_fates w = [] \<and>
     up_Namespace (uw_upgrade w) = up_namespace e \<and> up_namespace e = upgradeNamespace \<and>
     sget (up_Labels (uw_upgrade w)) harvesterLatestUpgradeLabel = Some ''true'' \<and>
     upgrade_state (uw_upgrade w) = StateUpgradingNodes \<and> up_SingleNode (uw_upgrade w) = [] \<and>
     repo_info_yaml e (up_RepoInfo (uw_upgrade w)) = Inr r \<and> checkEligibleToDrain (uw_upgrade w) n = Inr () \<and>
     \<not> shouldPauseNodeUpgrade (pause_map_json e) (uw_upgrade w) n \<and>
     (\<forall>h. machineCache_Get e h rancherMachineNamespace m = Inr \<lparr>mach_NodeRef = Some n\<rparr>) \<and>
     (\<forall>j \<in> set (uw_jobs w). uj_Succeeded j \<noteq> 0) \<and>
     find (\<lambda>nd. node_Name nd = n) (uw_nodes w) = Some nd \<and> sget (node_Annotations nd) MachineAnnotation = Some m \<and>
     filter (plan_secret_of m) (uw_secrets w) = [s] \<and> (\<forall>t \<in> set (uw_secrets w). same_secret s t \<longrightarrow> t = s) \<and>
     sec_DeletionTimestamp s = None \<and> sec_Annotations s \<noteq> None"

lemma setNodeUpgradeStatus_plain:
  assumes "s \<noteq> StateFailed" and "s \<noteq> StateSucceeded" and "node_state u n \<noteq> s"
  shows "setNodeUpgradeStatus now u n s r m =
    u\<lparr>up_NodeStatuses := Some (AList.update n \<lparr>ns_State = s, ns_Reason = r, ns_Message = m\<rparr> (node_statuses u))\<rparr>"
proof -
  let ?e = "\<lparr>ns_State = s, ns_Reason = r, ns_Message = m\<rparr>"
  have "map_of (node_statuses u) n \<noteq> Some ?e" using assms(3) by (auto simp: node_state_def)
  moreover have "(n, ?e) \<in> set (AList.update n ?e (node_statuses u))" by (rule map_of_SomeD) (simp add: update_conv')
  then have "\<not> list_all (\<lambda>(k, s). ns_State s = StateSucceeded) (AList.update n ?e (node_statuses u))"
    using assms(2) unfolding list_all_iff by force
  ultimately show ?thesis using assms(1) by (simp add: setNodeUpgradeStatus_def Let_def)
qed

text \<open>The upgrade after a plain state change, and what it leaves as it was.\<close>

definition moved :: "upgrade \<Rightarrow> string \<Rightarrow> string \<Rightarrow> upgrade" where
  "moved u n s = u\<lparr>up_NodeStatuses := Some (AList.update n \<lparr>ns_State = s, ns_Reason = [], ns_Message = []\<rparr> (node_statuses u)),
     up_ResourceVersion := Suc (up_ResourceVersion u)\<rparr>"

lemma node_state_moved [simp]: "node_state (moved u n s) k = (if k = n then s else node_state u k)"
  by (simp add: moved_def node_state_def node_statuses_def update_conv')

lemma eligible_moved: "checkEligibleToDrain u n = Inr () \<Longrightarrow> checkEligibleToDrain (moved u n s) n = Inr ()"
proof -
  let ?P = "\<lambda>(name, status). name \<noteq> n \<and> \<not> (ns_State status = StateSucceeded \<or> ns_State status = nodeStateImagesPreloaded)"
  assume "checkEligibleToDrain u n = Inr ()"
  then have none: "find ?P (node_statuses u) = None" by (auto simp: checkEligibleToDrain_def split: option.splits)
  have "find ?P (AList.update n v l) = None" if "find ?P l = None" for v l
    using that by (induction l) (auto split: if_splits)
  from this [OF none] show ?thesis by (simp add: checkEligibleToDrain_def moved_def node_statuses_def)
qed

lemma moved_simps [simp]:
  "up_Namespace (moved u n s) = up_Namespace u" "up_Name (moved u n s) = up_Name u" "up_Labels (moved u n s) = up_Labels u"
  "up_RepoInfo (moved u n s) = up_RepoInfo u" "up_SingleNode (moved u n s) = up_SingleNode u" "upgrade_state (moved u n s) = upgrade_state u"
  "shouldPauseNodeUpgrade json (moved u n s) k = shouldPauseNodeUpgrade json u k" "up_Conditions (moved u n s) = up_Conditions u"
  by (simp_all add: moved_def upgrade_state_def shouldPauseNodeUpgrade_def getNodeUpgradePauseMap_def)

lemma bump_plain:
  assumes "s \<noteq> StateFailed" and "s \<noteq> StateSucceeded" and "node_state u n \<noteq> s"
  shows "bump (setNodeUpgradeStatus now u n s [] []) = moved u n s"
  using setNodeUpgradeStatus_plain [OF assms, of now "[]" "[]"] by (simp add: bump_def moved_def)

lemma apply_answered: "uw_fates w = [] \<Longrightarrow> apply_up_call c w = up_effect c w"
  by (cases w) (simp add: apply_up_call_def next_fate_def)

lemma reply_answered: "uw_fates w = [] \<Longrightarrow> reply w r = r"
  by (simp add: reply_def next_fate_def)

lemma effect_fates [simp]: "uw_fates (up_effect c w) = uw_fates w"
  by (cases c) simp_all

lemma current_set [simp]: "current (setNodeUpgradeStatus now u n s r m) w \<longleftrightarrow> current u w"
  using same_setNodeUpgradeStatus [of u now n s r m] by (simp add: current_def same_name_def same_upgrade_def)

lemma current_upgrade [simp]: "current (uw_upgrade w) w" "current (uw_upgrade w) (w\<lparr>uw_jobs := js\<rparr>)" "current (uw_upgrade w) (w\<lparr>uw_nodes := ns\<rparr>)"
  by (simp_all add: current_def same_name_def)

text \<open>The secret handler starts a hook.\<close>

lemma run_hook:
  assumes "site e m n r nd s w" and "\<not> list_ex (same_job (applyNodeJob (uw_upgrade w) r n jt)) (uw_jobs w)"
    and "st \<noteq> StateFailed" and "st \<noteq> StateSucceeded" and "node_state (uw_upgrade w) n \<noteq> st"
  shows "run_state (createHookJob (up_server (fresh e w) w) (uw_upgrade w) n jt st) [] =
    (Inr (), [JobCreate (applyNodeJob (uw_upgrade w) r n jt),
      UpgradeUpdate (setNodeUpgradeStatus (up_now e [JobCreate (applyNodeJob (uw_upgrade w) r n jt)]) (uw_upgrade w) n st [] [])])"
proof -
  let ?u = "uw_upgrade w" and ?E = "up_server (fresh e w) w"
  let ?j = "applyNodeJob ?u r n jt"
  have f: "uw_fates w = []" and repo: "getCachedRepoInfo ?E ?u = Inr r" and done_: "\<forall>j \<in> set (uw_jobs w). uj_Succeeded j \<noteq> 0"
    using assms(1) by (simp_all add: site_def getCachedRepoInfo_def up_server_def fresh_def)
  have pending: "run_state (checkPendingHookJobs ?E (up_Name ?u)) [] = (Inr (), [])"
  proof -
    have "find (\<lambda>j. uj_Succeeded j = 0) (labelled uj_Labels harvesterUpgradeLabel (up_Name ?u)
        (filter (\<lambda>j. uj_Namespace j = ns) (uw_jobs w))) = None" for ns
      unfolding find_None_iff labelled_def using done_ by auto
    then show ?thesis by (simp add: checkPendingHookJobs_def up_server_def fresh_def)
  qed
  have create: "run_state (create_job ?E ?j) [] = (Inr (), [JobCreate ?j])"
    using assms(2) f by (simp add: create_job_def up_server_def reply_answered)
  have "run_state (record_node_state ?E ?u n st [] []) [JobCreate ?j] =
      (Inr (), [JobCreate ?j, UpgradeUpdate (setNodeUpgradeStatus (up_now e [JobCreate ?j]) ?u n st [] [])])"
    using f assms(2) by (simp add: record_node_state_def upgrade_update_def up_server_def fresh_def reply_answered apply_answered up_now_def Let_def)
  with pending create repo show ?thesis by (simp add: createHookJob_def)
qed

lemma site_simps:
  assumes "site e m n r nd s w"
  shows "uw_fates w = []" "up_Namespace (uw_upgrade w) = up_namespace e" "up_namespace e = upgradeNamespace"
    "sget (up_Labels (uw_upgrade w)) harvesterLatestUpgradeLabel = Some ''true''" "upgrade_state (uw_upgrade w) = StateUpgradingNodes"
    "up_SingleNode (uw_upgrade w) = []" "repo_info_yaml e (up_RepoInfo (uw_upgrade w)) = Inr r"
    "checkEligibleToDrain (uw_upgrade w) n = Inr ()" "\<not> shouldPauseNodeUpgrade (pause_map_json e) (uw_upgrade w) n"
    "machineCache_Get e h rancherMachineNamespace m = Inr \<lparr>mach_NodeRef = Some n\<rparr>"
    "find (\<lambda>nd. node_Name nd = n) (uw_nodes w) = Some nd" "sget (node_Annotations nd) MachineAnnotation = Some m"
    "filter (plan_secret_of m) (uw_secrets w) = [s]" "\<And>t. t \<in> set (uw_secrets w) \<Longrightarrow> same_secret s t \<Longrightarrow> t = s"
    "sec_DeletionTimestamp s = None" "sec_Annotations s \<noteq> None" "node_Name nd = n"
proof -
  have "node_Name nd = n" if "find (\<lambda>nd. node_Name nd = n) (uw_nodes w) = Some nd"
    using that by (auto simp: find_Some_iff)
  then show "node_Name nd = n" using assms by (simp add: site_def)
qed (use assms in \<open>simp_all add: site_def\<close>)

lemma site_secret:
  assumes "site e m n r nd s w"
  shows "plan_secret_of m s" "s \<in> set (uw_secrets w)"
  using site_simps(13) [OF assms] by (auto simp: filter_eq_Cons_iff)

lemma run_ensure:
  assumes "site e m n r nd s w"
  shows "run_state (ensureSingleUpgrade (up_server (fresh e w) w)) h = (Inr (uw_upgrade w), h)"
  using site_simps(2,4) [OF assms]
  by (simp add: ensureSingleUpgrade_def up_server_def fresh_def labelled_def Let_def)

lemma run_secret:
  assumes "site e m n r nd s w" and "node_state (uw_upgrade w) n \<noteq> []"
    and "ann s rke2PreDrainAnnotation \<noteq> [] \<or> ann s rke2PostDrainAnnotation \<noteq> []"
    and "ann s rke2PreDrainAnnotation \<noteq> ann s preDrainAnnotation \<or> ann s rke2PostDrainAnnotation \<noteq> ann s postDrainAnnotation"
    and "run_state (secret_switch (up_server (fresh e w) w) s (uw_upgrade w) n) [] = (Inr (), h)"
  shows "run_state (OnChanged_secret (up_server (fresh e w) w) (Some s)) [] = (Inr (Some s), h)"
proof -
  have c: "\<not> (ann s rke2PreDrainAnnotation = [] \<and> ann s rke2PostDrainAnnotation = [])"
    "\<not> (ann s rke2PreDrainAnnotation = ann s preDrainAnnotation \<and> ann s rke2PostDrainAnnotation = ann s postDrainAnnotation)"
    using assms(3,4) by auto
  have d: "\<not> (sec_DeletionTimestamp s \<noteq> None \<or> sec_Namespace s \<noteq> rancherPlanSecretNamespace \<or>
      sec_Annotations s = None \<or> sec_Type s \<noteq> rancherPlanSecretType)"
    "sget (sec_Labels s) rancherPlanSecretMachineLabel = Some m"
    using site_simps(15,16) [OF assms(1)] site_secret(1) [OF assms(1)] by (auto simp: plan_secret_of_def)
  have "machineCache_Get (up_server (fresh e w) w) h rancherMachineNamespace m = Inr \<lparr>mach_NodeRef = Some n\<rparr>" for h
    using site_simps(10) [OF assms(1)] by (simp add: up_server_def fresh_def)
  then show ?thesis
    using assms(2,5) d(2) site_simps(5) [OF assms(1)]
    unfolding OnChanged_secret_def option.case if_not_P [OF d(1)] if_not_P [OF c(1)] if_not_P [OF c(2)]
    by (simp add: run_ensure [OF assms(1)])
qed

lemma up_run_history:
  assumes "run_state (handler (up_server e w)) [] = (r, h)"
  shows "up_run handler e w = up_world_at w h"
  using assms by (simp add: up_run_def issued_def)

lemma starts_hook:
  assumes "site e m n r nd s w" and "\<not> list_ex (same_job (applyNodeJob (uw_upgrade w) r n jt)) (uw_jobs w)"
    and "jt = upgradeJobTypePreDrain \<and> st = nodeStatePreDraining \<and> node_state (uw_upgrade w) n = nodeStateImagesPreloaded \<and>
           ann s rke2PreDrainAnnotation \<noteq> [] \<and> isUnderPreDrain s \<or>
         jt = upgradeJobTypePostDrain \<and> st = nodeStatePostDraining \<and> node_state (uw_upgrade w) n = nodeStatePreDrained \<and>
           ann s rke2PostDrainAnnotation \<noteq> [] \<and> ann s rke2PostDrainAnnotation \<noteq> ann s postDrainAnnotation"
  shows "up_run (\<lambda>e. OnChanged_secret e (Some s)) (fresh e w) w =
    w\<lparr>uw_upgrade := moved (uw_upgrade w) n st, uw_jobs := uw_jobs w @ [applyNodeJob (uw_upgrade w) r n jt]\<rparr>"
proof -
  let ?u = "uw_upgrade w" and ?E = "up_server (fresh e w) w"
  have st: "st \<noteq> StateFailed" "st \<noteq> StateSucceeded" "node_state ?u n \<noteq> st" "node_state ?u n \<noteq> []" using assms(3) by auto
  have hook: "run_state (createHookJob ?E ?u n jt st) [] = (Inr (), [JobCreate (applyNodeJob ?u r n jt),
      UpgradeUpdate (setNodeUpgradeStatus (up_now e [JobCreate (applyNodeJob ?u r n jt)]) ?u n st [] [])])"
    by (rule run_hook [OF assms(1,2) st(1,2,3)])
  have env: "pause_map_json ?E = pause_map_json e" by (simp add: up_server_def fresh_def)
  have sw: "secret_switch ?E s ?u n = createHookJob ?E ?u n jt st"
    using assms(3)
  proof
    assume "jt = upgradeJobTypePreDrain \<and> st = nodeStatePreDraining \<and> node_state ?u n = nodeStateImagesPreloaded \<and>
      ann s rke2PreDrainAnnotation \<noteq> [] \<and> isUnderPreDrain s"
    then show ?thesis using site_simps(8,9) [OF assms(1)] by (simp add: secret_switch_def env)
  next
    assume "jt = upgradeJobTypePostDrain \<and> st = nodeStatePostDraining \<and> node_state ?u n = nodeStatePreDrained \<and>
      ann s rke2PostDrainAnnotation \<noteq> [] \<and> ann s rke2PostDrainAnnotation \<noteq> ann s postDrainAnnotation"
    then show ?thesis using site_simps(8) [OF assms(1)] by (simp add: secret_switch_def)
  qed
  have "run_state (OnChanged_secret ?E (Some s)) [] = (Inr (Some s), [JobCreate (applyNodeJob ?u r n jt),
      UpgradeUpdate (setNodeUpgradeStatus (up_now e [JobCreate (applyNodeJob ?u r n jt)]) ?u n st [] [])])"
    using assms(3) hook unfolding sw [symmetric] by (intro run_secret [OF assms(1) st(4)]) (auto simp: isUnderPreDrain_def)
  from up_run_history [where handler = "\<lambda>e. OnChanged_secret e (Some s)", OF this]
  show ?thesis using site_simps(1) [OF assms(1)] assms(2) by (simp add: apply_answered bump_plain [OF st(1,2,3)])
qed

definition completed :: "upgrade_job \<Rightarrow> upgrade_job" where
  "completed j = j\<lparr>uj_Succeeded := 1, uj_Conditions := [\<lparr>jc_Type = ''Complete'', jc_Status = ''True'', jc_Reason = [], jc_Message = []\<rparr>]\<rparr>"

lemma job_labels:
  "sval (uj_Labels (applyNodeJob u r n jt)) upgradePlanLabel = []"
  "sval (uj_Labels (applyNodeJob u r n jt)) harvesterUpgradeComponentLabel = nodeComponent"
  "sget (uj_Labels (applyNodeJob u r n jt)) upgradeJobTypeLabel = Some jt"
  "sget (uj_Labels (applyNodeJob u r n jt)) harvesterNodeLabel = Some n"
  "sget (uj_Labels (applyNodeJob u r n jt)) harvesterUpgradeLabel = Some (up_Name u)"
  by (simp_all add: applyNodeJob_def sval_def sget_def key_defs)

lemma run_job:
  assumes "site e m n r nd s w" and "up_Namespace v = upgradeNamespace" and "up_Name v = up_Name (uw_upgrade w)"
    and "run_state (sync_node_job (up_server (fresh e w) w) (completed (applyNodeJob v r n jt)) jt n nd m (uw_upgrade w) r) [] = (Inr (), h)"
  shows "run_state (OnChanged_job (up_server (fresh e w) w) (Some (completed (applyNodeJob v r n jt)))) [] =
    (Inr (Some (completed (applyNodeJob v r n jt))), h)"
proof -
  let ?E = "up_server (fresh e w) w" and ?j = "completed (applyNodeJob v r n jt)"
  have lab: "uj_Labels ?j = uj_Labels (applyNodeJob v r n jt)" "uj_Namespace ?j = upgradeNamespace" "uj_DeletionTimestamp ?j = None"
    using assms(2) by (simp_all add: completed_def applyNodeJob_def)
  have ne: "uj_Labels ?j \<noteq> None" by (simp add: completed_def applyNodeJob_def)
  have "OnChanged_job ?E (Some ?j) = syncNodeJob ?E ?j"
    using ne unfolding OnChanged_job_def option.case lab Let_def job_labels by auto
  moreover have "upNodeCache_Get ?E h n = Inr nd" "upgradeCache_Get ?E h (up_namespace ?E) (up_Name v) = Inr (uw_upgrade w)"
    "getCachedRepoInfo ?E (uw_upgrade w) = Inr r" for h
    using site_simps(2,7,11) [OF assms(1)] assms(3) by (simp_all add: up_server_def fresh_def getCachedRepoInfo_def Let_def)
  moreover have "sget (node_Annotations nd) MachineAnnotation = Some m" by (rule site_simps(12) [OF assms(1)])
  ultimately show ?thesis
    using assms(4) unfolding syncNodeJob_def lab job_labels by simp
qed

lemma run_find:
  assumes "site e m n r nd s w" and "uw_fates (up_world_at w h) = []" and "uw_secrets (up_world_at w h) = uw_secrets w"
  shows "run_state (find_plan_secret (up_server (fresh e w) w) m) h =
    (Inr s, h @ [SecretList rancherPlanSecretNamespace rancherPlanSecretMachineLabel m rancherPlanSecretType])"
proof -
  have "filter (\<lambda>s. sec_Namespace s = rancherPlanSecretNamespace \<and> sget (sec_Labels s) rancherPlanSecretMachineLabel = Some m \<and>
      sec_Type s = rancherPlanSecretType) (uw_secrets w) = [s]"
    using site_simps(13) [OF assms(1)] by (simp add: plan_secret_of_def [abs_def])
  then show ?thesis
    using assms(2,3) by (simp add: find_plan_secret_def up_server_def Let_def reply_answered)
qed

lemma run_acknowledge:
  assumes "uw_fates (up_world_at w h) = []" and "s \<in> set (uw_secrets (up_world_at w h))"
  shows "run_state (acknowledge (up_server e w) s hook k) h = (Inr (), h @ [SecretUpdate (acked s hook k)])"
proof -
  have "list_ex (same_secret (acked s hook k)) (uw_secrets (up_world_at w h))"
    using assms(2) by (auto simp: list_ex_iff same_secret_def acked_def)
  then show ?thesis
    using assms(1) by (simp add: acknowledge_def up_server_def Let_def reply_answered acked_def)
qed

definition with_secret :: "plan_secret \<Rightarrow> up_world \<Rightarrow> up_world" where
  "with_secret s w = w\<lparr>uw_secrets := map (\<lambda>t. if same_secret s t then s else t) (uw_secrets w)\<rparr>"

text \<open>The job handler takes the result of the pre-drain job and acknowledges the hook.\<close>

lemma pre_drain_requests:
  assumes "site e m n r nd s w" and "up_Namespace v = upgradeNamespace" and "up_Name v = up_Name (uw_upgrade w)"
    and "node_state (uw_upgrade w) n = nodeStatePreDraining"
  shows "run_state (OnChanged_job (up_server (fresh e w) w) (Some (completed (applyNodeJob v r n upgradeJobTypePreDrain)))) [] =
    (Inr (Some (completed (applyNodeJob v r n upgradeJobTypePreDrain))),
     [UpgradeUpdate (setNodeUpgradeStatus (up_now e []) (uw_upgrade w) n nodeStatePreDrained [] []),
      SecretList rancherPlanSecretNamespace rancherPlanSecretMachineLabel m rancherPlanSecretType,
      SecretUpdate (acked s preDrainAnnotation rke2PreDrainAnnotation)])"
proof -
  let ?u = "uw_upgrade w" and ?E = "up_server (fresh e w) w" and ?j = "completed (applyNodeJob v r n upgradeJobTypePreDrain)"
  let ?t = "setNodeUpgradeStatus (up_now e []) ?u n nodeStatePreDrained [] []"
  let ?w1 = "w\<lparr>uw_upgrade := bump ?t\<rparr>"
  have f: "uw_fates w = []" by (rule site_simps(1) [OF assms(1)])
  have now: "up_now ?E = up_now e" by (simp add: up_now_def fun_eq_iff up_server_def fresh_def)
  have ne: "?u \<noteq> ?t"
  proof
    assume "?u = ?t"
    then have "node_state ?u n = nodeStatePreDrained" by (metis node_state_setNodeUpgradeStatus)
    with assms(4) show False by simp
  qed
  have cs: "run_state (node_job_conditions ?E ?u n nd r upgradeJobTypePreDrain (uj_Conditions ?j) (?u, False, False)) [] = (Inr (?t, True, False), [])"
    by (simp add: completed_def node_job_condition_def assms(4) now)
  have w1: "up_world_at w [UpgradeUpdate ?t] = ?w1" using f by (simp add: apply_answered)
  have upd: "run_state (update_if_changed ?E ?u ?t) [] = (Inr (), [UpgradeUpdate ?t])"
    using ne f by (simp add: update_if_changed_def upgrade_update_def up_server_def reply_answered)
  let ?l = "SecretList rancherPlanSecretNamespace rancherPlanSecretMachineLabel m rancherPlanSecretType"
  have fnd: "run_state (find_plan_secret ?E m) [UpgradeUpdate ?t] = (Inr s, [UpgradeUpdate ?t, ?l])"
    using run_find [OF assms(1), of "[UpgradeUpdate ?t]"] w1 f by simp
  have w2: "up_world_at w [UpgradeUpdate ?t, ?l] = ?w1" using f by (simp add: apply_answered)
  have ack: "run_state (acknowledge ?E s preDrainAnnotation rke2PreDrainAnnotation) [UpgradeUpdate ?t, ?l] =
      (Inr (), [UpgradeUpdate ?t, ?l, SecretUpdate (acked s preDrainAnnotation rke2PreDrainAnnotation)])"
    using run_acknowledge [where w = w and h = "[UpgradeUpdate ?t, ?l]" and s = s] w2 f site_secret(2) [OF assms(1)] by simp
  have "run_state (sync_node_job ?E ?j upgradeJobTypePreDrain n nd m ?u r) [] =
      (Inr (), [UpgradeUpdate ?t, ?l, SecretUpdate (acked s preDrainAnnotation rke2PreDrainAnnotation)])"
    unfolding sync_node_job_def by (simp add: cs upd fnd ack when_do_def)
  then show ?thesis by (rule run_job [OF assms(1,2,3)])
qed

lemma finishes_pre_drain:
  assumes "site e m n r nd s w" and "up_Namespace v = upgradeNamespace" and "up_Name v = up_Name (uw_upgrade w)"
    and "node_state (uw_upgrade w) n = nodeStatePreDraining"
  shows "up_run (\<lambda>e. OnChanged_job e (Some (completed (applyNodeJob v r n upgradeJobTypePreDrain)))) (fresh e w) w =
    with_secret (acked s preDrainAnnotation rke2PreDrainAnnotation) (w\<lparr>uw_upgrade := moved (uw_upgrade w) n nodeStatePreDrained\<rparr>)"
proof -
  let ?j = "completed (applyNodeJob v r n upgradeJobTypePreDrain)"
  have "bump (setNodeUpgradeStatus now (uw_upgrade w) n nodeStatePreDrained [] []) = moved (uw_upgrade w) n nodeStatePreDrained" for now
    by (rule bump_plain) (simp_all add: assms(4))
  with up_run_history [where handler = "\<lambda>e. OnChanged_job e (Some ?j)", OF pre_drain_requests [OF assms]]
  show ?thesis using site_simps(1) [OF assms(1)] by (simp add: apply_answered with_secret_def)
qed

definition with_node :: "upgrade_node \<Rightarrow> up_world \<Rightarrow> up_world" where
  "with_node n w = w\<lparr>uw_nodes := map (\<lambda>m. if node_current n m then n\<lparr>node_ResourceVersion := Suc (node_ResourceVersion n)\<rparr> else m) (uw_nodes w)\<rparr>"

definition awaiting_reboot :: "harvester_release \<Rightarrow> upgrade_node \<Rightarrow> upgrade_node" where
  "awaiting_reboot r nd = nd\<lparr>node_Annotations := sset (node_Annotations nd) harvesterNodePendingOSImage (rel_OS r)\<rparr>"

lemma site_node:
  assumes "site e m n r nd s w" and "node_Name nd' = n" and "node_ResourceVersion nd' = node_ResourceVersion nd"
  shows "list_ex (node_current nd') (uw_nodes w)"
proof -
  have "nd \<in> set (uw_nodes w)" "node_Name nd = n" using site_simps(11) [OF assms(1)] by (auto simp: find_Some_iff)
  with assms(2,3) show ?thesis unfolding list_ex_iff node_current_def by (intro bexI [of _ nd]) simp_all
qed

text \<open>The post-drain job of a node that still runs the old operating system: the node has to reboot.\<close>

lemma finishes_post_drain:
  assumes "site e m n r nd s w" and "up_Namespace v = upgradeNamespace" and "up_Name v = up_Name (uw_upgrade w)"
    and "node_state (uw_upgrade w) n = nodeStatePostDraining" and "un_OSImage nd \<noteq> rel_OS r"
  shows "up_run (\<lambda>e. OnChanged_job e (Some (completed (applyNodeJob v r n upgradeJobTypePostDrain)))) (fresh e w) w =
    with_node (awaiting_reboot r nd) (w\<lparr>uw_upgrade := moved (uw_upgrade w) n nodeStateWaitingReboot\<rparr>)"
proof -
  let ?u = "uw_upgrade w" and ?E = "up_server (fresh e w) w" and ?j = "completed (applyNodeJob v r n upgradeJobTypePostDrain)"
  let ?t = "setNodeUpgradeStatus (up_now e []) ?u n nodeStateWaitingReboot [] []" and ?nd = "awaiting_reboot r nd"
  have f: "uw_fates w = []" by (rule site_simps(1) [OF assms(1)])
  have now: "up_now ?E = up_now e" by (simp add: up_now_def fun_eq_iff up_server_def fresh_def)
  have t: "bump ?t = moved ?u n nodeStateWaitingReboot" by (rule bump_plain) (simp_all add: assms(4))
  have ne: "?u \<noteq> ?t"
  proof
    assume "?u = ?t"
    then have "node_state ?u n = nodeStateWaitingReboot" by (metis node_state_setNodeUpgradeStatus)
    with assms(4) show False by simp
  qed
  have "list_ex (node_current ?nd) (uw_nodes w)"
    by (rule site_node [OF assms(1)]) (simp_all add: awaiting_reboot_def site_simps(17) [OF assms(1)])
  then have lab: "run_state (setNodeWaitRebootLabel ?E nd r) [] = (Inr (), [NodeUpdate ?nd])"
    using f by (simp add: setNodeWaitRebootLabel_def up_server_def Let_def reply_answered awaiting_reboot_def)
  have cs: "run_state (node_job_conditions ?E ?u n nd r upgradeJobTypePostDrain (uj_Conditions ?j) (?u, False, False)) [] =
      (Inr (?t, False, False), [NodeUpdate ?nd])"
    using assms(5) by (simp add: completed_def node_job_condition_def assms(4) finish_node_def now lab)
  have w1: "up_world_at w [NodeUpdate ?nd] = with_node ?nd w" using f by (simp add: apply_answered with_node_def)
  have upd: "run_state (update_if_changed ?E ?u ?t) [NodeUpdate ?nd] = (Inr (), [NodeUpdate ?nd, UpgradeUpdate ?t])"
    using ne f by (simp add: update_if_changed_def upgrade_update_def up_server_def apply_answered reply_answered Let_def)
  have w2: "up_world_at w [NodeUpdate ?nd, UpgradeUpdate ?t] = with_node ?nd (w\<lparr>uw_upgrade := bump ?t\<rparr>)"
    using f by (simp add: apply_answered with_node_def)
  let ?l = "SecretList rancherPlanSecretNamespace rancherPlanSecretMachineLabel m rancherPlanSecretType"
  have fnd: "run_state (find_plan_secret ?E m) [NodeUpdate ?nd, UpgradeUpdate ?t] = (Inr s, [NodeUpdate ?nd, UpgradeUpdate ?t, ?l])"
    using run_find [OF assms(1), of "[NodeUpdate ?nd, UpgradeUpdate ?t]"] w2 f by (simp add: with_node_def)
  have "run_state (sync_node_job ?E ?j upgradeJobTypePostDrain n nd m ?u r) [] = (Inr (), [NodeUpdate ?nd, UpgradeUpdate ?t, ?l])"
    unfolding sync_node_job_def by (simp add: cs upd fnd when_do_def)
  from up_run_history [where handler = "\<lambda>e. OnChanged_job e (Some ?j)", OF run_job [OF assms(1,2,3) this]]
  show ?thesis using f by (simp add: apply_answered t with_node_def)
qed

definition restore_disabled :: "up_env \<Rightarrow> bool" where
  "restore_disabled e \<longleftrightarrow> (\<forall>h. case settingCache_Get e h ''upgrade-config'' of
     Inl err \<Rightarrow> True | Inr st \<Rightarrow> DecodeConfig_RestoreVM e (if set_Value st = [] then set_Default st else set_Value st) \<noteq> Inr True)"

lemma run_restore_disabled:
  assumes "restore_disabled e"
  shows "run_state (sendRestoreVMJob (up_server (fresh e w) w) u nd r) h = (Inr (), h)"
proof -
  let ?E = "up_server (fresh e w) w"
  have "settingCache_Get ?E = settingCache_Get e" "DecodeConfig_RestoreVM ?E = DecodeConfig_RestoreVM e"
    by (simp_all add: up_server_def fresh_def DecodeConfig_RestoreVM_def fun_eq_iff)
  then have "\<exists>b. run_state (IsRestoreVM ?E) h = (b, h) \<and> b \<noteq> Inr True"
    using spec [OF assms [unfolded restore_disabled_def], of h] by (auto simp: IsRestoreVM_def split: sum.splits)
  then show ?thesis by (auto simp: sendRestoreVMJob_def)
qed

text \<open>The node handler finds the node running the new operating system.\<close>

lemma finishes_reboot:
  assumes "site e m n r nd s w" and "node_state (uw_upgrade w) n = nodeStateWaitingReboot" and "restore_disabled e"
    and "sget (node_Annotations nd) harvesterNodePendingOSImage = Some (un_OSImage nd)" and "node_DeletionTimestamp nd = None"
  shows "\<exists>now. up_run (\<lambda>e. OnChanged_node e (Some nd)) (fresh e w) w =
    with_node (clear_pending_os nd) (with_secret (acked s postDrainAnnotation rke2PostDrainAnnotation)
      (w\<lparr>uw_upgrade := bump (setNodeUpgradeStatus now (uw_upgrade w) n StateSucceeded [] [])\<rparr>))"
proof -
  let ?u = "uw_upgrade w" and ?E = "up_server (fresh e w) w"
  let ?l = "SecretList rancherPlanSecretNamespace rancherPlanSecretMachineLabel m rancherPlanSecretType"
  let ?t = "setNodeUpgradeStatus (up_now e [?l]) ?u n StateSucceeded [] []"
  let ?s = "acked s postDrainAnnotation rke2PostDrainAnnotation" and ?nd = "clear_pending_os nd"
  have f: "uw_fates w = []" and nm: "node_Name nd = n" using site_simps(1,17) [OF assms(1)] by simp_all
  have now: "up_now ?E = up_now e" by (simp add: up_now_def fun_eq_iff up_server_def fresh_def)
  have repo: "getCachedRepoInfo ?E ?u = Inr r" using site_simps(7) [OF assms(1)] by (simp add: getCachedRepoInfo_def up_server_def fresh_def)
  have fnd: "run_state (find_plan_secret ?E m) [] = (Inr s, [?l])" using run_find [OF assms(1), of "[]"] f by simp
  have upd: "run_state (record_node_state ?E ?u n StateSucceeded [] []) [?l] = (Inr (), [?l, UpgradeUpdate ?t])"
    using f by (simp add: record_node_state_def upgrade_update_def now) (simp add: up_server_def apply_answered reply_answered Let_def)
  have w2: "up_world_at w [?l, UpgradeUpdate ?t] = w\<lparr>uw_upgrade := bump ?t\<rparr>" using f by (simp add: apply_answered)
  have ack: "run_state (acknowledge ?E s postDrainAnnotation rke2PostDrainAnnotation) [?l, UpgradeUpdate ?t] = (Inr (), [?l, UpgradeUpdate ?t, SecretUpdate ?s])"
    using run_acknowledge [where w = w and h = "[?l, UpgradeUpdate ?t]" and s = s] w2 f site_secret(2) [OF assms(1)] by simp
  have ne: "?nd \<noteq> nd"
  proof
    assume "?nd = nd"
    then have "sget (node_Annotations nd) harvesterNodePendingOSImage = None" by (metis clear_pending_os_def node.select_convs(7) sget_sdel node.surjective node.update_convs(7))
    with assms(4) show False by simp
  qed
  have get: "upNodeCache_Get ?E h n = Inr nd" for h using site_simps(11) [OF assms(1)] by (simp add: up_server_def fresh_def)
  have "list_ex (node_current ?nd) (uw_nodes w)"
    by (rule site_node [OF assms(1)]) (simp_all add: clear_pending_os_def nm)
  then have clr: "run_state (retryUpdateNodeOnConflict 2 ?E n clear_pending_os) [?l, UpgradeUpdate ?t, SecretUpdate ?s] =
      (Inr (), [?l, UpgradeUpdate ?t, SecretUpdate ?s, NodeUpdate ?nd])"
    using ne f assms(5) by (simp add: numeral_2_eq_2 get) (simp add: up_server_def apply_answered reply_answered Let_def)
  have "run_state (node_rebooted ?E ?u nd s) [?l] = (Inr (), [?l, UpgradeUpdate ?t, SecretUpdate ?s, NodeUpdate ?nd])"
    using site_simps(6) [OF assms(1)] by (simp add: node_rebooted_def repo run_restore_disabled [OF assms(3)] nm upd ack clr when_do_def)
  then have "run_state (OnChanged_node ?E (Some nd)) [] = (Inr (Some nd), [?l, UpgradeUpdate ?t, SecretUpdate ?s, NodeUpdate ?nd])"
    using assms(2,4,5) site_simps(5,12) [OF assms(1)] by (simp add: OnChanged_node_def run_ensure [OF assms(1)] nm fnd)
  from up_run_history [where handler = "\<lambda>e. OnChanged_node e (Some nd)", OF this]
  have "up_run (\<lambda>e. OnChanged_node e (Some nd)) (fresh e w) w = with_node ?nd (with_secret ?s (w\<lparr>uw_upgrade := bump ?t\<rparr>))"
    using f by (simp add: apply_answered with_node_def with_secret_def)
  then show ?thesis by blast
qed

text \<open>The cluster stays such a site while its node is upgraded.\<close>

lemma site_moved: "site e m n r nd s w \<Longrightarrow> site e m n r nd s (w\<lparr>uw_upgrade := moved (uw_upgrade w) n st\<rparr>)"
  by (simp add: site_def eligible_moved)

lemma site_job: "site e m n r nd s w \<Longrightarrow> uj_Succeeded j \<noteq> 0 \<Longrightarrow> site e m n r nd s (w\<lparr>uw_jobs := uw_jobs w @ [j]\<rparr>)"
  by (simp add: site_def)

lemma find_map_same:
  assumes "find P xs = Some x" and "\<And>y. y \<in> set xs \<Longrightarrow> P (f y) = P y"
  shows "find P (map f xs) = Some (f x)"
  using assms by (induction xs) (auto split: if_splits)

lemma site_nodes:
  assumes "site e m n r nd s w" and "\<And>x. node_Name (f x) = node_Name x" and "sget (node_Annotations (f nd)) MachineAnnotation = Some m"
  shows "site e m n r (f nd) s (w\<lparr>uw_nodes := map f (uw_nodes w)\<rparr>)"
proof -
  have "find (\<lambda>nd. node_Name nd = n) (map f (uw_nodes w)) = Some (f nd)"
    by (rule find_map_same [OF site_simps(11) [OF assms(1)]]) (simp add: assms(2))
  with assms(1,3) show ?thesis by (simp add: site_def)
qed

lemma site_with_node:
  assumes "site e m n r nd s w" and "node_Name nd' = n" and "node_ResourceVersion nd' = node_ResourceVersion nd"
    and "sget (node_Annotations nd') MachineAnnotation = Some m"
  shows "site e m n r (nd'\<lparr>node_ResourceVersion := Suc (node_ResourceVersion nd')\<rparr>) s (with_node nd' w)"
proof -
  let ?f = "\<lambda>m. if node_current nd' m then nd'\<lparr>node_ResourceVersion := Suc (node_ResourceVersion nd')\<rparr> else m"
  have "node_current nd' nd" using assms(2,3) site_simps(17) [OF assms(1)] by (simp add: node_current_def)
  then show ?thesis
    using site_nodes [where f = ?f, OF assms(1)] assms(4) by (simp add: with_node_def node_current_def)
qed

definition secret_kept :: "plan_secret \<Rightarrow> plan_secret \<Rightarrow> bool" where
  "secret_kept s s' \<longleftrightarrow> same_secret s' s \<and> sec_Labels s' = sec_Labels s \<and> sec_Type s' = sec_Type s \<and>
     sec_DeletionTimestamp s' = sec_DeletionTimestamp s \<and> sec_Annotations s' \<noteq> None"

lemma secret_kept_acked [simp]: "secret_kept s (acked s hook k)"
  by (simp add: secret_kept_def acked_def same_secret_def)

lemma site_with_secret:
  assumes "site e m n r nd s w" and "secret_kept s s'"
  shows "site e m n r nd s' (with_secret s' w)"
proof -
  let ?f = "\<lambda>t. if same_secret s' t then s' else t"
  have same: "same_secret s' t = same_secret s t" for t using assms(2) by (simp add: secret_kept_def same_secret_def)
  have one: "same_secret s t \<longleftrightarrow> t = s" if "t \<in> set (uw_secrets w)" for t
    using that site_simps(14) [OF assms(1)] by (auto simp: same_secret_def)
  have "plan_secret_of m s'" using site_secret(1) [OF assms(1)] assms(2) by (simp add: plan_secret_of_def secret_kept_def same_secret_def)
  then have "plan_secret_of m (?f t) = plan_secret_of m t" if "t \<in> set (uw_secrets w)" for t
    using one [OF that] site_secret(1) [OF assms(1)] by (simp add: same)
  then have "filter (plan_secret_of m \<circ> ?f) (uw_secrets w) = [s]"
    using site_simps(13) [OF assms(1)] by (simp cong: filter_cong)
  then have "filter (plan_secret_of m) (map ?f (uw_secrets w)) = [s']"
    using assms(2) by (simp add: filter_map secret_kept_def)
  moreover have "\<forall>t \<in> set (map ?f (uw_secrets w)). same_secret s' t \<longrightarrow> t = s'" by auto
  ultimately show ?thesis
    using assms unfolding site_def with_secret_def secret_kept_def by (simp del: set_map)
qed

section \<open>One event at a time\<close>

definition secret_event :: "string \<Rightarrow> up_env \<Rightarrow> up_world \<Rightarrow> up_world" where
  "secret_event m e w = up_run (\<lambda>e. OnChanged_secret e (find (plan_secret_of m) (uw_secrets w))) (fresh e w) w"

definition job_event :: "harvester_release \<Rightarrow> string \<Rightarrow> string \<Rightarrow> up_env \<Rightarrow> up_world \<Rightarrow> up_world" where
  "job_event r n jt e w =
     up_run (\<lambda>e. OnChanged_job e (find (same_job (applyNodeJob (uw_upgrade w) r n jt)) (uw_jobs w))) (fresh e w) w"

definition node_event :: "string \<Rightarrow> up_env \<Rightarrow> up_world \<Rightarrow> up_world" where
  "node_event n e w = up_run (\<lambda>e. OnChanged_node e (find (\<lambda>nd. node_Name nd = n) (uw_nodes w))) (fresh e w) w"

text \<open>What the others do: the jobs complete, Rancher has drained the node and asks for the post-drain hook, the node reboots.\<close>

definition finish_jobs :: "up_world \<Rightarrow> up_world" where
  "finish_jobs w = w\<lparr>uw_jobs := map (\<lambda>j. if uj_Succeeded j = 0 then completed j else j) (uw_jobs w)\<rparr>"

definition request_post_drain :: "string \<Rightarrow> string \<Rightarrow> up_world \<Rightarrow> up_world" where
  "request_post_drain m token w = w\<lparr>uw_secrets := map (\<lambda>s. if plan_secret_of m s
     then s\<lparr>sec_Annotations := sset (sec_Annotations s) rke2PostDrainAnnotation token\<rparr> else s) (uw_secrets w)\<rparr>"

definition reboot :: "string \<Rightarrow> string \<Rightarrow> up_world \<Rightarrow> up_world" where
  "reboot n os w = w\<lparr>uw_nodes := map (\<lambda>nd. if node_Name nd = n then nd\<lparr>un_OSImage := os\<rparr> else nd) (uw_nodes w)\<rparr>"

definition upgrade_node_run :: "string \<Rightarrow> string \<Rightarrow> harvester_release \<Rightarrow> string \<Rightarrow> up_env \<Rightarrow> up_world \<Rightarrow> up_world" where
  "upgrade_node_run m n r token e w =
     (let drained = job_event r n upgradeJobTypePreDrain e (finish_jobs (secret_event m e w));
          installed = job_event r n upgradeJobTypePostDrain e (finish_jobs (secret_event m e (request_post_drain m token drained)))
      in node_event n e (reboot n (rel_OS r) installed))"

lemma find_secret:
  assumes "site e m n r nd s w"
  shows "find (plan_secret_of m) (uw_secrets w) = Some s"
proof -
  have "find P xs = Some x" if "filter P xs = [x]" for P and xs :: "plan_secret list" and x
    using that by (induction xs) (auto split: if_splits)
  then show ?thesis using site_simps(13) [OF assms] by blast
qed

lemma hook_phase:
  assumes "site e m n r nd s w" and "\<not> list_ex (same_job (applyNodeJob (uw_upgrade w) r n jt)) (uw_jobs w)"
    and "jt = upgradeJobTypePreDrain \<and> st = nodeStatePreDraining \<and> node_state (uw_upgrade w) n = nodeStateImagesPreloaded \<and>
           ann s rke2PreDrainAnnotation \<noteq> [] \<and> isUnderPreDrain s \<or>
         jt = upgradeJobTypePostDrain \<and> st = nodeStatePostDraining \<and> node_state (uw_upgrade w) n = nodeStatePreDrained \<and>
           ann s rke2PostDrainAnnotation \<noteq> [] \<and> ann s rke2PostDrainAnnotation \<noteq> ann s postDrainAnnotation"
  defines "w' \<equiv> w\<lparr>uw_upgrade := moved (uw_upgrade w) n st, uw_jobs := uw_jobs w @ [completed (applyNodeJob (uw_upgrade w) r n jt)]\<rparr>"
  shows "finish_jobs (secret_event m e w) = w'" "site e m n r nd s w'"
    "find (same_job (applyNodeJob (uw_upgrade w') r n jt)) (uw_jobs w') = Some (completed (applyNodeJob (uw_upgrade w) r n jt))"
proof -
  let ?j = "applyNodeJob (uw_upgrade w) r n jt"
  have "map (\<lambda>j. if uj_Succeeded j = 0 then completed j else j) (uw_jobs w) = uw_jobs w"
    using assms(1) by (intro map_idI) (simp add: site_def)
  then show "finish_jobs (secret_event m e w) = w'"
    using starts_hook [OF assms(1-3)] unfolding secret_event_def find_secret [OF assms(1)] finish_jobs_def w'_def
    by (simp add: applyNodeJob_def)
  show "site e m n r nd s w'"
    using site_job [OF site_moved [OF assms(1), of st], of "completed ?j"] by (simp add: w'_def completed_def)
  have "same_job (applyNodeJob (uw_upgrade w') r n jt) = same_job ?j" by (simp add: w'_def same_job_def fun_eq_iff applyNodeJob_def)
  moreover have "find (same_job ?j) (uw_jobs w @ [completed ?j]) = Some (completed ?j)"
  proof -
    have "find (same_job ?j) (uw_jobs w) = None" using assms(2) by (simp add: find_None_iff list_ex_iff)
    moreover have "same_job ?j (completed ?j)" by (simp add: same_job_def completed_def)
    moreover have "find P (xs @ [x]) = Some x" if "find P xs = None" "P x" for P and xs :: "upgrade_job list" and x
      using that by (induction xs) (auto split: if_splits)
    ultimately show ?thesis by blast
  qed
  ultimately show "find (same_job (applyNodeJob (uw_upgrade w') r n jt)) (uw_jobs w') = Some (completed ?j)"
    by (simp add: w'_def)
qed

lemma with_simps [simp]:
  "uw_upgrade (with_secret s w) = uw_upgrade w" "uw_jobs (with_secret s w) = uw_jobs w" "uw_nodes (with_secret s w) = uw_nodes w"
  "uw_upgrade (with_node n w) = uw_upgrade w" "uw_jobs (with_node n w) = uw_jobs w" "uw_secrets (with_node n w) = uw_secrets w"
  by (simp_all add: with_secret_def with_node_def)

lemma request_post_drain_secret:
  fixes token :: string
  assumes "site e m n r nd s w"
  defines "s' \<equiv> s\<lparr>sec_Annotations := sset (sec_Annotations s) rke2PostDrainAnnotation token\<rparr>"
  shows "request_post_drain m token w = with_secret s' w" "site e m n r nd s' (with_secret s' w)"
proof -
  have of_m: "plan_secret_of m t \<longleftrightarrow> same_secret s' t" if "t \<in> set (uw_secrets w)" for t
  proof
    assume "plan_secret_of m t"
    with that have "t \<in> set (filter (plan_secret_of m) (uw_secrets w))" by simp
    then show "same_secret s' t" unfolding site_simps(13) [OF assms(1)] by (simp add: s'_def same_secret_def)
  next
    assume "same_secret s' t"
    then have "same_secret s t" by (simp add: s'_def same_secret_def)
    from site_simps(14) [OF assms(1) that this] show "plan_secret_of m t" using site_secret(1) [OF assms(1)] by simp
  qed
  have "(if plan_secret_of m t then t\<lparr>sec_Annotations := sset (sec_Annotations t) rke2PostDrainAnnotation token\<rparr> else t) =
      (if same_secret s' t then s' else t)" if "t \<in> set (uw_secrets w)" for t
  proof (cases "same_secret s' t")
    case True
    then have "same_secret s t" by (simp add: s'_def same_secret_def)
    from site_simps(14) [OF assms(1) that this] True of_m [OF that] show ?thesis by (simp add: s'_def)
  qed (use of_m [OF that] in simp)
  then show "request_post_drain m token w = with_secret s' w"
    unfolding request_post_drain_def with_secret_def by (simp only: cong: map_cong)
  show "site e m n r nd s' (with_secret s' w)"
    by (rule site_with_secret [OF assms(1)]) (simp add: s'_def secret_kept_def same_secret_def)
qed

text \<open>Where a node is after its pre-drain hook.\<close>

lemma drained:
  assumes "site e m n r nd s w" and "\<not> list_ex (same_job (applyNodeJob (uw_upgrade w) r n upgradeJobTypePreDrain)) (uw_jobs w)"
    and "node_state (uw_upgrade w) n = nodeStateImagesPreloaded" and "ann s rke2PreDrainAnnotation \<noteq> []" and "isUnderPreDrain s"
  defines "w' \<equiv> job_event r n upgradeJobTypePreDrain e (finish_jobs (secret_event m e w))"
  shows "site e m n r nd (acked s preDrainAnnotation rke2PreDrainAnnotation) w'"
    "uw_upgrade w' = moved (moved (uw_upgrade w) n nodeStatePreDraining) n nodeStatePreDrained"
    "uw_jobs w' = uw_jobs w @ [completed (applyNodeJob (uw_upgrade w) r n upgradeJobTypePreDrain)]"
proof -
  let ?w1 = "w\<lparr>uw_upgrade := moved (uw_upgrade w) n nodeStatePreDraining,
    uw_jobs := uw_jobs w @ [completed (applyNodeJob (uw_upgrade w) r n upgradeJobTypePreDrain)]\<rparr>"
  have start: "upgradeJobTypePreDrain = upgradeJobTypePreDrain \<and> nodeStatePreDraining = nodeStatePreDraining \<and>
      node_state (uw_upgrade w) n = nodeStateImagesPreloaded \<and> ann s rke2PreDrainAnnotation \<noteq> [] \<and> isUnderPreDrain s"
    using assms(3-5) by simp
  note h = hook_phase [OF assms(1,2) disjI1, OF start]
  have "job_event r n upgradeJobTypePreDrain e ?w1 = with_secret (acked s preDrainAnnotation rke2PreDrainAnnotation)
      (?w1\<lparr>uw_upgrade := moved (uw_upgrade ?w1) n nodeStatePreDrained\<rparr>)"
    unfolding job_event_def h(3)
    by (rule finishes_pre_drain [OF h(2)]) (use site_simps(2,3) [OF assms(1)] in simp_all)
  then have w': "w' = with_secret (acked s preDrainAnnotation rke2PreDrainAnnotation)
      (?w1\<lparr>uw_upgrade := moved (uw_upgrade ?w1) n nodeStatePreDrained\<rparr>)"
    unfolding w'_def h(1) .
  show "site e m n r nd (acked s preDrainAnnotation rke2PreDrainAnnotation) w'"
    unfolding w' by (rule site_with_secret [OF site_moved [OF h(2)]]) simp
  show "uw_upgrade w' = moved (moved (uw_upgrade w) n nodeStatePreDraining) n nodeStatePreDrained"
    "uw_jobs w' = uw_jobs w @ [completed (applyNodeJob (uw_upgrade w) r n upgradeJobTypePreDrain)]"
    unfolding w' by simp_all
qed

text \<open>Where it is after the post-drain hook, before the reboot.\<close>

lemma installed:
  assumes "site e m n r nd s w" and "\<not> list_ex (same_job (applyNodeJob (uw_upgrade w) r n upgradeJobTypePostDrain)) (uw_jobs w)"
    and "node_state (uw_upgrade w) n = nodeStatePreDrained" and "token \<noteq> []" and "token \<noteq> ann s postDrainAnnotation"
    and "un_OSImage nd \<noteq> rel_OS r"
  defines "w' \<equiv> job_event r n upgradeJobTypePostDrain e (finish_jobs (secret_event m e (request_post_drain m token w)))"
    and "s' \<equiv> s\<lparr>sec_Annotations := sset (sec_Annotations s) rke2PostDrainAnnotation token\<rparr>"
    and "nd' \<equiv> (awaiting_reboot r nd)\<lparr>node_ResourceVersion := Suc (node_ResourceVersion nd)\<rparr>"
  shows "site e m n r nd' s' w'" "uw_upgrade w' = moved (moved (uw_upgrade w) n nodeStatePostDraining) n nodeStateWaitingReboot"
proof -
  let ?w0 = "with_secret s' w"
  note q = request_post_drain_secret [OF assms(1), of token, folded s'_def]
  let ?w1 = "?w0\<lparr>uw_upgrade := moved (uw_upgrade w) n nodeStatePostDraining,
    uw_jobs := uw_jobs w @ [completed (applyNodeJob (uw_upgrade w) r n upgradeJobTypePostDrain)]\<rparr>"
  have "postDrainAnnotation \<noteq> rke2PostDrainAnnotation" by (simp add: key_defs)
  then have start: "upgradeJobTypePostDrain = upgradeJobTypePostDrain \<and> nodeStatePostDraining = nodeStatePostDraining \<and>
      node_state (uw_upgrade ?w0) n = nodeStatePreDrained \<and> ann s' rke2PostDrainAnnotation \<noteq> [] \<and>
      ann s' rke2PostDrainAnnotation \<noteq> ann s' postDrainAnnotation"
    using assms(3-5) by (simp add: s'_def ann_def)
  have new: "\<not> list_ex (same_job (applyNodeJob (uw_upgrade ?w0) r n upgradeJobTypePostDrain)) (uw_jobs ?w0)"
    using assms(2) by simp
  note h = hook_phase [OF q(2) new disjI2, OF start, unfolded with_simps]
  have "job_event r n upgradeJobTypePostDrain e ?w1 = with_node (awaiting_reboot r nd)
      (?w1\<lparr>uw_upgrade := moved (uw_upgrade ?w1) n nodeStateWaitingReboot\<rparr>)"
    unfolding job_event_def h(3)
    by (rule finishes_post_drain [OF h(2)]) (use site_simps(2,3) [OF assms(1)] assms(6) in simp_all)
  then have w': "w' = with_node (awaiting_reboot r nd) (?w1\<lparr>uw_upgrade := moved (uw_upgrade ?w1) n nodeStateWaitingReboot\<rparr>)"
    unfolding w'_def q(1) h(1) .
  have "site e m n r ((awaiting_reboot r nd)\<lparr>node_ResourceVersion := Suc (node_ResourceVersion (awaiting_reboot r nd))\<rparr>) s' w'"
    unfolding w' by (rule site_with_node [OF site_moved [OF h(2)]])
      (use site_simps(12,17) [OF assms(1)] in \<open>simp_all add: awaiting_reboot_def key_defs\<close>)
  then show "site e m n r nd' s' w'" by (simp add: nd'_def awaiting_reboot_def)
  show "uw_upgrade w' = moved (moved (uw_upgrade w) n nodeStatePostDraining) n nodeStateWaitingReboot"
    unfolding w' by simp
qed

lemma statuses_moved: "distinct (map fst (node_statuses u)) \<Longrightarrow> distinct (map fst (node_statuses (moved u n s)))"
  by (simp add: moved_def node_statuses_def distinct_update)

definition others_succeeded :: "upgrade \<Rightarrow> string \<Rightarrow> bool" where
  "others_succeeded u n \<longleftrightarrow> list_all (\<lambda>(k, s). k = n \<or> ns_State s = StateSucceeded) (node_statuses u)"

lemma set_update_other: "(k, x) \<in> set (AList.update n v l) \<Longrightarrow> k = n \<or> (k, x) \<in> set l"
  by (induction l) (auto split: if_splits)

lemma others_succeeded_moved: "others_succeeded u n \<Longrightarrow> others_succeeded (moved u n s) n"
proof -
  assume "others_succeeded u n"
  then have "k = n \<or> ns_State x = StateSucceeded" if "(k, x) \<in> set (AList.update n v (node_statuses u))" for k x v
    using set_update_other [OF that] by (auto simp: others_succeeded_def list_all_iff)
  moreover have "node_statuses (moved u n s) = AList.update n \<lparr>ns_State = s, ns_Reason = [], ns_Message = []\<rparr> (node_statuses u)"
    by (simp add: moved_def node_statuses_def)
  ultimately show ?thesis unfolding others_succeeded_def list_all_iff by auto
qed

lemma last_node:
  assumes "distinct (map fst (node_statuses u))" and "upgrade_state u = StateUpgradingNodes" and "node_state u n \<noteq> StateSucceeded"
    and "others_succeeded u n"
  shows "nodes_upgraded (setNodeUpgradeStatus now u n StateSucceeded [] [])"
proof -
  let ?e = "\<lparr>ns_State = StateSucceeded, ns_Reason = [], ns_Message = []\<rparr>"
  let ?l = "AList.update n ?e (node_statuses u)" and ?v = "u\<lparr>up_NodeStatuses := Some (AList.update n ?e (node_statuses u))\<rparr>"
  have "map_of (node_statuses u) n \<noteq> Some ?e" using assms(3) by (auto simp: node_state_def)
  moreover have "list_all (\<lambda>(k, s). ns_State s = StateSucceeded) ?l"
    unfolding list_all_iff
  proof clarify
    fix k x
    assume kx: "(k, x) \<in> set ?l"
    then have "map_of ?l k = Some x" using assms(1) by (simp add: distinct_update)
    then have "k = n \<Longrightarrow> x = ?e" by (simp add: update_conv')
    with set_update_other [OF kx] show "ns_State x = StateSucceeded"
      using assms(4) by (cases "k = n") (auto simp: others_succeeded_def list_all_iff)
  qed
  moreover have "upgrade_state ?v = StateUpgradingNodes" using assms(2) by (simp add: upgrade_state_def)
  ultimately have "setNodeUpgradeStatus now u n StateSucceeded [] [] = setNodesUpgradedCondition now ?v ConditionTrue [] []"
    by (simp add: setNodeUpgradeStatus_def Let_def)
  then show ?thesis
    by (simp add: setNodesUpgradedCondition_def nodes_upgraded_def cond_IsTrue_def getStatus_markComplete getStatus_set_condition)
qed

lemma same_job_simps [simp]:
  "same_job (applyNodeJob (moved u n s) r k jt) = same_job (applyNodeJob u r k jt)" "same_job j (completed j') = same_job j j'"
  by (simp_all add: same_job_def completed_def applyNodeJob_def fun_eq_iff)

text \<open>The reboot and what the node handler makes of it.\<close>

lemma rebooted:
  assumes "site e m n r nd s w" and "node_state (uw_upgrade w) n = nodeStateWaitingReboot" and "restore_disabled e"
    and "sget (node_Annotations nd) harvesterNodePendingOSImage = Some (rel_OS r)" and "node_DeletionTimestamp nd = None"
    and "distinct (map fst (node_statuses (uw_upgrade w)))"
  defines "w' \<equiv> node_event n e (reboot n (rel_OS r) w)"
  shows "node_state (uw_upgrade w') n = StateSucceeded" "others_succeeded (uw_upgrade w) n \<Longrightarrow> nodes_upgraded (uw_upgrade w')"
    "\<exists>nd'. find (\<lambda>nd. node_Name nd = n) (uw_nodes w') = Some nd' \<and> un_OSImage nd' = rel_OS r \<and> sget (node_Annotations nd') harvesterNodePendingOSImage = None"
    "filter (plan_secret_of m) (uw_secrets w') = [acked s postDrainAnnotation rke2PostDrainAnnotation]"
proof -
  let ?f = "\<lambda>nd. if node_Name nd = n then nd\<lparr>un_OSImage := rel_OS r\<rparr> else nd" and ?u = "uw_upgrade w"
  let ?s = "acked s postDrainAnnotation rke2PostDrainAnnotation" and ?nd = "nd\<lparr>un_OSImage := rel_OS r\<rparr>"
  have nm: "node_Name nd = n" by (rule site_simps(17) [OF assms(1)])
  have "site e m n r (?f nd) s (w\<lparr>uw_nodes := map ?f (uw_nodes w)\<rparr>)"
    by (rule site_nodes [OF assms(1)]) (use site_simps(12) [OF assms(1)] in simp_all)
  then have st: "site e m n r ?nd s (reboot n (rel_OS r) w)" using nm by (simp add: reboot_def)
  have up: "uw_upgrade (reboot n (rel_OS r) w) = ?u" by (simp add: reboot_def)
  obtain now where w': "w' = with_node (clear_pending_os ?nd) (with_secret ?s
      ((reboot n (rel_OS r) w)\<lparr>uw_upgrade := bump (setNodeUpgradeStatus now ?u n StateSucceeded [] [])\<rparr>))"
    unfolding w'_def node_event_def site_simps(11) [OF st]
    using finishes_reboot [OF st] assms(2-5) by (auto simp: up)
  then have "uw_upgrade w' = bump (setNodeUpgradeStatus now ?u n StateSucceeded [] [])" by simp
  moreover have "nodes_upgraded (bump v) = nodes_upgraded v" for v by (simp add: nodes_upgraded_def bump_def)
  ultimately show "node_state (uw_upgrade w') n = StateSucceeded"
    "others_succeeded (uw_upgrade w) n \<Longrightarrow> nodes_upgraded (uw_upgrade w')"
    using last_node [OF assms(6) site_simps(5) [OF assms(1)]] assms(2) by (simp_all add: node_state_setNodeUpgradeStatus)
  let ?v = "with_node (clear_pending_os ?nd) (with_secret ?s (reboot n (rel_OS r) w))"
  have fin: "site e m n r ((clear_pending_os ?nd)\<lparr>node_ResourceVersion := Suc (node_ResourceVersion (clear_pending_os ?nd))\<rparr>) ?s ?v"
    by (rule site_with_node [OF site_with_secret [OF st]]) (use nm site_simps(12) [OF st] in \<open>simp_all add: clear_pending_os_def key_defs\<close>)
  have "uw_nodes w' = uw_nodes ?v" "uw_secrets w' = uw_secrets ?v" by (simp_all add: w' with_node_def with_secret_def)
  then show "\<exists>nd'. find (\<lambda>nd. node_Name nd = n) (uw_nodes w') = Some nd' \<and> un_OSImage nd' = rel_OS r \<and>
      sget (node_Annotations nd') harvesterNodePendingOSImage = None"
    "filter (plan_secret_of m) (uw_secrets w') = [?s]"
    using site_simps(11,13) [OF fin] by (simp_all add: clear_pending_os_def)
qed

section \<open>Paused nodes\<close>

text \<open>A paused node holds up the hooks of all other nodes.\<close>

lemma paused_node_blocks_others:
  assumes "(k, x) \<in> set (node_statuses u)" and "ns_State x = nodeStateUpgradePaused" and "k \<noteq> n"
  shows "\<exists>err. checkEligibleToDrain u n = Inl err"
proof -
  let ?P = "\<lambda>(name, status). name \<noteq> n \<and> \<not> (ns_State status = StateSucceeded \<or> ns_State status = nodeStateImagesPreloaded)"
  have "?P (k, x)" using assms(2,3) by simp
  then have "find ?P (node_statuses u) \<noteq> None" unfolding find_None_iff using assms(1) by (intro notI) (erule notE, rule exI, rule conjI)
  then obtain p where "find ?P (node_statuses u) = Some p" by (elim not_None_eq [THEN iffD1, THEN exE])
  then show ?thesis by (cases p) (simp add: checkEligibleToDrain_def)
qed

text \<open>The keys that are enqueued for unpaused nodes come after as many empty keys as the pause map has entries.\<close>

lemma unpaused_keys_extend:
  "run_state (unpaused_secret_keys e u ps keys) h = (Inr keys', h') \<Longrightarrow> \<exists>rest. keys' = keys @ rest"
proof (induction ps arbitrary: keys h)
  case (Cons p ps)
  obtain k st where p: "p = (k, st)" by (cases p)
  have "run_state (unpaused_secret_keys e u ps keys) h = (Inr keys', h') \<or>
      (\<exists>x. run_state (unpaused_secret_keys e u ps (keys @ [x])) h = (Inr keys', h'))"
    using Cons.prems unfolding p by (auto split: if_splits sum.splits option.splits)
  then show ?case
  proof
    assume "\<exists>x. run_state (unpaused_secret_keys e u ps (keys @ [x])) h = (Inr keys', h')"
    then obtain x rest where "keys' = (keys @ [x]) @ rest" using Cons.IH by blast
    then show ?thesis by simp
  qed (rule Cons.IH)
qed simp

lemma unpaused_keys_padded:
  assumes "up_DeletionTimestamp u = None" and "sval (up_Labels u) harvesterLatestUpgradeLabel = ''true''"
    and "getNodeUpgradePauseMap (pause_map_json e) u = Inr (Some pauseMap)"
    and "run_state (NotifyUnpausedMachinePlanSecret e u) h = (Inr keys, h')"
  shows "\<exists>rest. keys = replicate (length pauseMap) ([], []) @ rest"
  using assms unpaused_keys_extend by (simp add: NotifyUnpausedMachinePlanSecret_def)

section \<open>A cluster of two nodes\<close>

definition two_release :: harvester_release where
  "two_release = \<lparr>rel_Harvester = ''v1.6.0'', rel_HarvesterChart = ''1.6.0'', rel_HarvesterSystemDefaultRegistry = [],
     rel_OS = ''Harvester v1.6.0'', rel_Kubernetes = ''v1.33'', rel_Rancher = ''v2.11'', rel_RancherSystemDefaultRegistry = [],
     rel_ServerFlavor = [], rel_MonitoringChart = [], rel_MinUpgradableVersion = ''v1.5.0''\<rparr>"

definition two_upgrade :: "string \<Rightarrow> string \<Rightarrow> upgrade" where
  "two_upgrade s1 s2 = \<lparr>up_APIVersion = ''harvesterhci.io/v1beta1'', up_Kind = ''Upgrade'', up_Namespace = upgradeNamespace,
     up_Name = ''hvst-upgrade'', up_UID = ''uid'', up_ResourceVersion = 7, up_DeletionTimestamp = None,
     up_Labels = Some [(harvesterLatestUpgradeLabel, ''true''), (upgradeStateLabel, StateUpgradingNodes)], up_Annotations = None,
     up_UpgradeImage = None, up_RepoInfo = ''release'', up_SingleNode = [],
     up_NodeStatuses = Some [(''node1'', \<lparr>ns_State = s1, ns_Reason = [], ns_Message = []\<rparr>),
                             (''node2'', \<lparr>ns_State = s2, ns_Reason = [], ns_Message = []\<rparr>)],
     up_Conditions = []\<rparr>"

definition two_secret :: "string \<Rightarrow> plan_secret" where
  "two_secret m = \<lparr>sec_Namespace = rancherPlanSecretNamespace, sec_Name = m @ ''-plan'', sec_Type = rancherPlanSecretType,
     sec_Labels = Some [(rancherPlanSecretMachineLabel, m)], sec_Annotations = Some [(rke2PreDrainAnnotation, ''request'')],
     sec_DeletionTimestamp = None\<rparr>"

definition two_node :: "string \<Rightarrow> string \<Rightarrow> string \<Rightarrow> upgrade_node" where
  "two_node n m os = \<lparr>node_Kind = ''Node'', node_APIVersion = ''v1'', node_Name = n, node_UID = n, node_ResourceVersion = 3,
     node_Labels = None, node_Annotations = Some [(MachineAnnotation, m)], node_CreationTimestamp = 0, node_DeletionTimestamp = None,
     node_Unschedulable = False, node_Taints = [], node_Conditions = [], un_OSImage = os\<rparr>"

definition two_world :: "string \<Rightarrow> string \<Rightarrow> up_world" where
  "two_world s1 s2 = \<lparr>uw_upgrade = two_upgrade s1 s2, uw_secrets = [two_secret ''machine1'', two_secret ''machine2''], uw_jobs = [],
     uw_nodes = [two_node ''node1'' ''machine1'' ''Harvester v1.5.0'', two_node ''node2'' ''machine2'' ''Harvester v1.5.0''],
     uw_fates = []\<rparr>"

definition two_machines :: "string \<Rightarrow> string \<Rightarrow> bool" where
  "two_machines n m \<longleftrightarrow> (n, m) \<in> set [(''node1'', ''machine1''), (''node2'', ''machine2'')]"

abbreviation absent :: "'a result" where
  "absent \<equiv> Inl (ApiStatus NotFound ''not found'')"

definition two_env :: up_env where
  "two_env = \<lparr>upgradeCache_Get = \<lambda>h ns n. absent, upgradeCache_List = \<lambda>h ns. Inr [],
     upgradeClient_Update = \<lambda>h u. absent, jobCache_List = \<lambda>h ns. Inr [], jobCache_Get = \<lambda>h ns n. absent,
     jobClient_Create = \<lambda>h j. absent,
     machineCache_Get = \<lambda>h ns n. if n = ''machine1'' then Inr \<lparr>mach_NodeRef = Some ''node1''\<rparr>
       else if n = ''machine2'' then Inr \<lparr>mach_NodeRef = Some ''node2''\<rparr> else absent,
     upNodeCache_Get = \<lambda>h n. absent, upNodeCache_List = \<lambda>h. Inr [], nodeClient_Update = \<lambda>h n. absent,
     secretClient_List = \<lambda>h ns k v t. Inr [], secretClient_Update = \<lambda>h s. absent, planCache_Get = \<lambda>h ns n. absent,
     configMapCache_Get = \<lambda>h ns n. absent, settingCache_Get = \<lambda>h n. absent, upgrade_config_json = \<lambda>s. Inr False,
     pause_map_json = \<lambda>s. Inr None, repo_info_yaml = \<lambda>s. Inr two_release, labels_NewRequirement = \<lambda>k op vs. Inr (),
     up_clock = \<lambda>h. 0, rand_Intn = \<lambda>h. 0, up_namespace = upgradeNamespace\<rparr>"

lemmas two_defs = two_env_def two_world_def two_upgrade_def two_secret_def two_node_def

lemma two_statuses [simp]: "node_statuses (two_upgrade s1 s2) =
    [(''node1'', \<lparr>ns_State = s1, ns_Reason = [], ns_Message = []\<rparr>), (''node2'', \<lparr>ns_State = s2, ns_Reason = [], ns_Message = []\<rparr>)]"
  by (simp add: two_upgrade_def node_statuses_def)

lemma two_states: "node_state (two_upgrade s1 s2) n = (if n = ''node1'' then s1 else if n = ''node2'' then s2 else [])"
  by (simp add: node_state_def)

lemma two_phase: "upgrade_state (two_upgrade s1 s2) = StateUpgradingNodes" "up_Conditions (two_upgrade s1 s2) = []"
  by (simp_all add: upgrade_state_def two_upgrade_def sval_def sget_def key_defs)

lemma two_inv:
  assumes "s1 \<notin> set busy_states \<or> s2 \<notin> set busy_states"
  shows "up_inv (two_upgrade s1 s2)" "node_phase (two_upgrade s1 s2)"
proof -
  have "report_ok (two_upgrade s1 s2)"
    by (simp add: report_ok_def two_phase nodes_upgraded_def cond_IsTrue_def getStatus_def findCond_def)
  moreover have "one_busy (two_upgrade s1 s2)" using assms by (auto simp: one_busy_def busy_def two_states)
  ultimately show "up_inv (two_upgrade s1 s2)" by (simp add: up_inv_def two_upgrade_def)
  show "node_phase (two_upgrade s1 s2)" by (simp add: node_phase_def two_phase)
qed

lemma two_site:
  assumes "s2 = StateSucceeded \<or> s2 = nodeStateImagesPreloaded"
  shows "site two_env ''machine1'' ''node1'' two_release (two_node ''node1'' ''machine1'' ''Harvester v1.5.0'')
    (two_secret ''machine1'') (two_world s1 s2)"
proof -
  have "checkEligibleToDrain (two_upgrade s1 s2) ''node1'' = Inr ()"
    using assms by (auto simp: checkEligibleToDrain_def)
  then show ?thesis
    unfolding site_def two_world_def
    by (simp add: two_phase)
       (simp add: two_env_def two_upgrade_def two_secret_def two_node_def sget_def key_defs shouldPauseNodeUpgrade_def
          getNodeUpgradePauseMap_def plan_secret_of_def same_secret_def)
qed

abbreviation "two_start \<equiv> two_world nodeStateImagesPreloaded StateSucceeded"



section \<open>Properties of the node phase\<close>





text \<open>
  C3. An upgrade takes a node all the way: when the caches are up to date and no request fails, the two hooks of Rancher, their jobs
  and the reboot in between lead from the preloaded images to success, with both hooks acknowledged on the plan
  secret and the mark for the reboot removed from the node; the last node completes the node phase.
\<close>

theorem node_upgrade_completes:
  assumes "site e m n r nd s w" and "node_state (uw_upgrade w) n = nodeStateImagesPreloaded"
    and "ann s rke2PreDrainAnnotation \<noteq> []" and "isUnderPreDrain s" and "token \<noteq> []" and "token \<noteq> ann s postDrainAnnotation"
    and "\<And>jt. jt \<in> {upgradeJobTypePreDrain, upgradeJobTypePostDrain} \<Longrightarrow> \<not> list_ex (same_job (applyNodeJob (uw_upgrade w) r n jt)) (uw_jobs w)"
    and "uj_Name (applyNodeJob (uw_upgrade w) r n upgradeJobTypePreDrain) \<noteq> uj_Name (applyNodeJob (uw_upgrade w) r n upgradeJobTypePostDrain)"
    and "un_OSImage nd \<noteq> rel_OS r" and "restore_disabled e" and "node_DeletionTimestamp nd = None"
    and "distinct (map fst (node_statuses (uw_upgrade w)))"
  shows "\<exists>w' s' nd'. upgrade_node_run m n r token e w = w' \<and> node_state (uw_upgrade w') n = StateSucceeded \<and>
    filter (plan_secret_of m) (uw_secrets w') = [s'] \<and> ann s' preDrainAnnotation = ann s rke2PreDrainAnnotation \<and>
    ann s' postDrainAnnotation = token \<and>
    find (\<lambda>nd. node_Name nd = n) (uw_nodes w') = Some nd' \<and> un_OSImage nd' = rel_OS r \<and>
    sget (node_Annotations nd') harvesterNodePendingOSImage = None \<and>
    (others_succeeded (uw_upgrade w) n \<longrightarrow> nodes_upgraded (uw_upgrade w'))"
proof -
  let ?u = "uw_upgrade w" and ?s1 = "acked s preDrainAnnotation rke2PreDrainAnnotation"
  let ?w1 = "job_event r n upgradeJobTypePreDrain e (finish_jobs (secret_event m e w))"
  let ?w2 = "job_event r n upgradeJobTypePostDrain e (finish_jobs (secret_event m e (request_post_drain m token ?w1)))"
  let ?w3 = "node_event n e (reboot n (rel_OS r) ?w2)"
  let ?s2 = "?s1\<lparr>sec_Annotations := sset (sec_Annotations ?s1) rke2PostDrainAnnotation token\<rparr>"
  let ?nd = "(awaiting_reboot r nd)\<lparr>node_ResourceVersion := Suc (node_ResourceVersion nd)\<rparr>"
  note d = drained [OF assms(1) assms(7) assms(2-4), OF insertI1]
  have new: "\<not> list_ex (same_job (applyNodeJob (uw_upgrade ?w1) r n upgradeJobTypePostDrain)) (uw_jobs ?w1)"
    using assms(7) [of upgradeJobTypePostDrain] assms(8) not_sym unfolding d(2,3) by (auto simp: same_job_def [of _ "applyNodeJob _ _ _ _"])
  have "token \<noteq> ann ?s1 postDrainAnnotation" using assms(6) by (simp add: ann_def acked_def key_defs)
  note i = installed [OF d(1) new _ assms(5) this assms(9), unfolded d(2), simplified]
  have u2: "node_state (uw_upgrade ?w2) n = nodeStateWaitingReboot" "distinct (map fst (node_statuses (uw_upgrade ?w2)))"
    "others_succeeded ?u n \<Longrightarrow> others_succeeded (uw_upgrade ?w2) n"
    unfolding i(2) by (simp_all add: statuses_moved assms(12) others_succeeded_moved)
  have pend: "sget (node_Annotations ?nd) harvesterNodePendingOSImage = Some (rel_OS r)" "node_DeletionTimestamp ?nd = None"
    using assms(11) by (simp_all add: awaiting_reboot_def)
  note b = rebooted [OF i(1) u2(1) assms(10) pend u2(2)]
  have "ann (acked ?s2 postDrainAnnotation rke2PostDrainAnnotation) preDrainAnnotation = ann s rke2PreDrainAnnotation"
    "ann (acked ?s2 postDrainAnnotation rke2PostDrainAnnotation) postDrainAnnotation = token"
    by (simp_all add: acked_def ann_def key_defs)
  moreover have "upgrade_node_run m n r token e w = ?w3" by (simp add: upgrade_node_run_def Let_def)
  ultimately show ?thesis using b u2(3) by blast
qed

theorem node_upgrade_completes_witness:
  "\<exists>w' s' nd'. upgrade_node_run ''machine1'' ''node1'' two_release ''second'' two_env two_start = w' \<and>
    node_state (uw_upgrade w') ''node1'' = StateSucceeded \<and>
    filter (plan_secret_of ''machine1'') (uw_secrets w') = [s'] \<and> ann s' preDrainAnnotation = ''request'' \<and>
    ann s' postDrainAnnotation = ''second'' \<and>
    find (\<lambda>nd. node_Name nd = ''node1'') (uw_nodes w') = Some nd' \<and> un_OSImage nd' = ''Harvester v1.6.0'' \<and>
    sget (node_Annotations nd') harvesterNodePendingOSImage = None \<and> nodes_upgraded (uw_upgrade w')"
proof -
  let ?s = "two_secret ''machine1''" and ?nd = "two_node ''node1'' ''machine1'' ''Harvester v1.5.0''"
  have st: "site two_env ''machine1'' ''node1'' two_release ?nd ?s two_start" by (rule two_site) simp
  have a: "ann ?s rke2PreDrainAnnotation = ''request''" "ann ?s preDrainAnnotation = []" "ann ?s postDrainAnnotation = []"
    by (simp_all add: ann_def two_secret_def sval_def sget_def key_defs)
  have nm: "uj_Name (applyNodeJob (uw_upgrade two_start) two_release ''node1'' upgradeJobTypePreDrain) \<noteq>
      uj_Name (applyNodeJob (uw_upgrade two_start) two_release ''node1'' upgradeJobTypePostDrain)" by code_simp
  have no: "others_succeeded (uw_upgrade two_start) ''node1''" by (simp add: others_succeeded_def two_world_def)
  have rd: "restore_disabled two_env" by (simp add: restore_disabled_def two_env_def)
  have r: "rel_OS two_release = ''Harvester v1.6.0''" by (simp add: two_release_def)
  have "\<exists>w' s' nd'. upgrade_node_run ''machine1'' ''node1'' two_release ''second'' two_env two_start = w' \<and>
      node_state (uw_upgrade w') ''node1'' = StateSucceeded \<and>
      filter (plan_secret_of ''machine1'') (uw_secrets w') = [s'] \<and> ann s' preDrainAnnotation = ann ?s rke2PreDrainAnnotation \<and>
      ann s' postDrainAnnotation = ''second'' \<and>
      find (\<lambda>nd. node_Name nd = ''node1'') (uw_nodes w') = Some nd' \<and> un_OSImage nd' = rel_OS two_release \<and>
      sget (node_Annotations nd') harvesterNodePendingOSImage = None \<and>
      (others_succeeded (uw_upgrade two_start) ''node1'' \<longrightarrow> nodes_upgraded (uw_upgrade w'))"
    by (rule node_upgrade_completes [OF st _ _ _ _ _ _ nm _ rd])
       (simp_all add: a isUnderPreDrain_def two_states two_world_def two_node_def r)
  then show ?thesis unfolding a r using no by blast
qed








text \<open>The pre-drain job of the first node is done.\<close>

definition two_job :: upgrade_job where
  "two_job = completed (applyNodeJob (two_upgrade nodeStatePreDraining StateSucceeded) two_release ''node1'' upgradeJobTypePreDrain)"

text \<open>The update of the plan secret fails; the handler runs again.\<close>

definition two_faulty :: up_world where
  "two_faulty = (two_world nodeStatePreDraining StateSucceeded)\<lparr>uw_jobs := [two_job],
     uw_fates := [Answered, Answered, Refused (ApiStatus (OtherReason ''Timeout'') ''timeout'')]\<rparr>"

definition two_job_run :: "up_world \<Rightarrow> up_world" where
  "two_job_run w = up_run (\<lambda>e. OnChanged_job e (Some two_job)) (fresh two_env w) w"

definition machines_of :: "up_world \<Rightarrow> (string \<times> string option) list" where
  "machines_of w = map (\<lambda>nd. (node_Name nd, sget (node_Annotations nd) MachineAnnotation)) (uw_nodes w)"

definition two_report :: "up_world \<Rightarrow> string \<times> string list \<times> (string \<times> string option) list" where
  "two_report w = (node_state (uw_upgrade w) ''node1'', map (\<lambda>s. ann s preDrainAnnotation) (uw_secrets w), machines_of w)"

lemma two_lost: "two_report (two_job_run two_faulty) =
    (nodeStatePreDrained, [[], []], [(''node1'', Some ''machine1''), (''node2'', Some ''machine2'')])"
  by code_simp

section \<open>Two hooks at once\<close>




lemma two_job_run_step:
  assumes "machines_of w = [(''node1'', Some ''machine1''), (''node2'', Some ''machine2'')]"
  shows "(up_step two_machines)\<^sup>*\<^sup>* w (two_job_run w)"
  unfolding two_job_run_def
proof (intro r_into_rtranclp up_step.job fresh_coherent)
  show "\<not> single_node_job j" if "Some two_job = Some j" for j
    using that by (auto simp: single_node_job_def two_job_def completed_def job_labels)
  show "two_machines n m" if c: "cached_machine (fresh two_env w) n m" for n m
  proof -
    obtain nd where nd: "find (\<lambda>nd. node_Name nd = n) (uw_nodes w) = Some nd" "sget (node_Annotations nd) MachineAnnotation = Some m"
      using c by (auto simp: cached_machine_def fresh_def split: option.splits)
    then have "nd \<in> set (uw_nodes w)" "node_Name nd = n" by (auto simp: find_Some_iff)
    then have "(n, Some m) \<in> set (machines_of w)" using nd(2) unfolding machines_of_def by force
    then show ?thesis unfolding assms by (auto simp: two_machines_def)
  qed
qed

text \<open>
  C38. A hook is acknowledged on a plan secret only after the API server has accepted the update of the upgrade
  that takes the node of that machine out of the state in which the hook was running, and the acknowledgement
  repeats the request that Rancher wrote on the secret.
\<close>

theorem acknowledgement_follows_record:
  assumes "issued (OnChanged_job e (Some j)) = pre @ SecretUpdate s' # post \<or> issued (OnChanged_node e (Some nd)) = pre @ SecretUpdate s' # post"
    and "\<not> single_node_job j"
  shows "\<exists>s machineName n u u'. (cached_machine e n machineName \<or> node_machine (Some nd) n machineName) \<and>
    listed e pre machineName s \<and> recorded e pre u u' \<and>
    (s' = acked s preDrainAnnotation rke2PreDrainAnnotation \<and> node_state u n = nodeStatePreDraining \<and>
       node_state u' n \<in> {nodeStatePreDrained, StateFailed} \<or>
     s' = acked s postDrainAnnotation rke2PostDrainAnnotation \<and> node_state u n \<in> {nodeStatePostDraining, nodeStateWaitingReboot} \<and>
       node_state u' n \<in> {StateSucceeded, StateFailed})"
proof -
  have "ack_ok e (cached_machine e) pre (SecretUpdate s') \<or> ack_ok e (node_machine (Some nd)) pre (SecretUpdate s')"
    using assms(1) emits_issued [OF acks_job [of "Some j" e]] emits_issued [OF acks_node [of e "Some nd"]] assms(2) by blast
  then show ?thesis unfolding ack_ok_def up_call.case by blast
qed

abbreviation two_draining :: up_world where
  "two_draining \<equiv> two_world nodeStatePreDraining StateSucceeded"

theorem acknowledgement_follows_record_witness:
  "\<exists>pre s' u u' n. issued (OnChanged_job (up_server (fresh two_env two_draining) two_draining) (Some two_job)) = pre @ [SecretUpdate s'] \<and>
     recorded (up_server (fresh two_env two_draining) two_draining) pre u u' \<and>
     node_state u n \<noteq> node_state u' n"
proof -
  let ?e = "up_server (fresh two_env two_draining) two_draining" and ?nd = "two_node ''node1'' ''machine1'' ''Harvester v1.5.0''"
  let ?pre = "[UpgradeUpdate (setNodeUpgradeStatus (up_now two_env []) (uw_upgrade two_draining) ''node1'' nodeStatePreDrained [] []),
      SecretList rancherPlanSecretNamespace rancherPlanSecretMachineLabel ''machine1'' rancherPlanSecretType]"
  have st: "site two_env ''machine1'' ''node1'' two_release ?nd (two_secret ''machine1'') two_draining" by (rule two_site) simp
  have "run_state (OnChanged_job ?e (Some two_job)) [] =
      (Inr (Some two_job), ?pre @ [SecretUpdate (acked (two_secret ''machine1'') preDrainAnnotation rke2PreDrainAnnotation)])"
    unfolding two_job_def using pre_drain_requests [OF st, of "two_upgrade nodeStatePreDraining StateSucceeded"]
    by (simp add: two_world_def two_states) (simp add: two_upgrade_def)
  then have i: "issued (OnChanged_job ?e (Some two_job)) = ?pre @ [SecretUpdate (acked (two_secret ''machine1'') preDrainAnnotation rke2PreDrainAnnotation)]"
    by (simp add: issued_def)
  have "\<not> single_node_job two_job" by (simp add: single_node_job_def two_job_def completed_def job_labels)
  from acknowledgement_follows_record [OF disjI1 [OF i] this, where nd = ?nd] obtain n u u' where
    "recorded ?e ?pre u u'" "node_state u n \<in> {nodeStatePreDraining, nodeStatePostDraining, nodeStateWaitingReboot}"
    "node_state u' n \<in> {nodeStatePreDrained, StateFailed, StateSucceeded}" by blast
  then have "recorded ?e ?pre u u' \<and> node_state u n \<noteq> node_state u' n" by auto
  with i show ?thesis by blast
qed

text \<open>
  C39. An acknowledgement of the pre-drain hook that is lost is never repeated: once the upgrade records the node as drained,
  no run of any handler changes the acknowledgement on the secret of its machine, so Rancher waits for ever.
\<close>

theorem lost_acknowledgement_is_final:
  assumes "up_inv (uw_upgrade w)" and "node_phase (uw_upgrade w)" and "node_state (uw_upgrade w) n = nodeStatePreDrained"
    and "\<And>n'. K n' m \<Longrightarrow> n' = n" and "(up_step K)\<^sup>*\<^sup>* w w'"
    and "\<And>s. s \<in> set (uw_secrets w) \<Longrightarrow> machine_label s = Some m \<Longrightarrow> ann s preDrainAnnotation \<noteq> token"
    and "s' \<in> set (uw_secrets w')" and "machine_label s' = Some m"
  shows "ann s' preDrainAnnotation \<noteq> token"
proof -
  have "pre_kept m w w'" using steps_keep_pre [OF assms(5,1,2) _ assms(4)] assms(3) by simp
  then show ?thesis using assms(6,7,8) unfolding pre_kept_def by metis
qed

text \<open>In the example the pre-drain hook of the first node is done, its acknowledgement has failed and the job handler runs again.\<close>

theorem lost_acknowledgement_is_final_witness:
  "node_state (uw_upgrade (two_job_run two_faulty)) ''node1'' = nodeStatePreDrained \<and>
   filter (\<lambda>s. machine_label s = Some ''machine1'' \<and> ann s preDrainAnnotation = ''request'') (uw_secrets (two_job_run (two_job_run two_faulty))) = []"
proof -
  let ?w = "two_job_run two_faulty"
  have state: "node_state (uw_upgrade ?w) ''node1'' = nodeStatePreDrained"
    and acks: "map (\<lambda>s. ann s preDrainAnnotation) (uw_secrets ?w) = [[], []]"
    using two_lost by (simp_all add: two_report_def)
  have inv: "up_inv (uw_upgrade two_faulty)" "node_phase (uw_upgrade two_faulty)"
    using two_inv by (simp_all add: two_faulty_def two_world_def)
  have m: "machines_of two_faulty = [(''node1'', Some ''machine1''), (''node2'', Some ''machine2'')]"
    "machines_of ?w = [(''node1'', Some ''machine1''), (''node2'', Some ''machine2'')]"
    using two_lost by (simp_all add: two_report_def machines_of_def two_faulty_def two_world_def two_node_def sget_def key_defs)
  from up_steps_inv [OF two_job_run_step [OF m(1)] inv(1)] inv(2) have w: "up_inv (uw_upgrade ?w)" "node_phase (uw_upgrade ?w)" by simp_all
  have none: "ann s preDrainAnnotation \<noteq> ''request''" if "s \<in> set (uw_secrets ?w)" for s
  proof -
    have "ann s preDrainAnnotation \<in> set (map (\<lambda>s. ann s preDrainAnnotation) (uw_secrets ?w))" using that by simp
    then show ?thesis unfolding acks by auto
  qed
  have steps: "(up_step two_machines)\<^sup>*\<^sup>* ?w (two_job_run ?w)" by (rule two_job_run_step [OF m(2)])
  have "ann s' preDrainAnnotation \<noteq> ''request''" if "s' \<in> set (uw_secrets (two_job_run ?w))" "machine_label s' = Some ''machine1''" for s'
    by (rule lost_acknowledgement_is_final [OF w state _ steps none that]) (auto simp: two_machines_def)
  then show ?thesis using state by (auto simp: filter_empty_conv)
qed



end
