(* ===== verification/Spec2Isabelle.thy ===== *)
theory Spec2Isabelle
  imports Node_Power Maintenance_Protocol Node_Promotion Node_Down Quota_Controller Addon_Webhook Schedule_Protocol Upgrade_Progress
begin

text \<open>
  Harvester is a hyperconverged infrastructure product on Kubernetes: virtual machines are KubeVirt objects, volumes
  are Longhorn volumes, and everything Harvester adds is a set of controllers that watch objects and send
  requests to the API server, and a set of admission webhooks that accept or reject the changes of
  others. This development models the controllers that carry state machines of their own and proves what keeps the
  cluster safe and moving: node maintenance, promotion and failure handling, live migration under
  quotas, addons, scheduled backups and the node phase of cluster upgrades.

  \<^bold>\<open>How the code is modelled.\<close>
  A handler \<^verbatim>\<open>OnChange(key, obj) (obj, error)\<close> is an action of the state monad over the history of
  the requests it has sent (\<open>act\<close> in \<open>Harvester_Prelude\<close>); nil objects are \<open>None\<close>, errors are values of
  \<open>go_error\<close> in a sum type, and a run-time panic is an error value of its own. Answers of the API
  server, contents of caches, the clock and third-party code are fields of an environment record and may depend on the
  history, so a theorem that quantifies over the environment holds for every server, every other
  client and every stale cache. \<open>emits P m h\<close> says that each request of an action satisfies \<open>P\<close> together
  with the history before it; the rules \<open>emit_intros\<close> prove it along the structure of the code.
  Deep copies are the identity, Go maps are association lists with \<open>None\<close> for the nil map, integers are
  unbounded except where the code can overflow (\<open>wrap64\<close>, \<open>sat64\<close>), times are nanoseconds.
  For liveness and for interleavings a record holds the state of the API server, a server function answers requests from it,
  and an inductive step relation interleaves the handlers with the users and the other controllers.

  \<^bold>\<open>Theories.\<close>
  \<^item> \<open>Harvester_Prelude\<close>: errors, string maps, actions, \<open>retry_on_conflict\<close>, the locales \<open>reconciler\<close> (a policy of
    one run holds for any sequence of runs; interpreted for the node-drain handler) and \<open>marker\<close> (marks on foreign
    objects; interpreted for the marks of migrating VMs and for the drain request). \<open>Kube_Objects\<close>: objects and keys.
    \<open>Conditions\<close>: \<^verbatim>\<open>condition.Cond\<close>. \<open>Go_Base64\<close>, \<open>Go_Time\<close>, \<open>Go_Names\<close>: the parts of the Go library the code relies on,
    with round trips of encoding and formatting. \<open>Admission\<close>: errors of the webhooks.
  \<^item> \<open>Node_Util\<close>, \<open>VMI_Util\<close>: \<^verbatim>\<open>pkg/util/node.go\<close> and \<^verbatim>\<open>pkg/util/virtualmachineinstance\<close>.
  \<^item> \<open>Maintenance_Mode\<close> (\<^verbatim>\<open>pkg/util/maintain.go\<close>, \<^verbatim>\<open>pkg/util/drainhelper\<close>), \<open>Node_Drain\<close>
    (\<^verbatim>\<open>controller/master/nodedrain\<close>), \<open>Node_Maintain\<close> and \<open>Node_Power\<close> (\<^verbatim>\<open>controller/master/node/maintain_controller.go\<close>,
    \<^verbatim>\<open>pkg/api/node\<close>): the life cycle of a node in maintenance. Status writes only make the transitions of
    the life cycle, VMs are halted before the drain, the deadline is kept, completion follows evacuation.
    \<open>Maintenance_Protocol\<close> composes them over a log of writes and lagging caches: with a three-node
    control plane at most one of its nodes is past its pre-check, the handlers refine the protocol, and
    the place where a stale reconcile breaks it is shown.
  \<^item> \<open>Node_Promotion\<close>, \<open>Node_Down\<close> (\<^verbatim>\<open>controller/master/node\<close>): which worker becomes a management node, and the
    escalation for nodes that stop answering, with its recovery.
  \<^item> \<open>Resource_Quota\<close> (\<^verbatim>\<open>pkg/util/resourcequota\<close>) and \<open>Quota_Controller\<close> (\<^verbatim>\<open>controller/master/resourcequota\<close>,
    \<^verbatim>\<open>controller/master/migration\<close>): exact admission checks, and limits that follow the running migrations
    in every interleaving.
  \<^item> \<open>Addon_Controller\<close> (\<^verbatim>\<open>controller/master/addon\<close>) and \<open>Addon_Webhook\<close>
    (\<^verbatim>\<open>webhook/resources/addon\<close>, \<^verbatim>\<open>pkg/util/logging\<close>): the status machine of addons over Helm charts, the webhook as
    an equivalence with its specification, and their composition.
  \<^item> \<open>VM_Backup\<close>, \<open>Scheduled_Backup\<close> (\<^verbatim>\<open>controller/master/schedulevmbackup\<close>, \<^verbatim>\<open>pkg/util/svmbackup.go\<close>) and \<open>Schedule_Protocol\<close>:
    when a backup is made, which ones are deleted, suspension and resumption, and the invariant of a
    schedule over time.
  \<^item> \<open>Upgrade_Nodes\<close> (the handlers of \<^verbatim>\<open>controller/master/upgrade\<close> for plan secrets, jobs, nodes, plans, the repository
    deployment and image), \<open>Upgrade_Invariant\<close> (each update a handler sends is a legal change of the version of the
    upgrade it was computed from), \<open>Upgrade_Protocol\<close> (handlers, Rancher, jobs, nodes and users interleaved over a
    server with optimistic concurrency, stale caches, refused requests and lost answers) and \<open>Upgrade_Progress\<close>: one node at a
    time is upgraded, success means that everything is upgraded, nodes only move forward, an acknowledgement
    follows its record and is lost for good when its request fails, and a node reaches success when nothing fails.

  \<^bold>\<open>Termination and bounds.\<close>
  Every definition is total; no fuel is used. Loops over lists are structural, \<open>retry_on_conflict\<close>
  takes the number of steps of the client's default backoff, and the two attempts of a node update in the
  upgrade are written out. Where the code requeues itself, the liveness theorems count the reconciles that are enough.

  \<^bold>\<open>Not modelled.\<close>
  The installer, the HTTP server and its endpoints stream bytes, render templates or call the operating system.
  Generated clients and deep copies appear as requests and as the identity. The controllers
  of VMs, images, restores, settings, storage networks, upgrade logs and Rancher are state
  machines over further objects that have not been translated; neither have the webhooks that guard them.
  Of the upgrade the phases before the node phase, the repository, the clean-up and the version syncer are not modelled.
  KubeVirt, Longhorn, Rancher, Helm and the Kubernetes API server are other programs: what they answer is a parameter,
  and a theorem that needs them to cooperate says so in a hypothesis.
\<close>

end
